(* ===== verification/Prelude.thy ===== *)
theory Prelude
  imports Main
begin

text \<open>
  The base of the development: the programs of the model and the lemmas every component uses.

  A Go function that may fail and that changes the node it runs on is a program: a function from
  the state to a result (\<open>Inl\<close> an error, \<open>Inr\<close> a value) and the new state. \<open>bnd\<close> is the
  sequence \<^verbatim>\<open>x, err := m(); if err != nil { return err }; k(x)\<close>, \<open>attempt\<close> is
  \<^verbatim>\<open>x, err := m()\<close> with the error kept for a test, \<open>onErr\<close> is the wrapping of an error before it is
  returned, and \<open>deferred\<close> is a deferred call. The state type is a variable here; the components
  instantiate it with the node's world.

  \<open>need\<close> is the use of a library function that may fail. Facts about programs are collected for the
  components: \<open>prog_elims\<close> (what an outcome says about the parts of a program) and the collections of
  relations that every step keeps between the state before and the state after, whatever the outcome:
  \<open>guar_intros\<close> for the control structure and the environment, \<open>blind_intros\<close> for relations that do not
  see files, \<open>path_intros\<close> for one file, \<open>db_intros\<close> for relations that do not see the database,
  \<open>rel_intros\<close> for relations on its contents and \<open>inv_intros\<close> for invariants of its contents;
  \<open>fail_intros\<close> is for relations that hold when a program fails.
\<close>

section \<open>Collections of facts\<close>

named_theorems guar_intros
named_theorems blind_intros
named_theorems path_intros
named_theorems db_intros
named_theorems rel_intros
named_theorems inv_intros
named_theorems fail_intros
named_theorems prog_elims

section \<open>Programs\<close>

type_synonym ('s, 'e, 'a) prog = "'s \<Rightarrow> ('e + 'a) \<times> 's"

definition ret :: "'a \<Rightarrow> ('s, 'e, 'a) prog" where
  "ret x = (\<lambda>s. (Inr x, s))"

definition throw :: "'e \<Rightarrow> ('s, 'e, 'a) prog" where
  "throw e = (\<lambda>s. (Inl e, s))"

definition bnd :: "('s, 'e, 'a) prog \<Rightarrow> ('a \<Rightarrow> ('s, 'e, 'b) prog) \<Rightarrow> ('s, 'e, 'b) prog" where
  "bnd m k = (\<lambda>s. case m s of (Inl e, s') \<Rightarrow> (Inl e, s') | (Inr x, s') \<Rightarrow> k x s')"

definition attempt :: "('s, 'e, 'a) prog \<Rightarrow> ('s, 'f, 'e + 'a) prog" where
  "attempt m = (\<lambda>s. case m s of (r, s') \<Rightarrow> (Inr r, s'))"

definition onErr :: "('e \<Rightarrow> 'f) \<Rightarrow> ('s, 'e, 'a) prog \<Rightarrow> ('s, 'f, 'a) prog" where
  "onErr f m = (\<lambda>s. case m s of (Inl e, s') \<Rightarrow> (Inl (f e), s') | (Inr x, s') \<Rightarrow> (Inr x, s'))"

definition deferred :: "('s, 'f, 'b) prog \<Rightarrow> ('s, 'e, 'a) prog \<Rightarrow> ('s, 'e, 'a) prog" where
  "deferred c m = (\<lambda>s. case m s of (r, s') \<Rightarrow> (r, snd (c s')))"

definition lift :: "'e + 'a \<Rightarrow> ('s, 'e, 'a) prog" where
  "lift r = (\<lambda>s. (r, s))"

definition gets :: "('s \<Rightarrow> 'a) \<Rightarrow> ('s, 'e, 'a) prog" where
  "gets f = (\<lambda>s. (Inr (f s), s))"

definition modify :: "('s \<Rightarrow> 's) \<Rightarrow> ('s, 'e, unit) prog" where
  "modify f = (\<lambda>s. (Inr (), f s))"

definition guardE :: "bool \<Rightarrow> 'e \<Rightarrow> ('s, 'e, unit) prog" where
  "guardE b e = (if b then ret () else throw e)"

definition need :: "'e \<Rightarrow> 'a option \<Rightarrow> ('s, 'e, 'a) prog" where
  "need e x = (case x of None \<Rightarrow> throw e | Some y \<Rightarrow> ret y)"

fun forEach :: "'a list \<Rightarrow> ('a \<Rightarrow> ('s, 'e, unit) prog) \<Rightarrow> ('s, 'e, unit) prog" where
  "forEach [] f = ret ()"
| "forEach (x # xs) f = bnd (f x) (\<lambda>_. forEach xs f)"

lemmas prog_defs = ret_def throw_def bnd_def attempt_def onErr_def deferred_def lift_def
  gets_def modify_def guardE_def need_def

subsection \<open>Running a program\<close>

lemma run_ret [simp]: "ret x s = (Inr x, s)"
  by (simp add: ret_def)

lemma run_throw [simp]: "throw e s = (Inl e, s)"
  by (simp add: throw_def)

lemma run_lift [simp]: "lift r s = (r, s)"
  by (simp add: lift_def)

lemma run_gets [simp]: "gets f s = (Inr (f s), s)"
  by (simp add: gets_def)

lemma run_modify [simp]: "modify f s = (Inr (), f s)"
  by (simp add: modify_def)

lemma run_guardE: "guardE b e s = (if b then (Inr (), s) else (Inl e, s))"
  by (simp add: guardE_def)

lemma guardE_simps [simp]: "guardE True e = ret ()" "guardE False e = throw e"
  by (simp_all add: guardE_def)

lemma run_need_Some [simp]: "need e (Some x) = ret x"
  by (simp add: need_def)

lemma run_need_None [simp]: "need e None = throw e"
  by (simp add: need_def)

lemma bnd_ret [simp]: "bnd (ret x) k = k x"
  by (simp add: fun_eq_iff bnd_def ret_def)

lemma bnd_throw [simp]: "bnd (throw e) k = throw e"
  by (simp add: fun_eq_iff bnd_def throw_def)

lemma run_bnd_Inr [simp]: "m s = (Inr x, s') \<Longrightarrow> bnd m k s = k x s'"
  by (simp add: bnd_def)

lemma run_bnd_Inl [simp]: "m s = (Inl e, s') \<Longrightarrow> bnd m k s = (Inl e, s')"
  by (simp add: bnd_def)

lemma run_attempt: "attempt m s = (Inr (fst (m s)), snd (m s))"
  by (simp add: attempt_def split: prod.splits)

lemma attempt_eq [simp]: "attempt m s = (Inr r, t) \<longleftrightarrow> m s = (r, t)"
  by (auto simp: run_attempt prod_eq_iff)

lemma attempt_Inl [simp]: "attempt m s \<noteq> (Inl e, t)"
  by (simp add: run_attempt)

lemma snd_attempt [simp]: "snd (attempt m s) = snd (m s)"
  by (simp add: run_attempt)

lemma run_deferred [simp]: "deferred c m s = (fst (m s), snd (c (snd (m s))))"
  by (simp add: deferred_def split: prod.splits)

lemma run_onErr: "onErr f m s = (map_sum f id (fst (m s)), snd (m s))"
  by (auto simp: onErr_def split: prod.splits sum.splits)

lemma snd_onErr [simp]: "snd (onErr f m s) = snd (m s)"
  by (simp add: run_onErr)

lemma onErr_Inr [simp]: "onErr f m s = (Inr x, s') \<longleftrightarrow> m s = (Inr x, s')"
  by (auto simp: onErr_def split: prod.splits sum.splits)

subsection \<open>What an outcome says about the parts\<close>

lemma bnd_InrE [elim!, prog_elims]:
  assumes "bnd m k s = (Inr y, t)"
  obtains x s' where "m s = (Inr x, s')" "k x s' = (Inr y, t)"
  using assms by (auto simp: bnd_def split: prod.splits sum.splits)

lemma bnd_InlE [prog_elims]:
  assumes "bnd m k s = (Inl e, t)"
  obtains "m s = (Inl e, t)" | x s' where "m s = (Inr x, s')" "k x s' = (Inl e, t)"
  using assms by (auto simp: bnd_def split: prod.splits sum.splits)

lemma bnd_attemptE [elim!]:
  assumes "bnd (attempt m) k s = (y, t)"
  obtains r s' where "m s = (r, s')" "k r s' = (y, t)"
  using assms by (auto simp: bnd_def attempt_def split: prod.splits)

lemma guardE_Inr [simp]: "guardE b e s = (Inr u, t) \<longleftrightarrow> b \<and> t = s"
  by (auto simp: run_guardE)

lemma guardE_Inl [simp]: "guardE b e s = (Inl x, t) \<longleftrightarrow> \<not> b \<and> x = e \<and> t = s"
  by (auto simp: run_guardE)

lemma need_Inr [simp]: "need e x s = (Inr y, t) \<longleftrightarrow> x = Some y \<and> t = s"
  by (cases x) auto

lemma lift_Inr [simp]: "lift r s = (Inr x, t) \<longleftrightarrow> r = Inr x \<and> t = s"
  by auto

lemma forEach_append: "forEach (xs @ ys) f = bnd (forEach xs f) (\<lambda>_. forEach ys f)"
  by (induction xs) (auto simp: fun_eq_iff bnd_def ret_def split: prod.splits sum.splits)

section \<open>Guarantees\<close>

text \<open>
  \<open>guar R m\<close>: every run of \<open>m\<close>, whatever it returns, ends in a state \<open>R\<close>-related to the state it
  started in. For a reflexive and transitive \<open>R\<close> (\<open>preord\<close>) it composes along a program. A frame
  fact is the instance where \<open>R\<close> says that an observation is unchanged (\<open>same f\<close>).
\<close>

definition guar :: "('s \<Rightarrow> 's \<Rightarrow> bool) \<Rightarrow> ('s, 'e, 'a) prog \<Rightarrow> bool" where
  "guar R m \<longleftrightarrow> (\<forall>s. R s (snd (m s)))"

definition preord :: "('s \<Rightarrow> 's \<Rightarrow> bool) \<Rightarrow> bool" where
  "preord R \<longleftrightarrow> reflp R \<and> transp R"

definition same :: "('s \<Rightarrow> 'a) \<Rightarrow> 's \<Rightarrow> 's \<Rightarrow> bool" where
  "same f s t \<longleftrightarrow> f t = f s"

definition keepsP :: "('s \<Rightarrow> bool) \<Rightarrow> 's \<Rightarrow> 's \<Rightarrow> bool" where
  "keepsP P s t \<longleftrightarrow> (P s \<longrightarrow> P t)"

lemma preord_same [simp, intro]: "preord (same f)"
  by (auto simp: preord_def same_def reflp_def transp_def)

lemma preord_keepsP [simp, intro]: "preord (keepsP P)"
  by (auto simp: preord_def keepsP_def reflp_def transp_def)

lemma preord_refl: "preord R \<Longrightarrow> R s s"
  by (simp add: preord_def reflp_def)

lemma preord_trans: "preord R \<Longrightarrow> R s t \<Longrightarrow> R t u \<Longrightarrow> R s u"
  by (auto simp: preord_def transp_def)

lemma guarI: "(\<And>s. R s (snd (m s))) \<Longrightarrow> guar R m"
  by (simp add: guar_def)

lemma guarD: "guar R m \<Longrightarrow> m s = (r, t) \<Longrightarrow> R s t"
  by (auto simp: guar_def dest: spec [of _ s])

lemma guar_sameD: "guar (same f) m \<Longrightarrow> m s = (r, t) \<Longrightarrow> f t = f s"
  by (drule (1) guarD) (simp add: same_def)

lemma guar_keepsD: "guar (keepsP P) m \<Longrightarrow> m s = (r, t) \<Longrightarrow> P s \<Longrightarrow> P t"
  by (drule (1) guarD) (simp add: keepsP_def)

lemma guar_mono: "guar R m \<Longrightarrow> (\<And>s t. R s t \<Longrightarrow> R' s t) \<Longrightarrow> guar R' m"
  by (simp add: guar_def)

lemma guar_ret [guar_intros]: "preord R \<Longrightarrow> guar R (ret x)"
  by (simp add: guar_def preord_refl)

lemma guar_throw [guar_intros]: "preord R \<Longrightarrow> guar R (throw e)"
  by (simp add: guar_def preord_refl)

lemma guar_lift [guar_intros]: "preord R \<Longrightarrow> guar R (lift r)"
  by (simp add: guar_def preord_refl)

lemma guar_gets [guar_intros]: "preord R \<Longrightarrow> guar R (gets f)"
  by (simp add: guar_def preord_refl)

lemma guar_need [guar_intros]: "preord R \<Longrightarrow> guar R (need e x)"
  by (cases x) (simp_all add: guar_def preord_refl)

lemma guar_guardE [guar_intros]: "preord R \<Longrightarrow> guar R (guardE b e)"
  by (simp add: guar_def preord_refl run_guardE)

lemma guar_bnd [guar_intros]:
  assumes R: "preord R" and m: "guar R m" and k: "\<And>x. guar R (k x)"
  shows "guar R (bnd m k)"
proof (rule guarI)
  fix s
  obtain r s' where ms: "m s = (r, s')" by (cases "m s")
  with m have 1: "R s s'" by (auto dest: guarD)
  show "R s (snd (bnd m k s))"
  proof (cases r)
    case (Inl e)
    with ms 1 show ?thesis by simp
  next
    case (Inr x)
    from k have "R s' (snd (k x s'))" by (simp add: guar_def)
    with R 1 have "R s (snd (k x s'))" by (rule preord_trans)
    with ms Inr show ?thesis by simp
  qed
qed

text \<open>The same when the rest needs to know what the first part can return.\<close>

lemma guar_bnd_result:
  assumes R: "preord R" and m: "guar R m" and k: "\<And>x s s'. m s = (Inr x, s') \<Longrightarrow> guar R (k x)"
  shows "guar R (bnd m k)"
proof (rule guarI)
  fix s
  obtain r s' where ms: "m s = (r, s')" by (cases "m s")
  with m have 1: "R s s'" by (auto dest: guarD)
  show "R s (snd (bnd m k s))"
  proof (cases r)
    case (Inl e)
    with ms 1 show ?thesis by simp
  next
    case (Inr x)
    with k ms have "R s' (snd (k x s'))" by (auto simp: guar_def)
    with R 1 have "R s (snd (k x s'))" by (rule preord_trans)
    with ms Inr show ?thesis by simp
  qed
qed

lemma guar_attempt [guar_intros]: "guar R m \<Longrightarrow> guar R (attempt m)"
  by (simp add: guar_def run_attempt)

lemma guar_onErr [guar_intros]: "guar R m \<Longrightarrow> guar R (onErr f m)"
  by (simp add: guar_def)

lemma guar_deferred [guar_intros]:
  assumes "preord R" "guar R c" "guar R m"
  shows "guar R (deferred c m)"
  using assms by (auto simp: guar_def intro: preord_trans)

lemma guar_if [guar_intros]:
  "(b \<Longrightarrow> guar R m) \<Longrightarrow> (\<not> b \<Longrightarrow> guar R n) \<Longrightarrow> guar R (if b then m else n)"
  by simp

lemma guar_case_option [guar_intros]:
  "(x = None \<Longrightarrow> guar R m) \<Longrightarrow> (\<And>y. x = Some y \<Longrightarrow> guar R (f y)) \<Longrightarrow>
   guar R (case x of None \<Rightarrow> m | Some y \<Rightarrow> f y)"
  by (cases x) auto

lemma guar_case_sum [guar_intros]:
  "(\<And>e. x = Inl e \<Longrightarrow> guar R (f e)) \<Longrightarrow> (\<And>y. x = Inr y \<Longrightarrow> guar R (g y)) \<Longrightarrow>
   guar R (case x of Inl e \<Rightarrow> f e | Inr y \<Rightarrow> g y)"
  by (cases x) auto

lemma guar_case_prod [guar_intros]:
  "(\<And>a b. x = (a, b) \<Longrightarrow> guar R (f a b)) \<Longrightarrow> guar R (case x of (a, b) \<Rightarrow> f a b)"
  by (cases x) auto

lemma guar_Let [guar_intros]: "guar R (f x) \<Longrightarrow> guar R (let y = x in f y)"
  by simp

lemma guar_forEach [guar_intros]:
  "preord R \<Longrightarrow> (\<And>x. guar R (f x)) \<Longrightarrow> guar R (forEach xs f)"
  by (induction xs) (simp_all add: guar_ret guar_bnd)

text \<open>\<open>guarF R m\<close>: every run of \<open>m\<close> that fails ends in a state \<open>R\<close>-related to the state it started in.
  What comes before the last step must keep \<open>R\<close> in any case.\<close>

definition guarF :: "('s \<Rightarrow> 's \<Rightarrow> bool) \<Rightarrow> ('s, 'e, 'a) prog \<Rightarrow> bool" where
  "guarF R m \<longleftrightarrow> (\<forall>s e t. m s = (Inl e, t) \<longrightarrow> R s t)"

lemma guarFD: "guarF R m \<Longrightarrow> m s = (Inl e, t) \<Longrightarrow> R s t"
  by (simp add: guarF_def)

lemma guarF_guar: "guar R m \<Longrightarrow> guarF R m"
  by (auto simp: guarF_def dest: guarD)

lemma guarF_ret [fail_intros]: "guarF R (ret x)"
  by (simp add: guarF_def)

lemma guarF_throw [fail_intros]: "preord R \<Longrightarrow> guarF R (throw e)"
  by (simp add: guarF_guar guar_throw)

lemma guarF_bnd [fail_intros]:
  assumes "preord R" "guar R m" "\<And>x. guarF R (k x)"
  shows "guarF R (bnd m k)"
  unfolding guarF_def
proof (intro allI impI)
  fix s e t
  assume "bnd m k s = (Inl e, t)"
  then show "R s t"
  proof (cases rule: bnd_InlE)
    case 1
    with assms(2) show ?thesis by (rule guarD)
  next
    case (2 x s')
    with assms(2) have "R s s'" by (auto dest: guarD)
    moreover from 2 assms(3) have "R s' t" by (auto dest: guarFD)
    ultimately show ?thesis by (rule preord_trans [OF assms(1)])
  qed
qed

lemma guarF_if [fail_intros]:
  "(b \<Longrightarrow> guarF R m) \<Longrightarrow> (\<not> b \<Longrightarrow> guarF R n) \<Longrightarrow> guarF R (if b then m else n)"
  by simp

lemma guarF_case_option [fail_intros]:
  "(x = None \<Longrightarrow> guarF R m) \<Longrightarrow> (\<And>y. x = Some y \<Longrightarrow> guarF R (f y)) \<Longrightarrow>
   guarF R (case x of None \<Rightarrow> m | Some y \<Rightarrow> f y)"
  by (cases x) auto

lemma guarF_case_sum [fail_intros]:
  "(\<And>e. x = Inl e \<Longrightarrow> guarF R (f e)) \<Longrightarrow> (\<And>y. x = Inr y \<Longrightarrow> guarF R (g y)) \<Longrightarrow>
   guarF R (case x of Inl e \<Rightarrow> f e | Inr y \<Rightarrow> g y)"
  by (cases x) auto

lemma guarF_onErr [fail_intros]: "guarF R m \<Longrightarrow> guarF R (onErr f m)"
  by (auto simp: guarF_def onErr_def split: prod.splits sum.splits)

lemma guarF_deferred [fail_intros]:
  assumes "preord R" "guar R c" "guarF R m"
  shows "guarF R (deferred c m)"
  unfolding guarF_def
proof (intro allI impI)
  fix s e t
  assume run: "deferred c m s = (Inl e, t)"
  obtain r s1 where m: "m s = (r, s1)" by (cases "m s")
  with run have r: "r = Inl e" and t: "t = snd (c s1)" by simp_all
  from r m assms(3) have "R s s1" by (auto dest: guarFD)
  moreover have "R s1 t" using assms(2) t by (simp add: guar_def)
  ultimately show "R s t" by (rule preord_trans [OF assms(1)])
qed

section \<open>Lists\<close>

lemma find_SomeD: "find P xs = Some x \<Longrightarrow> x \<in> set xs \<and> P x"
  by (induction xs) (auto split: if_splits)

lemma filter_map_key_absent: "k \<notin> f ` set xs \<Longrightarrow> filter (\<lambda>x. f x \<noteq> k) xs = xs"
  by (induction xs) auto

end
