(* ===== verification/GoStrings.thy ===== *)
theory GoStrings
  imports Prelude
begin

text \<open>
  What the program uses of Go's \<^verbatim>\<open>strings\<close>, \<^verbatim>\<open>math/big\<close> and \<^verbatim>\<open>path/filepath\<close> packages. A Go string is
  a sequence of bytes, so it is a \<open>string\<close> (a list of 8-bit characters); a byte slice is the same
  type. \<open>TrimSpace\<close> works on the UTF-8 encodings of the white space runes, as the library does.
  \<open>ToLower\<close> is exact on ASCII text; the Unicode case table, which only a string with a byte above
  127 reaches, is the argument \<open>uni\<close>.
\<close>

type_synonym bytes = string

section \<open>TrimSpace\<close>

definition space_encodings :: "string list" where
  "space_encodings =
     [[CHR 0x09], [CHR 0x0A], [CHR 0x0B], [CHR 0x0C], [CHR 0x0D], [CHR 0x20],
      [CHR 0xC2, CHR 0x85], [CHR 0xC2, CHR 0xA0], [CHR 0xE1, CHR 0x9A, CHR 0x80]]
     @ map (\<lambda>b. [CHR 0xE2, CHR 0x80, b])
         [CHR 0x80, CHR 0x81, CHR 0x82, CHR 0x83, CHR 0x84, CHR 0x85, CHR 0x86, CHR 0x87,
          CHR 0x88, CHR 0x89, CHR 0x8A, CHR 0xA8, CHR 0xA9, CHR 0xAF]
     @ [[CHR 0xE2, CHR 0x81, CHR 0x9F], [CHR 0xE3, CHR 0x80, CHR 0x80]]"

fun startsWith :: "string \<Rightarrow> string \<Rightarrow> bool" where
  "startsWith [] s = True"
| "startsWith (p # ps) [] = False"
| "startsWith (p # ps) (c # s) = (p = c \<and> startsWith ps s)"

definition chopOne :: "string list \<Rightarrow> string \<Rightarrow> string option" where
  "chopOne encs s = map_option (\<lambda>p. drop (length p) s) (find (\<lambda>p. p \<noteq> [] \<and> startsWith p s) encs)"

lemma startsWith_length: "startsWith p s \<Longrightarrow> length p \<le> length s"
  by (induction p s rule: startsWith.induct) auto

lemma chopOne_shorter: "chopOne encs s = Some t \<Longrightarrow> length t < length s"
  by (auto simp: chopOne_def dest!: find_SomeD startsWith_length)
     (metis diff_less length_greater_0_conv less_le_trans)

function trimLeft :: "string list \<Rightarrow> string \<Rightarrow> string" where
  "trimLeft encs s = (case chopOne encs s of None \<Rightarrow> s | Some t \<Rightarrow> trimLeft encs t)"
  by pat_completeness auto
termination
  by (relation "measure (\<lambda>(encs, s). length s)") (auto simp: chopOne_shorter)

declare trimLeft.simps [simp del]

definition TrimSpace :: "string \<Rightarrow> string" where
  "TrimSpace s = rev (trimLeft (map rev space_encodings) (rev (trimLeft space_encodings s)))"

definition plainChar :: "char \<Rightarrow> bool" where
  "plainChar c \<longleftrightarrow> 0x20 < (of_char c :: nat) \<and> (of_char c :: nat) < 0x80"

lemma space_encodings_heads:
  "list_all (\<lambda>p. \<not> plainChar (hd p)) space_encodings"
  "list_all (\<lambda>p. \<not> plainChar (hd p)) (map rev space_encodings)"
  by code_simp+

lemma chopOne_plain:
  assumes c: "plainChar c" and encs: "encs = space_encodings \<or> encs = map rev space_encodings"
  shows "chopOne encs (c # s) = None"
proof -
  have "\<not> startsWith p (c # s)" if "p \<in> set encs" "p \<noteq> []" for p
  proof -
    have "list_all (\<lambda>p. \<not> plainChar (hd p)) encs" using encs space_encodings_heads by auto
    with that(1) have "\<not> plainChar (hd p)" by (simp add: list_all_iff)
    with c that(2) show ?thesis by (cases p) auto
  qed
  then show ?thesis by (auto simp: chopOne_def find_None_iff)
qed

lemma trimLeft_plain:
  assumes "plainChar c" and "encs = space_encodings \<or> encs = map rev space_encodings"
  shows "trimLeft encs (c # s) = c # s"
  using assms by (simp add: trimLeft.simps chopOne_plain)

lemma trimLeft_Nil [simp]: "trimLeft encs [] = []"
proof -
  have "chopOne encs [] = None"
    using chopOne_shorter [of encs "[]"] by (cases "chopOne encs []") auto
  then show ?thesis by (simp add: trimLeft.simps)
qed

lemma trimLeft_fixed: "chopOne encs (trimLeft encs s) = None"
proof (induction encs s rule: trimLeft.induct)
  case (1 encs s)
  then show ?case by (cases "chopOne encs s") (simp_all add: trimLeft.simps [of encs s])
qed

lemma TrimSpace_Nil [simp]: "TrimSpace [] = []"
  by (simp add: TrimSpace_def)

lemma TrimSpace_plain_ends:
  assumes "s \<noteq> []" "plainChar (hd s)" "plainChar (last s)"
  shows "TrimSpace s = s"
proof -
  obtain c t where s: "s = c # t" using assms by (cases s) auto
  have left: "trimLeft space_encodings s = s"
    using assms s by (simp add: trimLeft_plain)
  obtain d u where r: "rev s = d # u" using assms by (cases "rev s") auto
  have "d = last s" using r by (metis hd_rev list.sel(1))
  then have "trimLeft (map rev space_encodings) (rev s) = rev s"
    unfolding r using assms(3) by (simp add: trimLeft_plain)
  then show ?thesis by (simp add: TrimSpace_def left)
qed

lemma TrimSpace_plain: "(\<And>c. c \<in> set s \<Longrightarrow> plainChar c) \<Longrightarrow> TrimSpace s = s"
  by (cases "s = []") (auto intro!: TrimSpace_plain_ends)

section \<open>ToLower\<close>

definition isASCII :: "string \<Rightarrow> bool" where
  "isASCII s \<longleftrightarrow> (\<forall>c \<in> set s. (of_char c :: nat) < 0x80)"

definition lowerChar :: "char \<Rightarrow> char" where
  "lowerChar c = (if (0x41 \<le> (of_char c :: nat) \<and> (of_char c :: nat) \<le> 0x5A)
                  then char_of ((of_char c :: nat) + 0x20) else c)"

definition ToLower :: "(string \<Rightarrow> string) \<Rightarrow> string \<Rightarrow> string" where
  "ToLower uni s = (if isASCII s then map lowerChar s else uni s)"

lemma lowerChar_idem [simp]: "lowerChar (lowerChar c) = lowerChar c"
  by (auto simp: lowerChar_def)

lemma of_char_lowerChar:
  "(of_char (lowerChar c) :: nat) =
     (if 0x41 \<le> (of_char c :: nat) \<and> (of_char c :: nat) \<le> 0x5A then of_char c + 0x20 else of_char c)"
  by (simp add: lowerChar_def)

lemma isASCII_map_lower [simp]: "isASCII s \<Longrightarrow> isASCII (map lowerChar s)"
  by (auto simp: isASCII_def of_char_lowerChar)

lemma isASCII_simps [simp]:
  "isASCII []" "isASCII (c # s) \<longleftrightarrow> (of_char c :: nat) < 0x80 \<and> isASCII s"
  "isASCII (s @ t) \<longleftrightarrow> isASCII s \<and> isASCII t"
  by (auto simp: isASCII_def)

lemma ToLower_ascii: "isASCII s \<Longrightarrow> ToLower uni s = map lowerChar s"
  by (simp add: ToLower_def)

lemma ToLower_idem: "isASCII s \<Longrightarrow> ToLower uni (ToLower uni s) = ToLower uni s"
  by (simp add: ToLower_def)

text \<open>Characters that every canonical spelling in the program is made of: ASCII, not a capital
  letter, not white space.\<close>

definition canonChar :: "char \<Rightarrow> bool" where
  "canonChar c \<longleftrightarrow> plainChar c \<and> \<not> (0x41 \<le> (of_char c :: nat) \<and> (of_char c :: nat) \<le> 0x5A)"

lemma canonChar_plain [simp]: "canonChar c \<Longrightarrow> plainChar c"
  by (simp add: canonChar_def)

lemma canonChar_lower [simp]: "canonChar c \<Longrightarrow> lowerChar c = c"
  by (auto simp: canonChar_def lowerChar_def)

lemma canon_ToLower: "(\<And>c. c \<in> set s \<Longrightarrow> canonChar c) \<Longrightarrow> ToLower uni s = s"
proof -
  assume c: "\<And>c. c \<in> set s \<Longrightarrow> canonChar c"
  then have "isASCII s" by (auto simp: isASCII_def canonChar_def plainChar_def)
  moreover have "map lowerChar s = s" using c by (simp add: map_idI)
  ultimately show ?thesis by (simp add: ToLower_def)
qed

lemma canon_TrimSpace: "(\<And>c. c \<in> set s \<Longrightarrow> canonChar c) \<Longrightarrow> TrimSpace s = s"
  by (rule TrimSpace_plain) simp

section \<open>Splitting, joining, prefixes\<close>

fun splitOn :: "char \<Rightarrow> string \<Rightarrow> string list" where
  "splitOn d [] = [[]]"
| "splitOn d (c # s) =
     (if c = d then [] # splitOn d s
      else (case splitOn d s of [] \<Rightarrow> [[c]] | w # ws \<Rightarrow> (c # w) # ws))"

fun joinWith :: "string \<Rightarrow> string list \<Rightarrow> string" where
  "joinWith sep [] = []"
| "joinWith sep [w] = w"
| "joinWith sep (w # ws) = w @ sep @ joinWith sep ws"

definition HasPrefix :: "string \<Rightarrow> string \<Rightarrow> bool" where
  "HasPrefix s p = startsWith p s"

definition TrimPrefix :: "string \<Rightarrow> string \<Rightarrow> string" where
  "TrimPrefix s p = (if startsWith p s then drop (length p) s else s)"

definition TrimCutset :: "char set \<Rightarrow> string \<Rightarrow> string" where
  "TrimCutset cs s = rev (dropWhile (\<lambda>c. c \<in> cs) (rev (dropWhile (\<lambda>c. c \<in> cs) s)))"

definition removeChar :: "char \<Rightarrow> string \<Rightarrow> string" where
  "removeChar d s = filter (\<lambda>c. c \<noteq> d) s"

lemma startsWith_append [simp]: "startsWith p (p @ s)"
  by (induction p) auto

lemma startsWith_iff: "startsWith p s \<longleftrightarrow> (\<exists>t. s = p @ t)"
  by (induction p s rule: startsWith.induct) auto

lemma TrimPrefix_append [simp]: "TrimPrefix (p @ s) p = s"
  by (simp add: TrimPrefix_def)

lemma splitOn_nonempty [simp]: "splitOn d s \<noteq> []"
  by (induction s) (auto split: list.splits)

lemma splitOn_no_sep: "w \<in> set (splitOn d s) \<Longrightarrow> d \<notin> set w"
proof (induction s arbitrary: w)
  case (Cons c s)
  obtain v vs where v: "splitOn d s = v # vs" by (cases "splitOn d s") auto
  with Cons show ?case by (auto split: if_splits)
qed simp

lemma joinWith_splitOn: "joinWith [d] (splitOn d s) = s"
proof (induction s)
  case (Cons c s)
  obtain w ws where w: "splitOn d s = w # ws" by (cases "splitOn d s") auto
  with Cons show ?case by (cases ws) auto
qed simp

lemma splitOn_absent: "d \<notin> set s \<Longrightarrow> splitOn d s = [s]"
  by (induction s) auto

lemma splitOn_append: "d \<notin> set w \<Longrightarrow> splitOn d (w @ d # s) = w # splitOn d s"
  by (induction w) auto

lemma set_joinWith: "set (joinWith sep ws) \<subseteq> set sep \<union> \<Union> (set ` set ws)"
  by (induction sep ws rule: joinWith.induct) auto

section \<open>Hexadecimal and decimal numbers\<close>

definition hexVal :: "char \<Rightarrow> nat option" where
  "hexVal c = (let n = of_char c in
     if 48 \<le> n \<and> n \<le> 57 then Some (n - 48)
     else if 97 \<le> n \<and> n \<le> 102 then Some (n - 87)
     else if 65 \<le> n \<and> n \<le> 70 then Some (n - 55)
     else None)"

definition hexChar :: "nat \<Rightarrow> char" where
  "hexChar n = char_of (if n < 10 then 48 + n else 87 + n)"

fun hexDigits :: "nat \<Rightarrow> string \<Rightarrow> nat option" where
  "hexDigits acc [] = Some acc"
| "hexDigits acc (c # s) =
     (case hexVal c of None \<Rightarrow> None | Some d \<Rightarrow> hexDigits (16 * acc + d) s)"

text \<open>\<^verbatim>\<open>new(big.Int).SetString(s, 16)\<close>: an optional sign, then at least one digit, nothing else.\<close>

definition bigSetString16 :: "string \<Rightarrow> int option" where
  "bigSetString16 s =
     (let body = (case s of c # t \<Rightarrow> if c = CHR ''-'' \<or> c = CHR ''+'' then t else s | [] \<Rightarrow> []);
          neg = (case s of c # t \<Rightarrow> c = CHR ''-'' | [] \<Rightarrow> False)
      in if body = [] then None
         else map_option (\<lambda>n. if neg then - int n else int n) (hexDigits 0 body))"

fun hexOfNat :: "nat \<Rightarrow> string" where
  "hexOfNat n = (if n < 16 then [hexChar n] else hexOfNat (n div 16) @ [hexChar (n mod 16)])"

declare hexOfNat.simps [simp del]

text \<open>\<^verbatim>\<open>n.Text(16)\<close>\<close>

definition bigText16 :: "int \<Rightarrow> string" where
  "bigText16 n = (if n < 0 then CHR ''-'' # hexOfNat (nat (- n)) else hexOfNat (nat n))"

fun decOfNat :: "nat \<Rightarrow> string" where
  "decOfNat n = (if n < 10 then [char_of (48 + n)] else decOfNat (n div 10) @ [char_of (48 + n mod 10)])"

declare decOfNat.simps [simp del]

definition decOfInt :: "int \<Rightarrow> string" where
  "decOfInt n = (if n < 0 then CHR ''-'' # decOfNat (nat (- n)) else decOfNat (nat n))"

lemma hexVal_hexChar [simp]: "n < 16 \<Longrightarrow> hexVal (hexChar n) = Some n"
  by (simp add: hexVal_def hexChar_def Let_def)

lemma hexVal_bound: "hexVal c = Some d \<Longrightarrow> d < 16"
  by (auto simp: hexVal_def Let_def split: if_splits)

lemma hexVal_lower [simp]: "hexVal (lowerChar c) = hexVal c"
  by (auto simp: hexVal_def Let_def of_char_lowerChar)

lemma hexDigits_append:
  "hexDigits a (s @ t) = (case hexDigits a s of None \<Rightarrow> None | Some b \<Rightarrow> hexDigits b t)"
  by (induction s arbitrary: a) (auto split: option.splits)

lemma hexDigits_hexOfNat [simp]: "hexDigits 0 (hexOfNat n) = Some n"
proof (induction n rule: hexOfNat.induct)
  case (1 n)
  show ?case
  proof (cases "n < 16")
    case True
    then show ?thesis by (simp add: hexOfNat.simps [of n])
  next
    case False
    with 1 show ?thesis by (simp add: hexOfNat.simps [of n] hexDigits_append)
  qed
qed

lemma hexOfNat_nonempty [simp]: "hexOfNat n \<noteq> []"
  by (simp add: hexOfNat.simps [of n])

lemma hexDigits_head: "hexDigits a (c # s) \<noteq> None \<Longrightarrow> c \<noteq> CHR ''-'' \<and> c \<noteq> CHR ''+''"
  by (auto simp: hexVal_def)

lemma hexOfNat_head: "hd (hexOfNat n) \<noteq> CHR ''-'' \<and> hd (hexOfNat n) \<noteq> CHR ''+''"
  by (metis hexDigits_head hexDigits_hexOfNat hexOfNat_nonempty list.collapse option.distinct(1))

lemma bigSetString16_Text [simp]: "bigSetString16 (bigText16 n) = Some n"
proof (cases "n < 0")
  case True
  then show ?thesis by (simp add: bigSetString16_def bigText16_def)
next
  case False
  obtain c s where cs: "hexOfNat (nat n) = c # s" by (cases "hexOfNat (nat n)") auto
  with hexOfNat_head [of "nat n"] have "c \<noteq> CHR ''-''" "c \<noteq> CHR ''+''" by auto
  with False show ?thesis
    using hexDigits_hexOfNat [of "nat n"] by (simp add: bigSetString16_def bigText16_def cs)
qed

lemma bigText16_inj: "bigText16 m = bigText16 n \<longleftrightarrow> m = n"
  by (metis bigSetString16_Text option.inject)

lemma bigSetString16_lower: "bigSetString16 (map lowerChar s) = bigSetString16 s"
proof -
  have *: "hexDigits a (map lowerChar t) = hexDigits a t" for a t
    by (induction t arbitrary: a) (auto split: option.splits)
  have sign: "lowerChar c = CHR ''-'' \<longleftrightarrow> c = CHR ''-''" "lowerChar c = CHR ''+'' \<longleftrightarrow> c = CHR ''+''" for c
    by (auto simp: lowerChar_def dest: arg_cong [of _ _ "of_char :: char \<Rightarrow> nat"])
  show ?thesis
    by (cases s) (auto simp: bigSetString16_def Let_def sign * simp del: hexDigits.simps
        simp add: * [of _ "_ # _", simplified list.map])
qed

lemma hexChar_canon: "n < 16 \<Longrightarrow> canonChar (hexChar n)"
  by (auto simp: hexChar_def canonChar_def plainChar_def)

lemma hexOfNat_chars: "c \<in> set (hexOfNat n) \<Longrightarrow> \<exists>d < 16. c = hexChar d"
proof (induction n rule: hexOfNat.induct)
  case (1 n)
  show ?case
  proof (cases "n < 16")
    case True
    with 1 show ?thesis by (auto simp: hexOfNat.simps [of n])
  next
    case False
    with 1 have "c \<in> set (hexOfNat (n div 16)) \<or> c = hexChar (n mod 16)"
      by (auto simp: hexOfNat.simps [of n])
    with 1(1) False show ?thesis by (metis mod_less_divisor zero_less_numeral)
  qed
qed

lemma hexOfNat_canon: "c \<in> set (hexOfNat n) \<Longrightarrow> canonChar c"
  using hexOfNat_chars hexChar_canon by blast

lemma decOfNat_chars: "c \<in> set (decOfNat n) \<Longrightarrow> \<exists>d < 10. c = char_of (48 + d :: nat)"
proof (induction n rule: decOfNat.induct)
  case (1 n)
  show ?case
  proof (cases "n < 10")
    case True
    with 1 show ?thesis by (auto simp: decOfNat.simps [of n])
  next
    case False
    with 1 have "c \<in> set (decOfNat (n div 10)) \<or> c = char_of (48 + n mod 10)"
      by (auto simp: decOfNat.simps [of n])
    with 1(1) False show ?thesis by (metis mod_less_divisor zero_less_numeral)
  qed
qed

lemma decOfNat_nonempty [simp]: "decOfNat n \<noteq> []"
  by (simp add: decOfNat.simps [of n])

end
