(* ===== verification/NetAddr.thy ===== *)
theory NetAddr
  imports GoStrings "HOL-Library.Word"
begin

unbundle bit_operations_syntax

text \<open>
  IP addresses, networks and \<^verbatim>\<open>host:port\<close> strings: what the program uses of Go's \<^verbatim>\<open>net\<close> package
  (whose parser is \<^verbatim>\<open>net/netip\<close>), and the helpers \<open>host\<close> and \<open>isLoopbackTarget\<close> built on it. An address
  (\<^verbatim>\<open>net.IP\<close>) is its list of bytes, 4 or 16 long; a parsed address is always 16 bytes long.
  The parser is the library's loop: at most eight groups, each of one to four hexadecimal digits, an
  optional \<^verbatim>\<open>::\<close>, an optional dotted tail, and nothing left over.

  Shown here: printing an address and parsing the result gives the address back (so two spellings of
  one address have one canonical form), a canonical spelling is a fixed point, and membership of a
  network is agreement on the network's leading bits.
\<close>

type_synonym byte = "8 word"
type_synonym ip = "byte list"

section \<open>Parsing\<close>

definition decVal :: "char \<Rightarrow> nat option" where
  "decVal c = (let n = of_char c in if 48 \<le> n \<and> n \<le> 57 then Some (n - 48) else None)"

text \<open>The loop of \<^verbatim>\<open>parseIPv4Fields\<close>: the octets so far, the value and number of digits of the current
  octet, and whether the previous character was a dot (or there was none).\<close>

fun v4loop :: "byte list \<Rightarrow> nat \<Rightarrow> nat \<Rightarrow> bool \<Rightarrow> string \<Rightarrow> byte list option" where
  "v4loop fields val digLen dot [] =
     (if length fields < 3 then None else Some (fields @ [of_nat val]))"
| "v4loop fields val digLen dot (c # s) =
     (case decVal c of
        Some d \<Rightarrow>
          if digLen = 1 \<and> val = 0 then None
          else if 255 < val * 10 + d then None
          else v4loop fields (val * 10 + d) (digLen + 1) False s
      | None \<Rightarrow>
          if c = CHR ''.'' then
            (if dot \<or> s = [] then None
             else if length fields = 3 then None
             else v4loop (fields @ [of_nat val]) 0 0 True s)
          else None)"

definition parseIPv4 :: "string \<Rightarrow> byte list option" where
  "parseIPv4 s = v4loop [] 0 0 True s"

text \<open>One hexadecimal group: its value, its number of digits and the rest; \<open>None\<close> for more than four
  digits.\<close>

fun hexGroup :: "nat \<Rightarrow> nat \<Rightarrow> string \<Rightarrow> (nat \<times> nat \<times> string) option" where
  "hexGroup acc off [] = Some (acc, off, [])"
| "hexGroup acc off (c # s) =
     (case hexVal c of
        None \<Rightarrow> Some (acc, off, c # s)
      | Some d \<Rightarrow> if off > 3 then None else if acc * 16 + d > 65535 then None
                  else hexGroup (acc * 16 + d) (off + 1) s)"

text \<open>The loop of \<^verbatim>\<open>parseIPv6\<close> with \<open>n\<close> groups still allowed: the bytes so far and the position of the
  ellipsis. It ends with the unread rest, the bytes and the ellipsis.\<close>

fun v6loop :: "nat \<Rightarrow> string \<Rightarrow> byte list \<Rightarrow> nat option \<Rightarrow> (string \<times> byte list \<times> nat option) option" where
  "v6loop 0 s bs ell = Some (s, bs, ell)"
| "v6loop (Suc n) s bs ell =
     (case hexGroup 0 0 s of
        None \<Rightarrow> None
      | Some (acc, off, rest) \<Rightarrow>
          if off = 0 then None
          else if rest \<noteq> [] \<and> hd rest = CHR ''.'' then
            (if ell = None \<and> length bs \<noteq> 12 then None
             else if length bs + 4 > 16 then None
             else (case parseIPv4 s of
                     None \<Rightarrow> None
                   | Some fs \<Rightarrow> Some ([], bs @ fs, ell)))
          else
            let bs' = bs @ [of_nat (acc div 256), of_nat acc] in
            (case rest of
               [] \<Rightarrow> Some ([], bs', ell)
             | c # t \<Rightarrow>
                 if c \<noteq> CHR '':'' then None
                 else if t = [] then None
                 else if hd t = CHR '':'' then
                   (if ell \<noteq> None then None
                    else if tl t = [] then Some ([], bs', Some (length bs'))
                    else v6loop n (tl t) bs' (Some (length bs')))
                 else v6loop n t bs' ell))"

definition v6finish :: "string \<times> byte list \<times> nat option \<Rightarrow> byte list option" where
  "v6finish r = (case r of (s, bs, ell) \<Rightarrow>
     if s \<noteq> [] then None
     else if length bs < 16 then
       (case ell of None \<Rightarrow> None
        | Some e \<Rightarrow> Some (take e bs @ replicate (16 - length bs) 0 @ drop e bs))
     else (case ell of None \<Rightarrow> Some bs | Some e \<Rightarrow> None))"

text \<open>\<^verbatim>\<open>parseIPv6\<close> on a string without a zone.\<close>

definition parseIPv6 :: "string \<Rightarrow> byte list option" where
  "parseIPv6 s =
     (if startsWith ''::'' s then
        (if length s = 2 then Some (replicate 16 0)
         else Option.bind (v6loop 8 (drop 2 s) [] (Some 0)) v6finish)
      else Option.bind (v6loop 8 s [] None) v6finish)"

definition v4InV6Prefix :: "byte list" where
  "v4InV6Prefix = replicate 10 0 @ [0xFF, 0xFF]"

text \<open>\<^verbatim>\<open>netip.ParseAddr\<close>: the first dot, colon or percent sign decides. The result is the address's
  bytes (4 or 16). A zone is refused by every caller, so a string with a percent sign parses to
  nothing.\<close>

definition parseAddr :: "string \<Rightarrow> byte list option" where
  "parseAddr s =
     (case find (\<lambda>c. c = CHR ''.'' \<or> c = CHR '':'' \<or> c = CHR ''%'') s of
        None \<Rightarrow> None
      | Some c \<Rightarrow> if c = CHR ''.'' then parseIPv4 s
                  else if c = CHR '':'' then (if CHR ''%'' \<in> set s then None else parseIPv6 s)
                  else None)"

definition as16 :: "byte list \<Rightarrow> ip" where
  "as16 bs = (if length bs = 4 then v4InV6Prefix @ bs else bs)"

definition ParseIP :: "string \<Rightarrow> ip option" where
  "ParseIP s = map_option as16 (parseAddr s)"

section \<open>Printing\<close>

definition To4 :: "ip \<Rightarrow> byte list option" where
  "To4 ip = (if length ip = 4 then Some ip
             else if length ip = 16 \<and> take 12 ip = v4InV6Prefix then Some (drop 12 ip)
             else None)"

definition v4String :: "byte list \<Rightarrow> string" where
  "v4String bs = joinWith ''.'' (map (\<lambda>b. decOfNat (unat b)) bs)"

fun groups :: "byte list \<Rightarrow> nat list" where
  "groups (a # b # bs) = (256 * unat a + unat b) # groups bs"
| "groups _ = []"

text \<open>The zero run that is abbreviated: the first of the longest runs of at least two zero groups.
  \<open>zeroRun i gs best\<close> is the loop at group \<open>i\<close>, with \<open>gs\<close> the groups from there.\<close>

fun zeroRun :: "nat \<Rightarrow> nat list \<Rightarrow> (nat \<times> nat) option \<Rightarrow> (nat \<times> nat) option" where
  "zeroRun i [] best = best"
| "zeroRun i (g # gs) best =
     (let l = length (takeWhile (\<lambda>x. x = 0) (g # gs));
          cur = (case best of None \<Rightarrow> 0 | Some (a, b) \<Rightarrow> b - a)
      in zeroRun (Suc i) gs (if 2 \<le> l \<and> cur < l then Some (i, i + l) else best))"

text \<open>The printing loop: all groups joined by colons, or the groups before and after the run with the
  double colon between them.\<close>

definition v6String :: "byte list \<Rightarrow> string" where
  "v6String bs =
     (let gs = groups bs in
      case zeroRun 0 gs None of
        None \<Rightarrow> joinWith '':'' (map hexOfNat gs)
      | Some (a, b) \<Rightarrow> joinWith '':'' (map hexOfNat (take a gs)) @ ''::''
                       @ joinWith '':'' (map hexOfNat (drop b gs)))"

text \<open>\<^verbatim>\<open>IP.String\<close>\<close>

definition hexByte :: "byte \<Rightarrow> string" where
  "hexByte b = [hexChar (unat b div 16), hexChar (unat b mod 16)]"

definition ipString :: "ip \<Rightarrow> string" where
  "ipString ip =
     (if ip = [] then ''<nil>''
      else if length ip \<noteq> 4 \<and> length ip \<noteq> 16 then ''?'' @ concat (map hexByte ip)
      else (case To4 ip of Some p4 \<Rightarrow> v4String p4 | None \<Rightarrow> v6String ip))"

section \<open>Predicates on addresses\<close>

definition ipEqual :: "ip \<Rightarrow> ip \<Rightarrow> bool" where
  "ipEqual a b =
     (if length a = length b then a = b
      else if length a = 4 \<and> length b = 16 then take 12 b = v4InV6Prefix \<and> a = drop 12 b
      else if length a = 16 \<and> length b = 4 then take 12 a = v4InV6Prefix \<and> drop 12 a = b
      else False)"

definition ip6loopback :: ip where
  "ip6loopback = replicate 15 0 @ [1]"

definition IsLoopback :: "ip \<Rightarrow> bool" where
  "IsLoopback ip = (case To4 ip of Some p4 \<Rightarrow> hd p4 = 127 | None \<Rightarrow> ipEqual ip ip6loopback)"

definition IsUnspecified :: "ip \<Rightarrow> bool" where
  "IsUnspecified ip \<longleftrightarrow> ipEqual ip (v4InV6Prefix @ [0, 0, 0, 0]) \<or> ipEqual ip (replicate 16 0)"

definition IsMulticast :: "ip \<Rightarrow> bool" where
  "IsMulticast ip = (case To4 ip of
      Some p4 \<Rightarrow> hd p4 AND 0xF0 = 0xE0
    | None \<Rightarrow> length ip = 16 \<and> hd ip = 0xFF)"

section \<open>Networks\<close>

record ipnet =
  netIP :: ip
  netMask :: "byte list"

text \<open>\<^verbatim>\<open>dtoi\<close>: a decimal number below \<^verbatim>\<open>0xFFFFFF\<close>, at least one digit, the whole string.\<close>

fun dtoiLoop :: "nat \<Rightarrow> string \<Rightarrow> nat option" where
  "dtoiLoop n [] = Some n"
| "dtoiLoop n (c # s) =
     (case decVal c of
        None \<Rightarrow> None
      | Some d \<Rightarrow> if n * 10 + d \<ge> 0xFFFFFF then None else dtoiLoop (n * 10 + d) s)"

definition dtoi :: "string \<Rightarrow> nat option" where
  "dtoi s = (if s = [] then None else dtoiLoop 0 s)"

text \<open>\<^verbatim>\<open>CIDRMask\<close>: \<open>ones\<close> leading one bits in a mask of \<open>len\<close> bytes.\<close>

fun CIDRMask :: "nat \<Rightarrow> nat \<Rightarrow> byte list" where
  "CIDRMask ones 0 = []"
| "CIDRMask ones (Suc len) =
     (if ones \<ge> 8 then 0xFF # CIDRMask (ones - 8) len
      else (NOT (drop_bit ones 0xFF)) # CIDRMask 0 len)"

definition ipMask :: "ip \<Rightarrow> byte list \<Rightarrow> ip" where
  "ipMask ip msk =
     (let msk2 = (if length msk = 16 \<and> length ip = 4 \<and> take 12 msk = replicate 12 0xFF
                   then drop 12 msk else msk);
          ip' = (if length msk2 = 4 \<and> length ip = 16 \<and> take 12 ip = v4InV6Prefix
                 then drop 12 ip else ip)
      in if length ip' \<noteq> length msk2 then [] else map2 (\<lambda>x m. x AND m) ip' msk2)"

definition ParseCIDR :: "string \<Rightarrow> ipnet option" where
  "ParseCIDR s =
     (if CHR ''/'' \<notin> set s then None
      else let addr = takeWhile (\<lambda>c. c \<noteq> CHR ''/'') s;
               msk = drop (Suc (length addr)) s
           in case parseAddr addr of
                None \<Rightarrow> None
              | Some a \<Rightarrow>
                  (case dtoi msk of
                     None \<Rightarrow> None
                   | Some n \<Rightarrow>
                       if n > 8 * length a then None
                       else let m = CIDRMask n (length a)
                            in Some \<lparr>netIP = ipMask (as16 a) m, netMask = m\<rparr>))"

definition networkNumberAndMask :: "ipnet \<Rightarrow> ip \<times> byte list" where
  "networkNumberAndMask n =
     (case To4 (netIP n) of
        Some p4 \<Rightarrow> (if length (netMask n) = 4 then (p4, netMask n)
                    else if length (netMask n) = 16 then (p4, drop 12 (netMask n))
                    else ([], []))
      | None \<Rightarrow> (if length (netIP n) = 16 \<and> length (netMask n) = 16
                 then (netIP n, netMask n) else ([], [])))"

definition netContains :: "ipnet \<Rightarrow> ip \<Rightarrow> bool" where
  "netContains n ip =
     (let (nn, m) = networkNumberAndMask n;
          x = (case To4 ip of Some p4 \<Rightarrow> p4 | None \<Rightarrow> ip)
      in length x = length nn \<and>
         map2 (\<lambda>a b. a AND b) nn m = map2 (\<lambda>a b. a AND b) x m)"

section \<open>Host and port\<close>

definition lastIndexOf :: "char \<Rightarrow> string \<Rightarrow> nat option" where
  "lastIndexOf c s = (if c \<in> set s
     then Some (length s - 1 - length (takeWhile (\<lambda>x. x \<noteq> c) (rev s))) else None)"

definition indexOf :: "char \<Rightarrow> string \<Rightarrow> nat option" where
  "indexOf c s = (if c \<in> set s then Some (length (takeWhile (\<lambda>x. x \<noteq> c) s)) else None)"

text \<open>\<^verbatim>\<open>net.SplitHostPort\<close>; every error of it is \<open>None\<close> (the callers only test for an error).\<close>

definition SplitHostPort :: "string \<Rightarrow> (string \<times> string) option" where
  "SplitHostPort hp =
     (case lastIndexOf CHR '':'' hp of
        None \<Rightarrow> None
      | Some i \<Rightarrow>
          if hd hp = CHR ''['' then
            (case indexOf CHR '']'' hp of
               None \<Rightarrow> None
             | Some e \<Rightarrow>
                 if e + 1 \<noteq> i then None
                 else if CHR ''['' \<in> set (drop 1 hp) \<or> CHR '']'' \<in> set (drop (e + 1) hp) then None
                 else Some (drop 1 (take e hp), drop (i + 1) hp))
          else if CHR '':'' \<in> set (take i hp) then None
          else if CHR ''['' \<in> set hp \<or> CHR '']'' \<in> set hp then None
          else Some (take i hp, drop (i + 1) hp))"

definition JoinHostPort :: "string \<Rightarrow> string \<Rightarrow> string" where
  "JoinHostPort h p = (if CHR '':'' \<in> set h then ''['' @ h @ '']:'' @ p else h @ '':'' @ p)"

text \<open>\<^verbatim>\<open>host\<close> of \<^verbatim>\<open>netutil.go\<close>.\<close>

definition host :: "string \<Rightarrow> string" where
  "host addr0 =
     (let addr = TrimSpace addr0 in
      if addr = '''' then addr
      else (case SplitHostPort addr of
              Some (h, _) \<Rightarrow> h
            | None \<Rightarrow> TrimCutset {CHR ''['', CHR '']''} addr))"

section \<open>Printing and parsing agree\<close>

subsection \<open>Dotted addresses\<close>

lemma unat_byte: "unat (x :: byte) < 256"
  using unsigned_less [of x] by simp

lemma decVal_digit [simp]: "d < 10 \<Longrightarrow> decVal (char_of (48 + d :: nat)) = Some d"
  by (simp add: decVal_def Let_def)

lemma v4loop_octet:
  assumes "n < 256"
  shows "v4loop fds 0 0 dot (decOfNat n @ rest) = v4loop fds n (length (decOfNat n)) False rest"
proof -
  consider "n < 10" | "10 \<le> n" "n < 100" | "100 \<le> n" by linarith
  then show ?thesis
  proof cases
    case 1
    then show ?thesis by (simp add: decOfNat.simps [of n])
  next
    case 2
    then have "decOfNat n = [char_of (48 + n div 10), char_of (48 + n mod 10)]"
      by (simp add: decOfNat.simps [of n] decOfNat.simps [of "n div 10"])
    moreover have "n div 10 < 10" "n div 10 \<noteq> 0" "n mod 10 < 10" using 2 by auto
    ultimately show ?thesis using 2 by (simp add: mult.commute)
  next
    case 3
    have lim: "\<not> n div 10 < 10" "n div 100 < 10" using 3 assms by auto
    have "decOfNat n = decOfNat (n div 10) @ [char_of (48 + n mod 10)]"
      using 3 by (simp add: decOfNat.simps [of n])
    moreover have "decOfNat (n div 10) = decOfNat (n div 100) @ [char_of (48 + n div 10 mod 10)]"
      using lim(1) div_mult2_eq [of n 10 10] by (subst decOfNat.simps) simp
    moreover have "decOfNat (n div 100) = [char_of (48 + n div 100)]"
      using lim(2) by (simp add: decOfNat.simps [of "n div 100"])
    ultimately have dec: "decOfNat n =
        [char_of (48 + n div 100), char_of (48 + n div 10 mod 10), char_of (48 + n mod 10)]"
      by simp
    have b: "n div 100 < 10" "n div 100 \<noteq> 0" "n div 10 mod 10 < 10" "n mod 10 < 10" using 3 assms by auto
    have e: "n div 100 * 10 + n div 10 mod 10 = n div 10"
      using div_mult_mod_eq [of "n div 10" 10] by (simp add: div_mult2_eq [symmetric])
    have "n div 10 * 10 + n mod 10 = n" by presburger
    moreover have nb: "\<not> 255 < n div 10" using assms by simp
    ultimately show ?thesis using b e assms unfolding dec by (simp add: nb)
  qed
qed

lemma parseIPv4_String:
  assumes "length bs = 4"
  shows "parseIPv4 (v4String bs) = Some bs"
proof -
  obtain a b c d where bs: "bs = [a, b, c, d]"
    using assms by (auto simp: length_Suc_conv numeral_eq_Suc)
  note u = unat_byte
  have dot: "decVal CHR ''.'' = None" by code_simp
  show ?thesis
    by (simp add: parseIPv4_def v4String_def bs v4loop_octet [OF u] dot
        v4loop_octet [OF u, where rest = "[]", simplified])
qed

definition digitChar :: "char \<Rightarrow> bool" where
  "digitChar c \<longleftrightarrow> (\<exists>d < 10. c = char_of (48 + d :: nat))"

lemma digitChar_not_sep:
  "digitChar c \<Longrightarrow> c \<noteq> CHR ''.'' \<and> c \<noteq> CHR '':'' \<and> c \<noteq> CHR ''%'' \<and> canonChar c"
  by (auto simp: digitChar_def canonChar_def plainChar_def dest!: arg_cong [of _ _ "of_char :: char \<Rightarrow> nat"])

lemma decOfNat_digits: "c \<in> set (decOfNat n) \<Longrightarrow> digitChar c"
  using decOfNat_chars by (auto simp: digitChar_def)

lemma find_append_absent: "(\<And>x. x \<in> set xs \<Longrightarrow> \<not> P x) \<Longrightarrow> find P (xs @ ys) = find P ys"
  by (induction xs) auto

lemma parseAddr_v4:
  assumes "length bs = 4"
  shows "parseAddr (v4String bs) = Some bs"
proof -
  obtain a b c d where bs: "bs = [a, b, c, d]"
    using assms by (auto simp: length_Suc_conv numeral_eq_Suc)
  have "find (\<lambda>c. c = CHR ''.'' \<or> c = CHR '':'' \<or> c = CHR ''%'') (v4String bs) = Some CHR ''.''"
    by (subst v4String_def, subst bs, simp, subst find_append_absent)
       (auto dest!: decOfNat_digits digitChar_not_sep)
  then show ?thesis by (simp add: parseAddr_def parseIPv4_String assms)
qed

subsection \<open>Colon-separated addresses\<close>

definition groupBytes :: "nat list \<Rightarrow> byte list" where
  "groupBytes gs = concat (map (\<lambda>g. [of_nat (g div 256), of_nat g]) gs)"

lemma groupBytes_simps [simp]:
  "groupBytes [] = []"
  "groupBytes (g # gs) = of_nat (g div 256) # of_nat g # groupBytes gs"
  "groupBytes (gs @ hs) = groupBytes gs @ groupBytes hs"
  by (simp_all add: groupBytes_def)

lemma length_groupBytes [simp]: "length (groupBytes gs) = 2 * length gs"
  by (induction gs) auto

lemma groupBytes_zeros [simp]: "groupBytes (replicate n 0) = replicate (2 * n) 0"
  by (induction n) auto

lemma groupBytes_groups: "even (length bs) \<Longrightarrow> groupBytes (groups bs) = bs"
proof (induction bs rule: groups.induct)
  case (1 a b bs)
  have "unat b < 256" by (rule unat_byte)
  then have "of_nat ((256 * unat a + unat b) div 256) = a" by simp
  moreover have "(256 :: byte) = 0" by simp
  then have "(of_nat (256 * unat a + unat b) :: byte) = b"
    by (simp only: of_nat_add of_nat_mult of_nat_numeral) simp
  ultimately show ?case using 1 by simp
qed auto

lemma groups_bound: "g \<in> set (groups bs) \<Longrightarrow> g < 65536"
proof (induction bs rule: groups.induct)
  case (1 a b bs)
  have "unat a < 256" "unat b < 256" by (rule unat_byte)+
  with 1 show ?case by auto
qed auto

lemma length_groups: "length (groups bs) = length bs div 2"
  by (induction bs rule: groups.induct) auto

lemma length_hexOfNat: "n < 16 ^ k \<Longrightarrow> 0 < k \<Longrightarrow> length (hexOfNat n) \<le> k"
proof (induction k arbitrary: n)
  case (Suc k)
  show ?case
  proof (cases "n < 16")
    case True
    then show ?thesis by (simp add: hexOfNat.simps [of n])
  next
    case False
    with Suc.prems have "0 < k" by (cases k) auto
    moreover have "n div 16 < 16 ^ k" using Suc.prems by (simp add: less_mult_imp_div_less mult.commute)
    ultimately show ?thesis using Suc.IH [of "n div 16"] False by (simp add: hexOfNat.simps [of n])
  qed
qed simp

lemma hexGroup_digits:
  assumes "hexDigits acc s = Some v" "off + length s \<le> 4" "acc < 16 ^ off"
    and "rest = [] \<or> hexVal (hd rest) = None"
  shows "hexGroup acc off (s @ rest) = Some (v, off + length s, rest)"
  using assms
proof (induction s arbitrary: acc off)
  case Nil
  then show ?case by (cases rest) auto
next
  case (Cons c s)
  then obtain d where d: "hexVal c = Some d" "hexDigits (16 * acc + d) s = Some v"
    by (auto split: option.splits)
  then have "d < 16" by (simp add: hexVal_bound)
  have "acc * 16 + d < 16 ^ Suc off"
    using Cons.prems(3) \<open>d < 16\<close> by simp
  moreover have "(16::nat) ^ Suc off \<le> 16 ^ 4"
    using Cons.prems(2) by (intro power_increasing) auto
  ultimately show ?case
    using Cons.IH [of "16 * acc + d" "Suc off"] Cons.prems d by (simp add: mult.commute)
qed

lemma hexGroup_hexOfNat:
  assumes "g < 65536" "rest = [] \<or> hexVal (hd rest) = None"
  shows "hexGroup 0 0 (hexOfNat g @ rest) = Some (g, length (hexOfNat g), rest)"
  using hexGroup_digits [of 0 "hexOfNat g" g 0 rest] assms length_hexOfNat [of g 4] by simp

lemma hexVal_seps [simp]: "hexVal CHR '':'' = None" "hexVal CHR ''.'' = None"
  by (simp_all add: hexVal_def Let_def)

lemma hexOfNat_hd: "hexVal (hd (hexOfNat g @ t)) \<noteq> None"
proof -
  have "hd (hexOfNat g) \<in> set (hexOfNat g)" by simp
  then obtain d where "d < 16" "hd (hexOfNat g) = hexChar d" using hexOfNat_chars by blast
  then show ?thesis by simp
qed

lemma joinHex_hd:
  assumes "gs \<noteq> []"
  shows "joinWith '':'' (map hexOfNat gs) @ t \<noteq> [] \<and>
    hd (joinWith '':'' (map hexOfNat gs) @ t) \<noteq> CHR '':''"
proof -
  obtain g hs where gs: "gs = g # hs" using assms by (cases gs) auto
  obtain u where u: "joinWith '':'' (map hexOfNat gs) = hexOfNat g @ u"
    unfolding gs by (cases hs) auto
  have "hexVal (hd (hexOfNat g @ u @ t)) \<noteq> None" by (rule hexOfNat_hd)
  then have "hd (hexOfNat g @ u @ t) \<noteq> CHR '':''" by (metis hexVal_seps(1))
  then show ?thesis unfolding u by simp
qed

lemma v6loop_join:
  assumes "gs \<noteq> []" "length gs \<le> n" "\<forall>g \<in> set gs. g < 65536"
  shows "v6loop n (joinWith '':'' (map hexOfNat gs)) bs ell = Some ([], bs @ groupBytes gs, ell)"
  using assms
proof (induction gs arbitrary: n bs)
  case (Cons g gs)
  obtain m where n: "n = Suc m" using Cons.prems(2) by (cases n) auto
  show ?case
  proof (cases "gs = []")
    case True
    with Cons.prems n show ?thesis
      using hexGroup_hexOfNat [of g "[]"] by simp
  next
    case False
    then have j: "joinWith '':'' (map hexOfNat (g # gs))
                  = hexOfNat g @ '':'' @ joinWith '':'' (map hexOfNat gs)"
      by (cases gs) auto
    from False joinHex_hd [of gs "[]"] Cons n show ?thesis
      unfolding j by (simp add: hexGroup_hexOfNat)
  qed
qed simp

lemma v6loop_ellipsis:
  assumes "pre \<noteq> []" "length pre \<le> n" "\<forall>g \<in> set pre. g < 65536"
    and "post = [] \<or> hd post \<noteq> CHR '':''"
  shows "v6loop n (joinWith '':'' (map hexOfNat pre) @ ''::'' @ post) bs None =
    (let bs' = bs @ groupBytes pre in
     if post = [] then Some ([], bs', Some (length bs'))
     else v6loop (n - length pre) post bs' (Some (length bs')))"
  using assms
proof (induction pre arbitrary: n bs)
  case (Cons g pre)
  obtain m where n: "n = Suc m" using Cons.prems(2) by (cases n) auto
  show ?case
  proof (cases "pre = []")
    case True
    with Cons.prems n show ?thesis
      using hexGroup_hexOfNat [of g "''::'' @ post"] by (simp add: Let_def)
  next
    case False
    then have j: "joinWith '':'' (map hexOfNat (g # pre)) @ ''::'' @ post
                  = hexOfNat g @ '':'' @ joinWith '':'' (map hexOfNat pre) @ ''::'' @ post"
      by (cases pre) auto
    from False joinHex_hd [of pre "''::'' @ post"] Cons n show ?thesis
      unfolding j by (simp add: hexGroup_hexOfNat Let_def)
  qed
qed simp


definition goodRun :: "nat list \<Rightarrow> (nat \<times> nat) option \<Rightarrow> bool" where
  "goodRun gs r \<longleftrightarrow> (case r of None \<Rightarrow> True | Some (a, b) \<Rightarrow>
     a + 2 \<le> b \<and> b \<le> length gs \<and> gs = take a gs @ replicate (b - a) 0 @ drop b gs)"

lemma takeWhile_zeros: "takeWhile (\<lambda>x. x = (0::nat)) gs = replicate (length (takeWhile (\<lambda>x. x = 0) gs)) 0"
  by (induction gs) auto

lemma goodRun_at:
  assumes "2 \<le> length (takeWhile (\<lambda>x. x = 0) (drop i gs))"
  shows "goodRun gs (Some (i, i + length (takeWhile (\<lambda>x. x = 0) (drop i gs))))"
proof -
  let ?z = "takeWhile (\<lambda>x. x = (0::nat)) (drop i gs)"
  have "i \<le> length gs" using assms by (cases "i \<le> length gs") auto
  moreover have "length ?z \<le> length (drop i gs)" by (rule length_takeWhile_le)
  moreover have "drop i gs = ?z @ drop (length ?z) (drop i gs)"
    by (metis dropWhile_eq_drop takeWhile_dropWhile_id)
  then have "gs = take i gs @ ?z @ drop (i + length ?z) gs"
    by (metis add.commute append_take_drop_id drop_drop)
  then have "gs = take i gs @ replicate (length ?z) 0 @ drop (i + length ?z) gs"
    using takeWhile_zeros [of "drop i gs"] by simp
  ultimately show ?thesis using assms by (simp add: goodRun_def)
qed

lemma zeroRun_good: "goodRun gs best \<Longrightarrow> goodRun gs (zeroRun i (drop i gs) best)"
proof (induction "drop i gs" arbitrary: i best)
  case Nil
  then show ?case by (metis zeroRun.simps(1))
next
  case (Cons g hs)
  have hs: "hs = drop (Suc i) gs" by (metis Cons.hyps(2) drop_Suc list.sel(3) tl_drop)
  show ?case
    using Cons.hyps(1) [OF hs] Cons.prems goodRun_at [of i gs]
    by (simp add: Cons.hyps(2) [symmetric] Let_def hs)
qed

lemma v6finish_split:
  assumes "length pre + length post < 16" "e = length pre"
  shows "v6finish ([], pre @ post, Some e) =
    Some (pre @ replicate (16 - (length pre + length post)) 0 @ post)"
  using assms by (simp add: v6finish_def)

lemma parseIPv6_String:
  assumes len: "length bs = 16"
  shows "parseIPv6 (v6String bs) = Some bs"
proof -
  define gs where "gs = groups bs"
  have l8: "length gs = 8" using len by (simp add: gs_def length_groups)
  have bs: "groupBytes gs = bs" using len by (simp add: gs_def groupBytes_groups)
  have bound: "\<forall>g \<in> set gs. g < 65536" by (auto simp: gs_def groups_bound)
  show ?thesis
  proof (cases "zeroRun 0 gs None")
    case None
    from l8 have "gs \<noteq> []" by auto
    then have "\<not> startsWith ''::'' (joinWith '':'' (map hexOfNat gs))"
      using joinHex_hd [of gs "[]"] by (auto simp: startsWith_iff)
    with None l8 bound \<open>gs \<noteq> []\<close> bs len show ?thesis
      by (simp add: parseIPv6_def v6String_def gs_def [symmetric] v6loop_join v6finish_def)
  next
    case (Some r)
    obtain a b where ab: "r = (a, b)" by (cases r)
    have "goodRun gs (Some (a, b))"
      using zeroRun_good [of gs None 0] Some ab by (simp add: goodRun_def)
    then have run: "a + 2 \<le> b" "b \<le> 8" "gs = take a gs @ replicate (b - a) 0 @ drop b gs"
      using l8 by (auto simp: goodRun_def)
    define pre post where "pre = take a gs" and "post = drop b gs"
    have lens: "length pre = a" "length post = 8 - b" using run(1,2) l8 by (auto simp: pre_def post_def)
    have bnd: "\<forall>g \<in> set pre. g < 65536" "\<forall>g \<in> set post. g < 65536"
      using bound by (auto simp: pre_def post_def dest: in_set_takeD in_set_dropD)
    have "bs = groupBytes (pre @ replicate (b - a) 0 @ post)"
      using run(3) bs by (simp add: pre_def post_def)
    then have bs': "bs = groupBytes pre @ replicate (16 - (2 * length pre + 2 * length post)) 0 @ groupBytes post"
      using lens run(1,2) by (simp add: right_diff_distrib')
    have str: "v6String bs = joinWith '':'' (map hexOfNat pre) @ ''::'' @ joinWith '':'' (map hexOfNat post)"
      using Some ab by (simp add: v6String_def gs_def [symmetric] pre_def post_def)
    have fin: "v6finish ([], groupBytes pre @ groupBytes post, Some (2 * length pre)) = Some bs"
      using v6finish_split [of "groupBytes pre" "groupBytes post"] lens run(1,2) bs' by simp
    have post_hd: "joinWith '':'' (map hexOfNat post) = [] \<or>
        hd (joinWith '':'' (map hexOfNat post)) \<noteq> CHR '':''"
      using joinHex_hd [of post "[]"] by (cases "post = []") auto
    have post_nil: "joinWith '':'' (map hexOfNat post) = [] \<longleftrightarrow> post = []"
      using joinHex_hd [of post "[]"] by (cases "post = []") auto
    show ?thesis
    proof (cases "pre = []")
      case True
      show ?thesis
      proof (cases "post = []")
        case True
        with \<open>pre = []\<close> have "v6String bs = ''::''" by (simp add: str)
        moreover have "bs = replicate 16 0" using bs' True \<open>pre = []\<close> by simp
        ultimately show ?thesis by (simp add: parseIPv6_def)
      next
        case False
        with True lens run fin bnd post_nil show ?thesis
          by (simp add: str parseIPv6_def v6loop_join)
      qed
    next
      case False
      then have "\<not> startsWith ''::'' (v6String bs)"
        using joinHex_hd [of pre "''::'' @ joinWith '':'' (map hexOfNat post)"]
        by (auto simp: str startsWith_iff)
      moreover have "length post \<le> 8 - length pre" "length pre \<le> 8" using lens run by auto
      moreover have "v6loop 8 (v6String bs) [] None =
          Some ([], groupBytes pre @ groupBytes post, Some (2 * length pre))"
        unfolding str
        using v6loop_ellipsis [of pre 8 "joinWith '':'' (map hexOfNat post)" "[]"]
          False bnd post_hd post_nil \<open>length post \<le> 8 - length pre\<close> \<open>length pre \<le> 8\<close>
        by (cases "post = []") (simp_all add: v6loop_join Let_def)
      ultimately show ?thesis using fin by (simp add: parseIPv6_def)
    qed
  qed
qed

subsection \<open>The canonical spelling\<close>

lemma v6String_chars:
  "c \<in> set (v6String bs) \<Longrightarrow> c = CHR '':'' \<or> (\<exists>d < 16. c = hexChar d)"
  using set_joinWith [of "'':''"] hexOfNat_chars
  by (fastforce simp: v6String_def Let_def split: option.splits dest: subsetD)

lemma hexChar_not_sep: "d < 16 \<Longrightarrow> hexChar d \<noteq> CHR ''.'' \<and> hexChar d \<noteq> CHR ''%'' \<and> hexChar d \<noteq> CHR '':''"
  by (auto simp: hexChar_def dest!: arg_cong [of _ _ "of_char :: char \<Rightarrow> nat"])

lemma v6String_has_colon:
  assumes "length bs = 16"
  shows "CHR '':'' \<in> set (v6String bs)"
proof (cases "zeroRun 0 (groups bs) None")
  case None
  have l: "length (groups bs) = 8" using assms by (simp add: length_groups)
  then obtain a b gs where "groups bs = a # b # gs" by (auto simp: numeral_eq_Suc length_Suc_conv)
  with None show ?thesis by (cases gs) (auto simp: v6String_def Let_def)
qed (auto simp: v6String_def Let_def)

lemma parseAddr_v6:
  assumes "length bs = 16"
  shows "parseAddr (v6String bs) = Some bs"
proof -
  have sep: "c = CHR '':'' \<or> (c \<noteq> CHR ''.'' \<and> c \<noteq> CHR ''%'')" if "c \<in> set (v6String bs)" for c
    using v6String_chars [OF that] hexChar_not_sep by auto
  have "find (\<lambda>c. c = CHR ''.'' \<or> c = CHR '':'' \<or> c = CHR ''%'') (v6String bs) = Some CHR '':''"
    (is "find ?P _ = _")
  proof (cases "find ?P (v6String bs)")
    case None
    with v6String_has_colon [OF assms] show ?thesis by (auto simp: find_None_iff)
  next
    case (Some c)
    with sep show ?thesis by (auto dest!: find_SomeD)
  qed
  moreover have "CHR ''%'' \<notin> set (v6String bs)" using sep by auto
  ultimately show ?thesis by (simp add: parseAddr_def parseIPv6_String assms)
qed

lemma ParseIP_ipString:
  assumes "length ip = 16"
  shows "ParseIP (ipString ip) = Some ip"
proof (cases "To4 ip")
  case None
  with assms show ?thesis by (auto simp: ipString_def ParseIP_def parseAddr_v6 as16_def)
next
  case (Some p4)
  with assms have p4: "p4 = drop 12 ip" "take 12 ip = v4InV6Prefix"
    by (auto simp: To4_def split: if_splits)
  then have "v4InV6Prefix @ p4 = ip" by (metis append_take_drop_id)
  with Some p4 assms show ?thesis by (auto simp: ipString_def ParseIP_def parseAddr_v4 as16_def)
qed

lemma v4loop_length: "v4loop fds v d b s = Some r \<Longrightarrow> length fds \<le> 3 \<Longrightarrow> length r = 4"
  by (induction fds v d b s rule: v4loop.induct) (auto split: if_splits option.splits)

lemma parseIPv4_length: "parseIPv4 s = Some r \<Longrightarrow> length r = 4"
  by (auto simp: parseIPv4_def dest: v4loop_length)

lemma v6loop_length:
  "v6loop n s bs ell = Some (t, r, e) \<Longrightarrow> length bs + 2 * n = 16 \<Longrightarrow>
   (\<forall>k. ell = Some k \<longrightarrow> k \<le> length bs) \<Longrightarrow>
   length r \<le> 16 \<and> (\<forall>k. e = Some k \<longrightarrow> k \<le> length r)"
proof (induction n s bs ell rule: v6loop.induct)
  case (2 n s bs ell)
  then show ?case
    by (fastforce simp: Let_def dest!: parseIPv4_length split: option.splits if_splits list.splits prod.splits)
qed auto

lemma v6finish_length:
  "v6finish (t, r, e) = Some x \<Longrightarrow> length r \<le> 16 \<Longrightarrow> (\<forall>k. e = Some k \<longrightarrow> k \<le> length r) \<Longrightarrow> length x = 16"
  by (auto simp: v6finish_def split: if_splits option.splits)

lemma parseIPv6_length: "parseIPv6 s = Some x \<Longrightarrow> length x = 16"
  by (auto simp: parseIPv6_def bind_eq_Some_conv split: if_splits
      dest!: v6loop_length intro: v6finish_length)

lemma parseAddr_length: "parseAddr s = Some x \<Longrightarrow> length x = 4 \<or> length x = 16"
  by (auto simp: parseAddr_def split: option.splits if_splits dest: parseIPv4_length parseIPv6_length)

lemma ParseIP_length: "ParseIP s = Some ip \<Longrightarrow> length ip = 16"
  by (auto simp: ParseIP_def as16_def v4InV6Prefix_def dest: parseAddr_length)

lemma ParseIP_canonical: "ParseIP s = Some ip \<Longrightarrow> ParseIP (ipString ip) = Some ip"
  by (simp add: ParseIP_ipString ParseIP_length)

lemma ipString_inj:
  "length ip = 16 \<Longrightarrow> length ip' = 16 \<Longrightarrow> ipString ip = ipString ip' \<longleftrightarrow> ip = ip'"
  by (metis ParseIP_ipString option.inject)

lemma ipString_canon:
  assumes "length ip = 16" "c \<in> set (ipString ip)"
  shows "canonChar c"
proof (cases "To4 ip")
  case None
  with assms have "c \<in> set (v6String ip)" by (auto simp: ipString_def split: if_splits)
  then have "c = CHR '':'' \<or> (\<exists>d < 16. c = hexChar d)" by (rule v6String_chars)
  moreover have "canonChar CHR '':''" by code_simp
  ultimately show ?thesis using hexChar_canon by blast
next
  case (Some p4)
  with assms have "c \<in> set (v4String p4)" by (auto simp: ipString_def split: if_splits)
  then have "c = CHR ''.'' \<or> digitChar c"
    using set_joinWith [of "''.''" "map (\<lambda>b. decOfNat (unat b)) p4"]
    by (auto simp: v4String_def dest!: subsetD intro: decOfNat_digits)
  then show ?thesis using digitChar_not_sep by (auto simp: canonChar_def plainChar_def)
qed

lemma ParseIP_nonempty: "ParseIP s = Some ip \<Longrightarrow> s \<noteq> []"
  by (auto simp: ParseIP_def parseAddr_def)

lemma ipString_TrimSpace: "length ip = 16 \<Longrightarrow> TrimSpace (ipString ip) = ipString ip"
  by (rule canon_TrimSpace) (rule ipString_canon)

lemma ipString_ToLower: "length ip = 16 \<Longrightarrow> ToLower uni (ipString ip) = ipString ip"
  by (rule canon_ToLower) (rule ipString_canon)

section \<open>Membership of a network\<close>

text \<open>The leading bits of an address, most significant first: the reference for network membership.\<close>

definition byteBits :: "byte \<Rightarrow> bool list" where
  "byteBits b = map (bit b) [7, 6, 5, 4, 3, 2, 1, 0]"

definition addrBits :: "byte list \<Rightarrow> bool list" where
  "addrBits bs = concat (map byteBits bs)"

lemma addrBits_simps [simp]: "addrBits [] = []" "addrBits (b # bs) = byteBits b @ addrBits bs"
  by (simp_all add: addrBits_def)

lemma length_byteBits [simp]: "length (byteBits b) = 8"
  by (simp add: byteBits_def)

lemma length_addrBits [simp]: "length (addrBits bs) = 8 * length bs"
  by (induction bs) auto

lemma byte_eq_bits: "(x :: byte) = y \<longleftrightarrow> byteBits x = byteBits y"
proof
  assume "byteBits x = byteBits y"
  then have "bit x i = bit y i" if "i < 8" for i
    using that by (auto simp: byteBits_def less_Suc_eq numeral_eq_Suc)
  then show "x = y" by (auto intro!: bit_word_eqI)
qed simp

lemma byte_FF: "(0xFF :: byte) = - 1"
  by simp

lemma mask_byte_bits:
  assumes "k < 8"
  shows "x AND NOT (drop_bit k 0xFF) = y AND NOT (drop_bit k (0xFF :: byte)) \<longleftrightarrow>
    take k (byteBits x) = take k (byteBits y)"
proof -
  have "x AND NOT (drop_bit k 0xFF) = y AND NOT (drop_bit k 0xFF) \<longleftrightarrow>
      (\<forall>i < 8. 8 - k \<le> i \<longrightarrow> bit x i = bit y i)"
    unfolding byte_FF using assms by (auto simp: bit_eq_iff bit_and_iff bit_not_iff bit_mask_iff)
  also have "\<dots> \<longleftrightarrow> take k (byteBits x) = take k (byteBits y)"
  proof -
    have all8: "(\<forall>i < 8 :: nat. Q i) \<longleftrightarrow> Q 7 \<and> Q 6 \<and> Q 5 \<and> Q 4 \<and> Q 3 \<and> Q 2 \<and> Q 1 \<and> Q 0" for Q
      by (simp add: All_less_Suc numeral_eq_Suc)
    have "k = 0 \<or> k = 1 \<or> k = 2 \<or> k = 3 \<or> k = 4 \<or> k = 5 \<or> k = 6 \<or> k = 7" using assms by linarith
    then show ?thesis unfolding all8 by (elim disjE) (simp_all add: byteBits_def)
  qed
  finally show ?thesis .
qed

lemma length_CIDRMask [simp]: "length (CIDRMask n len) = len"
  by (induction n len rule: CIDRMask.induct) auto

lemma mask_addr_bits:
  assumes "length xs = len" "length ys = len" "n \<le> 8 * len"
  shows "map2 (\<lambda>a b. a AND b) xs (CIDRMask n len) = map2 (\<lambda>a b. a AND b) ys (CIDRMask n len) \<longleftrightarrow>
    take n (addrBits xs) = take n (addrBits ys)"
  using assms
proof (induction n len arbitrary: xs ys rule: CIDRMask.induct)
  case (2 n len)
  then obtain x xs' y ys' where xy: "xs = x # xs'" "ys = y # ys'" by (auto simp: length_Suc_conv)
  have full: "z AND 0xFF = z" for z :: byte
    unfolding byte_FF by simp
  show ?case
  proof (cases "n \<ge> 8")
    case True
    with 2 xy show ?thesis by (auto simp: full byte_eq_bits)
  next
    case False
    have zero: "map2 (\<lambda>a b. a AND b) zs (CIDRMask 0 l) = replicate l 0" if "length zs = l" for zs l
      using that
    proof (induction l arbitrary: zs)
      case (Suc l)
      then show ?case unfolding CIDRMask.simps byte_FF by (auto simp: length_Suc_conv)
    qed simp
    have lens: "length xs' = len" "length ys' = len" using 2 xy by auto
    from False have "n < 8" by simp
    with xy lens show ?thesis
      by (simp add: zero mask_byte_bits del: drop_bit_numeral_bit1)
  qed
qed simp

lemma and_mask_idem: "map2 (\<lambda>a b. a AND b) (map2 (\<lambda>a b. a AND b) xs m) m = map2 (\<lambda>a b. (a :: byte) AND b) xs m"
  by (induction xs m rule: list_induct2') (auto simp: and.assoc)

lemma netContains_v4:
  assumes a: "length a = 4" and n: "n \<le> 32"
  shows "netContains \<lparr>netIP = ipMask (as16 a) (CIDRMask n 4), netMask = CIDRMask n 4\<rparr> ip \<longleftrightarrow>
    (\<exists>p4. To4 ip = Some p4 \<and> take n (addrBits p4) = take n (addrBits a))"
proof -
  have "as16 a = v4InV6Prefix @ a" "length v4InV6Prefix = 12"
    using a by (auto simp: as16_def v4InV6Prefix_def)
  then have m: "ipMask (as16 a) (CIDRMask n 4) = map2 (\<lambda>x m. x AND m) a (CIDRMask n 4)"
    using a by (simp add: ipMask_def)
  have nm: "networkNumberAndMask \<lparr>netIP = ipMask (as16 a) (CIDRMask n 4), netMask = CIDRMask n 4\<rparr>
      = (map2 (\<lambda>x m. x AND m) a (CIDRMask n 4), CIDRMask n 4)"
    using a by (simp add: networkNumberAndMask_def m To4_def)
  have l4: "length p4 = 4" if "To4 ip = Some p4" for p4
    using that by (auto simp: To4_def split: if_splits)
  have none: "length ip \<noteq> 4" if "To4 ip = None" using that by (auto simp: To4_def split: if_splits)
  have "map2 (\<lambda>x m. x AND m) a (CIDRMask n 4) = map2 (\<lambda>x m. x AND m) p (CIDRMask n 4) \<longleftrightarrow>
      take n (addrBits p) = take n (addrBits a)" if "length p = 4" for p
    using mask_addr_bits [of a 4 p n] a n that by auto
  then show ?thesis
    using a l4 none by (cases "To4 ip") (auto simp: netContains_def nm and_mask_idem)
qed


text \<open>An IPv4 network as it is written.\<close>

lemma dtoiLoop_append: "dtoiLoop k (s @ t) = (case dtoiLoop k s of None \<Rightarrow> None | Some v \<Rightarrow> dtoiLoop v t)"
  by (induction s arbitrary: k) (simp_all split: option.splits)

lemma dtoiLoop_decOfNat: "n < 0xFFFFFF \<Longrightarrow> dtoiLoop 0 (decOfNat n) = Some n"
proof (induction n rule: decOfNat.induct)
  case (1 n)
  show ?case
  proof (cases "n < 10")
    case True
    then show ?thesis by (subst decOfNat.simps) simp
  next
    case False
    have "dtoiLoop 0 (decOfNat (n div 10)) = Some (n div 10)" using 1 False by simp
    then show ?thesis using False 1 by (subst decOfNat.simps) (simp add: dtoiLoop_append)
  qed
qed

lemma ParseCIDR_v4:
  assumes "length a = 4" "n \<le> 32"
  shows "ParseCIDR (v4String a @ ''/'' @ decOfNat n) = Some \<lparr>netIP = ipMask (as16 a) (CIDRMask n 4), netMask = CIDRMask n 4\<rparr>"
proof -
  have "decVal CHR ''/'' = None" by code_simp
  then have "CHR ''/'' \<notin> set (decOfNat m)" for m by (metis decOfNat_chars decVal_digit option.distinct(1))
  with set_joinWith [of "''.''" "map (\<lambda>b. decOfNat (unat b)) a"] have "CHR ''/'' \<notin> set (v4String a)"
    by (auto simp: v4String_def)
  then have "takeWhile (\<lambda>c. c \<noteq> CHR ''/'') (v4String a @ ''/'' @ decOfNat n) = v4String a"
    by (subst takeWhile_append2) auto
  moreover have "dtoi (decOfNat n) = Some n" using assms(2) by (simp add: dtoi_def dtoiLoop_decOfNat)
  ultimately show ?thesis using assms parseAddr_v4 [OF assms(1)] by (simp add: ParseCIDR_def Let_def)
qed

end
