(* ===== verification/GoLib.thy ===== *)
theory GoLib
  imports NetAddr
begin

text \<open>
  The data of \<^verbatim>\<open>crypto/x509\<close> and \<^verbatim>\<open>encoding/json\<close> that the program handles, and the one parameter of
  the model: the record \<open>golib\<close> of the functions whose code is not in this repository and whose
  text is not worth restating (ciphers, signatures, hashes, X.509 and PEM and YAML encodings, the
  BIP-39 word list, calendar arithmetic in the host's time zone). Every definition that calls one
  of them takes the record \<open>L\<close>. What a property relies on is a named hypothesis about \<open>L\<close>
  (\<open>pemOk\<close>, \<open>jsonOk\<close>, \<open>gcmOk\<close>, \<open>boxOk\<close>, \<open>ecdsaOk\<close>, \<open>bip39Ok\<close>, \<open>base64Ok\<close>, \<open>x509Ok\<close>), each the
  documented behaviour of the library.

  A JSON document is a tree (\<open>json\<close>); the components encode their structs into trees by the struct
  tags of the source, so only the text of a tree is left to \<open>L\<close>. Times are nanoseconds since the
  Unix epoch. Randomness is a number drawn from the node's source.
\<close>

type_synonym time = int
type_synonym seed = nat
type_synonym privkey = bytes

definition second :: int where "second = 1000000000"
definition minute :: int where "minute = 60 * second"
definition hour :: int where "hour = 60 * minute"

text \<open>\<^verbatim>\<open>time.Time{}\<close>, the first of January of the year 1.\<close>

definition zeroTime :: time where
  "zeroTime = - 62135596800 * second"

lemmas duration_defs = second_def minute_def hour_def

section \<open>X.509 data\<close>

datatype pubkey = ECDSAKey bytes | OtherKey bytes
datatype anykey = ECDSAPriv privkey | OtherPriv bytes
datatype extKeyUsage = ServerAuth | ClientAuth | OtherUsage
datatype keyUsage = DigitalSignature | KeyEncipherment | CertSign | CRLSign | OtherKeyUsage

record pkixName =
  CommonName :: string
  Organization :: "string list"
  otherAttributes :: "(string \<times> string) list"

record certificate =
  Raw :: bytes
  SerialNumber :: int
  Subject :: pkixName
  cNotBefore :: time
  cNotAfter :: time
  IsCA :: bool
  MaxPathLen :: int
  KeyUsage :: "keyUsage set"
  ExtKeyUsage :: "extKeyUsage list"
  DNSNames :: "string list"
  IPAddresses :: "ip list"
  EmailAddresses :: "string list"
  URIs :: "string list"
  PublicKey :: pubkey

record certRequest =
  csrRaw :: bytes
  csrSubject :: pkixName
  csrDNSNames :: "string list"
  csrIPAddresses :: "ip list"
  csrEmailAddresses :: "string list"
  csrURIs :: "string list"
  csrPublicKey :: pubkey

record revocationEntry =
  entrySerial :: int
  RevocationTime :: time
  ReasonCode :: int

record revocationList =
  crlRaw :: bytes
  crlNumber :: "int option"
  ThisUpdate :: time
  NextUpdate :: time
  RevokedCertificateEntries :: "revocationEntry list"

definition plainName :: "string \<Rightarrow> pkixName" where
  "plainName cn = \<lparr>CommonName = cn, Organization = [], otherAttributes = []\<rparr>"

text \<open>The fields a template does not set.\<close>

definition blankCert :: certificate where
  "blankCert = \<lparr>Raw = '''', SerialNumber = 0, Subject = plainName '''', cNotBefore = zeroTime,
     cNotAfter = zeroTime, IsCA = False, MaxPathLen = 0, KeyUsage = {}, ExtKeyUsage = [],
     DNSNames = [], IPAddresses = [], EmailAddresses = [], URIs = [], PublicKey = OtherKey ''''\<rparr>"

section \<open>JSON trees\<close>

datatype json = JNull | JBool bool | JInt int | JNum string | JStr string | JArr "json list"
  | JObj "(string \<times> json) list"

text \<open>The values an object gives a struct field: object keys match field names without regard to
  case. \<open>JNum\<close> is a number that is not written as an integer; no field of the program accepts it.\<close>

definition jfields :: "string \<Rightarrow> (string \<times> json) list \<Rightarrow> json list" where
  "jfields name kvs = map snd (filter (\<lambda>kv. map lowerChar (fst kv) = map lowerChar name) kvs)"

text \<open>Decoding one field. A missing field leaves the zero value, \<^verbatim>\<open>null\<close> leaves a scalar as it is and
  empties a slice, a repeated key overwrites, and another kind of value is an error.\<close>

definition decField :: "(json \<Rightarrow> 'a option) \<Rightarrow> 'a \<Rightarrow> string \<Rightarrow> (string \<times> json) list \<Rightarrow> 'a option" where
  "decField dec zero name kvs =
     foldl (\<lambda>acc j. case acc of None \<Rightarrow> None | Some x \<Rightarrow> if j = JNull then Some x else dec j)
       (Some zero) (jfields name kvs)"

definition decSlice :: "(json \<Rightarrow> 'a list option) \<Rightarrow> string \<Rightarrow> (string \<times> json) list \<Rightarrow> 'a list option" where
  "decSlice dec name kvs =
     foldl (\<lambda>acc j. case acc of None \<Rightarrow> None | Some x \<Rightarrow> if j = JNull then Some [] else dec j)
       (Some []) (jfields name kvs)"

fun decStr :: "json \<Rightarrow> string option" where
  "decStr (JStr s) = Some s"
| "decStr _ = None"

fun decBool :: "json \<Rightarrow> bool option" where
  "decBool (JBool b) = Some b"
| "decBool _ = None"

fun decInt64 :: "json \<Rightarrow> int option" where
  "decInt64 (JInt n) = (if - (2 ^ 63) \<le> n \<and> n < 2 ^ 63 then Some n else None)"
| "decInt64 _ = None"

fun decUint64 :: "json \<Rightarrow> 64 word option" where
  "decUint64 (JInt n) = (if 0 \<le> n \<and> n < 2 ^ 64 then Some (word_of_int n) else None)"
| "decUint64 _ = None"

fun decList :: "(json \<Rightarrow> 'a option) \<Rightarrow> 'a \<Rightarrow> json \<Rightarrow> 'a list option" where
  "decList dec zero (JArr js) = those (map (\<lambda>j. if j = JNull then Some zero else dec j) js)"
| "decList dec zero _ = None"

fun decObj :: "((string \<times> json) list \<Rightarrow> 'a option) \<Rightarrow> json \<Rightarrow> 'a option" where
  "decObj dec (JObj kvs) = dec kvs"
| "decObj dec _ = None"

text \<open>A nil slice is written as \<^verbatim>\<open>null\<close> and a non-empty slice as an array.\<close>

definition encList :: "('a \<Rightarrow> json) \<Rightarrow> 'a list \<Rightarrow> json" where
  "encList enc xs = (if xs = [] then JNull else JArr (map enc xs))"

section \<open>The libraries\<close>

record 'c golib =
  uniLower :: "string \<Rightarrow> string"
  addDate :: "int \<Rightarrow> int \<Rightarrow> int \<Rightarrow> time \<Rightarrow> time"
  timeText :: "time \<Rightarrow> string"
  timeOfText :: "string \<Rightarrow> time option"
  pemEncode :: "string \<Rightarrow> bytes \<Rightarrow> bytes"
  pemDecode :: "bytes \<Rightarrow> (string \<times> bytes) option"
  base64Encode :: "bytes \<Rightarrow> string"
  base64Decode :: "string \<Rightarrow> bytes option"
  jsonPrint :: "json \<Rightarrow> bytes"
  jsonParse :: "bytes \<Rightarrow> json option"
  jsonScan :: "bytes \<Rightarrow> (bytes \<times> bytes) option"
  jsonBroken :: "bytes \<Rightarrow> bool"
  urlParses :: "string \<Rightarrow> bool"
  yamlMarshal :: "'c \<Rightarrow> bytes option"
  yamlUnmarshal :: "bytes \<Rightarrow> 'c \<Rightarrow> 'c option"
  createCertificate :: "seed \<Rightarrow> certificate \<Rightarrow> certificate \<Rightarrow> pubkey \<Rightarrow> privkey \<Rightarrow> bytes option"
  parseCertificate :: "bytes \<Rightarrow> certificate option"
  checkSignatureFrom :: "certificate \<Rightarrow> certificate \<Rightarrow> bool"
  certVerify :: "certificate \<Rightarrow> certificate list \<Rightarrow> certificate list \<Rightarrow> string \<Rightarrow> extKeyUsage \<Rightarrow> time \<Rightarrow> bool"
  createCertificateRequest :: "seed \<Rightarrow> certRequest \<Rightarrow> privkey \<Rightarrow> bytes option"
  parseCertificateRequest :: "bytes \<Rightarrow> certRequest option"
  csrCheckSignature :: "certRequest \<Rightarrow> bool"
  createRevocationList :: "seed \<Rightarrow> revocationList \<Rightarrow> certificate \<Rightarrow> privkey \<Rightarrow> bytes option"
  parseRevocationList :: "bytes \<Rightarrow> revocationList option"
  crlCheckSignatureFrom :: "revocationList \<Rightarrow> certificate \<Rightarrow> bool"
  x509KeyPair :: "bytes \<Rightarrow> bytes \<Rightarrow> bytes list option"
  marshalPKCS8 :: "privkey \<Rightarrow> bytes option"
  parsePKCS8 :: "bytes \<Rightarrow> anykey option"
  generateKey :: "seed \<Rightarrow> privkey"
  publicOf :: "privkey \<Rightarrow> bytes"
  marshalPKIX :: "bytes \<Rightarrow> bytes option"
  signASN1 :: "seed \<Rightarrow> privkey \<Rightarrow> bytes \<Rightarrow> bytes option"
  verifyASN1 :: "bytes \<Rightarrow> bytes \<Rightarrow> bytes \<Rightarrow> bool"
  sha256 :: "bytes \<Rightarrow> bytes"
  randomBytes :: "seed \<Rightarrow> nat \<Rightarrow> bytes"
  gcmSeal :: "bytes \<Rightarrow> bytes \<Rightarrow> bytes \<Rightarrow> bytes"
  gcmOpen :: "bytes \<Rightarrow> bytes \<Rightarrow> bytes \<Rightarrow> bytes option"
  scryptKey :: "bytes \<Rightarrow> bytes \<Rightarrow> nat \<Rightarrow> nat \<Rightarrow> nat \<Rightarrow> nat \<Rightarrow> bytes option"
  sealAnonymous :: "seed \<Rightarrow> bytes \<Rightarrow> bytes \<Rightarrow> bytes option"
  openAnonymous :: "bytes \<Rightarrow> bytes \<Rightarrow> bytes \<Rightarrow> bytes option"
  x25519Base :: "bytes \<Rightarrow> bytes option"
  newMnemonic :: "bytes \<Rightarrow> string option"
  entropyFromMnemonic :: "string \<Rightarrow> bytes option"

text \<open>\<^verbatim>\<open>json.Unmarshal\<close> into a struct whose zero value is \<open>zero\<close>.\<close>

definition jsonUnmarshal :: "'c golib \<Rightarrow> 'a \<Rightarrow> ((string \<times> json) list \<Rightarrow> 'a option) \<Rightarrow> bytes \<Rightarrow> 'a option" where
  "jsonUnmarshal L zero dec data =
     (case jsonParse L data of
        None \<Rightarrow> None
      | Some j \<Rightarrow> if j = JNull then Some zero else decObj dec j)"

text \<open>\<^verbatim>\<open>[]byte\<close> in JSON: base64 text, \<^verbatim>\<open>null\<close> when nil.\<close>

definition encBytes :: "'c golib \<Rightarrow> bytes \<Rightarrow> json" where
  "encBytes L b = (if b = [] then JNull else JStr (base64Encode L b))"

definition decBytes :: "'c golib \<Rightarrow> json \<Rightarrow> bytes option" where
  "decBytes L j = Option.bind (decStr j) (base64Decode L)"

section \<open>What the properties assume of the libraries\<close>

text \<open>PEM: decoding an encoded block gives its type and bytes.\<close>

definition pemOk :: "'c golib \<Rightarrow> bool" where
  "pemOk L \<longleftrightarrow> (\<forall>ty b. pemDecode L (pemEncode L ty b) = Some (ty, b))"

text \<open>JSON: parsing a printed tree gives the tree (on ASCII text; other bytes may be replaced).\<close>

fun jsonASCII :: "json \<Rightarrow> bool" where
  "jsonASCII (JStr s) = isASCII s"
| "jsonASCII (JArr js) = (\<forall>j \<in> set js. jsonASCII j)"
| "jsonASCII (JNum s) = False"
| "jsonASCII (JObj kvs) = (\<forall>kv \<in> set kvs. isASCII (fst kv) \<and> jsonASCII (snd kv))"
| "jsonASCII _ = True"

definition jsonOk :: "'c golib \<Rightarrow> bool" where
  "jsonOk L \<longleftrightarrow> (\<forall>j. jsonASCII j \<longrightarrow> jsonParse L (jsonPrint L j) = Some j)"

text \<open>Base64: text of ASCII characters that decodes to what was encoded.\<close>

definition base64Ok :: "'c golib \<Rightarrow> bool" where
  "base64Ok L \<longleftrightarrow> (\<forall>b. base64Decode L (base64Encode L b) = Some b \<and> isASCII (base64Encode L b))"

text \<open>Times in JSON: RFC 3339 with nanoseconds.\<close>

definition timeTextOk :: "'c golib \<Rightarrow> bool" where
  "timeTextOk L \<longleftrightarrow> (\<forall>t. timeOfText L (timeText L t) = Some t \<and> isASCII (timeText L t))"

text \<open>AES-GCM: opening what was sealed under the same key and nonce; the tag adds 16 bytes.\<close>

definition gcmOk :: "'c golib \<Rightarrow> bool" where
  "gcmOk L \<longleftrightarrow> (\<forall>k n p. gcmOpen L k n (gcmSeal L k n p) = Some p
     \<and> length (gcmSeal L k n p) = length p + 16)"

text \<open>Sealed boxes: the owner of the key pair opens them; they add 48 bytes.\<close>

definition boxOk :: "'c golib \<Rightarrow> bool" where
  "boxOk L \<longleftrightarrow> (\<forall>r m pub priv c. x25519Base L priv = Some pub \<longrightarrow> sealAnonymous L r m pub = Some c \<longrightarrow>
     openAnonymous L c pub priv = Some m \<and> length c = length m + 48)"

text \<open>ECDSA: a signature made with a key verifies with its public key.\<close>

definition ecdsaOk :: "'c golib \<Rightarrow> bool" where
  "ecdsaOk L \<longleftrightarrow> (\<forall>r k d s. signASN1 L r k d = Some s \<longrightarrow> verifyASN1 L (publicOf L k) d s)"

text \<open>PKCS 8: a marshalled ECDSA key parses to itself.\<close>

definition pkcs8Ok :: "'c golib \<Rightarrow> bool" where
  "pkcs8Ok L \<longleftrightarrow> (\<forall>k b. marshalPKCS8 L k = Some b \<longrightarrow> parsePKCS8 L b = Some (ECDSAPriv k))"

text \<open>BIP-39: the entropy of a mnemonic made from some entropy is that entropy.\<close>

definition bip39Ok :: "'c golib \<Rightarrow> bool" where
  "bip39Ok L \<longleftrightarrow> (\<forall>e m. newMnemonic L e = Some m \<longrightarrow> entropyFromMnemonic L m = Some e)"

text \<open>The random source gives as many bytes as asked for.\<close>

definition randomOk :: "'c golib \<Rightarrow> bool" where
  "randomOk L \<longleftrightarrow> (\<forall>r n. length (randomBytes L r n) = n)"

text \<open>X.509: a certificate made from a template parses to the template's data with the key it was made
  for; its times are whole seconds, IPv4 addresses have four bytes, and attributes of the subject the
  library does not know are dropped.\<close>

definition wholeSeconds :: "time \<Rightarrow> time" where
  "wholeSeconds t = t - t mod second"

definition shortIP :: "ip \<Rightarrow> ip" where
  "shortIP ip = (case To4 ip of Some p4 \<Rightarrow> p4 | None \<Rightarrow> ip)"

definition certOf :: "certificate \<Rightarrow> bytes \<Rightarrow> pubkey \<Rightarrow> certificate \<Rightarrow> bool" where
  "certOf t der pub c \<longleftrightarrow> (\<exists>attrs. c = t\<lparr>Raw := der, Subject := (Subject t)\<lparr>otherAttributes := attrs\<rparr>,
     cNotBefore := wholeSeconds (cNotBefore t), cNotAfter := wholeSeconds (cNotAfter t),
     IPAddresses := map shortIP (IPAddresses t), PublicKey := pub\<rparr>)"

definition x509Ok :: "'c golib \<Rightarrow> bool" where
  "x509Ok L \<longleftrightarrow> (\<forall>r t p pub k der. createCertificate L r t p pub k = Some der \<longrightarrow>
     (\<exists>c. parseCertificate L der = Some c \<and> certOf t der pub c))"

text \<open>Revocation lists: a list made from a template parses to the template's number and entries, its times
  are whole seconds, and it verifies under the issuer whose key signed it.\<close>

definition crlOk :: "'c golib \<Rightarrow> bool" where
  "crlOk L \<longleftrightarrow> (\<forall>r t p k der. createRevocationList L r t p k = Some der \<longrightarrow>
     (\<exists>c. parseRevocationList L der = Some c \<and> crlNumber c = crlNumber t
        \<and> ThisUpdate c = wholeSeconds (ThisUpdate t) \<and> NextUpdate c = wholeSeconds (NextUpdate t)
        \<and> map entrySerial (RevokedCertificateEntries c) = map entrySerial (RevokedCertificateEntries t)
        \<and> map ReasonCode (RevokedCertificateEntries c) = map ReasonCode (RevokedCertificateEntries t)
        \<and> (PublicKey p = ECDSAKey (publicOf L k) \<longrightarrow> crlCheckSignatureFrom L c p)))"

section \<open>JSON fields\<close>

lemma those_map_Some [simp]: "those (map (\<lambda>x. Some (f x)) xs) = Some (map f xs)"
  by (induction xs) auto

lemma those_map_inverse:
  "(\<And>x. x \<in> set xs \<Longrightarrow> dec (enc x) = Some x) \<Longrightarrow> those (map dec (map enc xs)) = Some xs"
  by (induction xs) auto

definition distinctKeys :: "(string \<times> json) list \<Rightarrow> bool" where
  "distinctKeys kvs \<longleftrightarrow> distinct (map (\<lambda>kv. map lowerChar (fst kv)) kvs)"

lemma filter_unique_key:
  assumes "distinct (map f xs)" "x \<in> set xs"
  shows "filter (\<lambda>y. f y = f x) xs = [x]"
  using assms by (induction xs) (auto simp: filter_empty_conv, metis imageI)

lemma jfields_distinct: "distinctKeys kvs \<Longrightarrow> (k, v) \<in> set kvs \<Longrightarrow> jfields k kvs = [v]"
  using filter_unique_key [of "\<lambda>kv. map lowerChar (fst kv)" kvs "(k, v)"]
  by (simp add: jfields_def distinctKeys_def)

lemma decField_value:
  "distinctKeys kvs \<Longrightarrow> (name, j) \<in> set kvs \<Longrightarrow> j \<noteq> JNull \<Longrightarrow> decField dec zero name kvs = dec j"
  by (simp add: decField_def jfields_distinct)

lemma decSlice_value:
  "distinctKeys kvs \<Longrightarrow> (name, j) \<in> set kvs \<Longrightarrow> decSlice dec name kvs = (if j = JNull then Some [] else dec j)"
  by (simp add: decSlice_def jfields_distinct)

lemma decSlice_encList:
  assumes "distinctKeys kvs" "(name, encList enc xs) \<in> set kvs"
    "\<And>x. x \<in> set xs \<Longrightarrow> enc x \<noteq> JNull" "\<And>x. x \<in> set xs \<Longrightarrow> dec (enc x) = Some x"
  shows "decSlice (decList dec zero) name kvs = Some xs"
proof -
  have "those (map (\<lambda>j. if j = JNull then Some zero else dec j) (map enc xs)) = Some xs"
    using assms(3,4) by (intro those_map_inverse) auto
  with assms(1,2) show ?thesis by (simp add: decSlice_value encList_def)
qed

lemma decSlice_encBytes:
  "distinctKeys kvs \<Longrightarrow> (name, encBytes L b) \<in> set kvs \<Longrightarrow> base64Ok L \<Longrightarrow> decSlice (decBytes L) name kvs = Some b"
  by (simp add: decSlice_value encBytes_def decBytes_def base64Ok_def)

lemma decUint64_enc [simp]: "decUint64 (JInt (uint n)) = Some n"
  using uint_bounded [of n] by simp

end
