(* ===== verification/Tables.thy ===== *)
theory Tables
  imports GoLib "HOL-Library.List_Lexorder" "HOL-Library.Char_ord"
begin

text \<open>
  The SQLite database of \<^verbatim>\<open>store.go\<close>: its five tables and the effect of each SQL statement the
  program executes on them. A table is the list of its rows in the order of insertion. A statement
  either runs as written here or fails and leaves the tables as they were; which of the two happens is
  decided by the callers in theory \<open>Store\<close>. \<^verbatim>\<open>ORDER BY\<close> is a stable sort. Text is compared byte by
  byte, and SQLite's \<^verbatim>\<open>lower\<close> changes ASCII letters only.

  The locale \<open>keyed_table\<close> is the contract of a table with a primary key; each table is an
  interpretation of it, and the well-formedness of the database (\<open>wf_store\<close>: every key occurs once)
  is kept by every statement.
\<close>

section \<open>Rows\<close>

record CertRecord =
  ID :: string
  crSubject :: string
  SANs :: string
  NotBefore :: time
  NotAfter :: time
  ClientPub :: string
  SerialHex :: string
  CertPEM :: string

record RevokedRecord =
  rvSerialHex :: string
  rvSubject :: string
  Reason :: int
  RevokedAt :: time

record BlockRecord =
  bIP :: string
  bReason :: string
  bAddedAt :: time

record ClientInfo =
  ciIP :: string
  ciAddedAt :: time

record store =
  stateTab :: "(string \<times> int) list"
  clientsTab :: "ClientInfo list"
  certsTab :: "CertRecord list"
  revokedTab :: "RevokedRecord list"
  blacklistTab :: "BlockRecord list"

section \<open>Tables with a primary key\<close>

text \<open>\<^verbatim>\<open>INSERT OR IGNORE\<close>, \<^verbatim>\<open>ON CONFLICT DO NOTHING\<close>\<close>

definition insIgnore :: "('r \<Rightarrow> 'k) \<Rightarrow> 'r \<Rightarrow> 'r list \<Rightarrow> 'r list" where
  "insIgnore key r rs = (if key r \<in> key ` set rs then rs else rs @ [r])"

text \<open>\<^verbatim>\<open>ON CONFLICT DO UPDATE\<close>: the row with the key is changed by \<open>upd\<close>, a new row is added
  otherwise.\<close>

definition upsert :: "('r \<Rightarrow> 'k) \<Rightarrow> ('r \<Rightarrow> 'r) \<Rightarrow> 'r \<Rightarrow> 'r list \<Rightarrow> 'r list" where
  "upsert key upd r rs =
     (if key r \<in> key ` set rs then map (\<lambda>x. if key x = key r then upd x else x) rs else rs @ [r])"

text \<open>\<^verbatim>\<open>INSERT OR REPLACE\<close>: the row with the key is deleted first.\<close>

definition insReplace :: "('r \<Rightarrow> 'k) \<Rightarrow> 'r \<Rightarrow> 'r list \<Rightarrow> 'r list" where
  "insReplace key r rs = filter (\<lambda>x. key x \<noteq> key r) rs @ [r]"

text \<open>\<^verbatim>\<open>DELETE ... WHERE key = ?\<close>\<close>

definition delKey :: "('r \<Rightarrow> 'k) \<Rightarrow> 'k \<Rightarrow> 'r list \<Rightarrow> 'r list" where
  "delKey key k rs = filter (\<lambda>x. key x \<noteq> k) rs"

definition getKey :: "('r \<Rightarrow> 'k) \<Rightarrow> 'k \<Rightarrow> 'r list \<Rightarrow> 'r option" where
  "getKey key k rs = find (\<lambda>x. key x = k) rs"

definition keyed :: "('r \<Rightarrow> 'k) \<Rightarrow> 'r list \<Rightarrow> bool" where
  "keyed key rs \<longleftrightarrow> distinct (map key rs)"

text \<open>The contract of a keyed table: the invariant, and what a lookup finds after each statement.\<close>

locale keyed_table =
  fixes key :: "'r \<Rightarrow> 'k"
    and insI :: "'r \<Rightarrow> 'r list \<Rightarrow> 'r list"
    and insR :: "'r \<Rightarrow> 'r list \<Rightarrow> 'r list"
    and del :: "'k \<Rightarrow> 'r list \<Rightarrow> 'r list"
    and get :: "'k \<Rightarrow> 'r list \<Rightarrow> 'r option"
    and inv :: "'r list \<Rightarrow> bool"
  assumes inv_empty: "inv []"
    and inv_insI: "inv rs \<Longrightarrow> inv (insI r rs)"
    and inv_insR: "inv rs \<Longrightarrow> inv (insR r rs)"
    and inv_del: "inv rs \<Longrightarrow> inv (del k rs)"
    and get_empty: "get k [] = None"
    and get_insI: "get k (insI r rs) =
      (case get k rs of Some x \<Rightarrow> Some x | None \<Rightarrow> if k = key r then Some r else None)"
    and get_insR: "get k (insR r rs) = (if k = key r then Some r else get k rs)"
    and get_del: "get k (del k' rs) = (if k = k' then None else get k rs)"
begin

definition keys :: "'r list \<Rightarrow> 'k set" where
  "keys rs = {k. get k rs \<noteq> None}"

lemma keys_empty: "keys [] = {}"
  by (simp add: keys_def get_empty)

lemma keys_insI: "keys (insI r rs) = insert (key r) (keys rs)"
  by (auto simp: keys_def get_insI split: option.splits)

lemma keys_insR: "keys (insR r rs) = insert (key r) (keys rs)"
  by (auto simp: keys_def get_insR)

lemma keys_del: "keys (del k rs) = keys rs - {k}"
  by (auto simp: keys_def get_del)

lemma insI_keeps: "get k rs = Some x \<Longrightarrow> get k (insI r rs) = Some x"
  by (simp add: get_insI)

lemma inv_fold_insR: "inv rs \<Longrightarrow> inv (fold insR xs rs)"
  by (induction xs arbitrary: rs) (auto simp: inv_insR)

lemma inv_fold_insI: "inv rs \<Longrightarrow> inv (fold insI xs rs)"
  by (induction xs arbitrary: rs) (auto simp: inv_insI)

lemma keys_fold_insR: "keys (fold insR xs rs) = key ` set xs \<union> keys rs"
  by (induction xs arbitrary: rs) (auto simp: keys_insR)

lemma keys_fold_insI: "keys (fold insI xs rs) = key ` set xs \<union> keys rs"
  by (induction xs arbitrary: rs) (auto simp: keys_insI)

end

subsection \<open>The tables implement the contract\<close>

lemma getKey_append:
  "getKey key k (xs @ ys) = (case getKey key k xs of Some x \<Rightarrow> Some x | None \<Rightarrow> getKey key k ys)"
  by (induction xs) (auto simp: getKey_def)

lemma getKey_None: "getKey key k rs = None \<longleftrightarrow> k \<notin> key ` set rs"
  by (auto simp: getKey_def find_None_iff)

lemma getKey_Some: "getKey key k rs = Some x \<Longrightarrow> x \<in> set rs \<and> key x = k"
  by (auto simp: getKey_def dest: find_SomeD)

lemma getKey_filter_other: "k \<noteq> k' \<Longrightarrow> getKey key k (filter (\<lambda>x. key x \<noteq> k') rs) = getKey key k rs"
  by (induction rs) (auto simp: getKey_def)

lemma getKey_mem: "keyed key rs \<Longrightarrow> x \<in> set rs \<Longrightarrow> getKey key (key x) rs = Some x"
  by (induction rs) (auto simp: getKey_def keyed_def)

lemma getKey_single: "getKey key k [r] = (if key r = k then Some r else None)"
  by (simp add: getKey_def)

lemma keyed_table_insIgnore:
  "keyed_table key (insIgnore key) (insReplace key) (delKey key) (getKey key) (keyed key)"
proof
  fix rs r k k'
  show "keyed key []" by (simp add: keyed_def)
  show "keyed key rs \<Longrightarrow> keyed key (insIgnore key r rs)"
    by (auto simp: keyed_def insIgnore_def)
  show "keyed key rs \<Longrightarrow> keyed key (insReplace key r rs)"
    by (auto simp: keyed_def insReplace_def distinct_map inj_on_def)
  show "keyed key rs \<Longrightarrow> keyed key (delKey key k rs)"
    by (auto simp: keyed_def delKey_def distinct_map inj_on_def)
  show "getKey key k [] = None" by (simp add: getKey_def)
  show "getKey key k (insIgnore key r rs) =
      (case getKey key k rs of None \<Rightarrow> if k = key r then Some r else None | Some x \<Rightarrow> Some x)"
  proof (cases "key r \<in> key ` set rs")
    case True
    then have "getKey key (key r) rs \<noteq> None" by (simp add: getKey_None)
    with True show ?thesis by (auto simp: insIgnore_def split: option.splits)
  next
    case False
    then show ?thesis
      by (auto simp: insIgnore_def getKey_append getKey_single split: option.splits)
  qed
  show "getKey key k (insReplace key r rs) = (if k = key r then Some r else getKey key k rs)"
  proof (cases "k = key r")
    case True
    have "getKey key k (filter (\<lambda>x. key x \<noteq> key r) rs) = None"
      using True by (auto simp: getKey_None)
    with True show ?thesis by (simp add: insReplace_def getKey_append getKey_single)
  next
    case False
    then show ?thesis
      by (auto simp: insReplace_def getKey_append getKey_filter_other getKey_single split: option.splits)
  qed
  show "getKey key k (delKey key k' rs) = (if k = k' then None else getKey key k rs)"
    by (auto simp: delKey_def getKey_None getKey_filter_other)
qed

interpretation clientsT: keyed_table ciIP "insIgnore ciIP" "insReplace ciIP" "delKey ciIP" "getKey ciIP" "keyed ciIP"
  by (rule keyed_table_insIgnore)

interpretation certsT: keyed_table ID "insIgnore ID" "insReplace ID" "delKey ID" "getKey ID" "keyed ID"
  by (rule keyed_table_insIgnore)

interpretation revokedT: keyed_table rvSerialHex "insIgnore rvSerialHex" "insReplace rvSerialHex"
    "delKey rvSerialHex" "getKey rvSerialHex" "keyed rvSerialHex"
  by (rule keyed_table_insIgnore)

interpretation blacklistT: keyed_table bIP "insIgnore bIP" "insReplace bIP" "delKey bIP" "getKey bIP" "keyed bIP"
  by (rule keyed_table_insIgnore)

lemma keyed_upsert:
  assumes "keyed key rs" "\<And>x. key (upd x) = key x"
  shows "keyed key (upsert key upd r rs)"
proof -
  have "map key (map (\<lambda>x. if key x = key r then upd x else x) rs) = map key rs"
    using assms(2) by (induction rs) auto
  with assms(1) show ?thesis by (auto simp: keyed_def upsert_def simp del: map_map)
qed

section \<open>The statements of the program\<close>

definition maxInteger :: int where
  "maxInteger = 2 ^ 63 - 1"

text \<open>\<^verbatim>\<open>value+1\<close> in SQLite: an INTEGER until it would exceed 64 bits; from then on a REAL, which is too
  large to be changed by adding one.\<close>

definition sqlSucc :: "int \<Rightarrow> int" where
  "sqlSucc v = (if v < maxInteger then v + 1 else max v (2 ^ 63))"

definition stateGet :: "string \<Rightarrow> store \<Rightarrow> int option" where
  "stateGet k s = map_option snd (getKey fst k (stateTab s))"

definition stateUpsert :: "string \<Rightarrow> (int \<Rightarrow> int) \<Rightarrow> int \<Rightarrow> store \<Rightarrow> store" where
  "stateUpsert k f v s = s\<lparr>stateTab := upsert fst (\<lambda>(x, y). (x, f y)) (k, v) (stateTab s)\<rparr>"

definition stateUpdate :: "string \<Rightarrow> (int \<Rightarrow> int) \<Rightarrow> store \<Rightarrow> store" where
  "stateUpdate k f s = s\<lparr>stateTab := map (\<lambda>(x, y). if x = k then (x, f y) else (x, y)) (stateTab s)\<rparr>"

definition sqlMigrate :: "store \<Rightarrow> store" where
  "sqlMigrate s = s\<lparr>stateTab := insIgnore fst (''cache_sequence'', 0) (stateTab s)\<rparr>"

definition emptyStore :: store where
  "emptyStore = \<lparr>stateTab = [], clientsTab = [], certsTab = [], revokedTab = [], blacklistTab = []\<rparr>"

definition sqlInsertClient :: "string \<Rightarrow> time \<Rightarrow> store \<Rightarrow> store" where
  "sqlInsertClient ip t s =
     s\<lparr>clientsTab := insIgnore ciIP \<lparr>ciIP = ip, ciAddedAt = wholeSeconds t\<rparr> (clientsTab s)\<rparr>"

definition sqlDeleteClient :: "string \<Rightarrow> store \<Rightarrow> store" where
  "sqlDeleteClient ip s = s\<lparr>clientsTab := delKey ciIP ip (clientsTab s)\<rparr>"

definition sqlUpsertCert :: "CertRecord \<Rightarrow> store \<Rightarrow> store" where
  "sqlUpsertCert rec s = s\<lparr>certsTab := upsert ID (\<lambda>_. rec) rec (certsTab s)\<rparr>"

definition sqlInsertRevoked :: "string \<Rightarrow> string \<Rightarrow> int \<Rightarrow> time \<Rightarrow> store \<Rightarrow> store" where
  "sqlInsertRevoked serial subject reason t s =
     s\<lparr>revokedTab := insIgnore rvSerialHex
        \<lparr>rvSerialHex = serial, rvSubject = subject, Reason = reason, RevokedAt = wholeSeconds t\<rparr>
        (revokedTab s)\<rparr>"

definition sqlUpsertBlock :: "string \<Rightarrow> string \<Rightarrow> time \<Rightarrow> store \<Rightarrow> store" where
  "sqlUpsertBlock ip reason t s =
     s\<lparr>blacklistTab := upsert bIP (\<lambda>b. b\<lparr>bReason := reason\<rparr>)
        \<lparr>bIP = ip, bReason = reason, bAddedAt = wholeSeconds t\<rparr> (blacklistTab s)\<rparr>"

definition sqlDeleteBlock :: "string \<Rightarrow> store \<Rightarrow> store" where
  "sqlDeleteBlock ip s = s\<lparr>blacklistTab := delKey bIP ip (blacklistTab s)\<rparr>"

definition asciiLower :: "string \<Rightarrow> string" where
  "asciiLower s = map lowerChar s"

text \<open>\<^verbatim>\<open>INSERT INTO revoked SELECT ... FROM certs WHERE lower(subject)=lower(?) AND serial_hex<>?
  ON CONFLICT DO NOTHING\<close>\<close>

definition sqlRevokeOthers :: "string \<Rightarrow> string \<Rightarrow> int \<Rightarrow> time \<Rightarrow> store \<Rightarrow> store" where
  "sqlRevokeOthers subject serial reason t s =
     fold (\<lambda>c. sqlInsertRevoked (SerialHex c) (crSubject c) reason t)
       (filter (\<lambda>c. asciiLower (crSubject c) = asciiLower subject \<and> SerialHex c \<noteq> serial) (certsTab s)) s"

section \<open>The well-formed database\<close>

definition wf_store :: "store \<Rightarrow> bool" where
  "wf_store s \<longleftrightarrow> keyed fst (stateTab s) \<and> keyed ciIP (clientsTab s) \<and> keyed ID (certsTab s)
     \<and> keyed rvSerialHex (revokedTab s) \<and> keyed bIP (blacklistTab s)"

lemmas sql_defs = stateUpsert_def stateUpdate_def sqlMigrate_def sqlInsertClient_def
  sqlDeleteClient_def sqlUpsertCert_def sqlInsertRevoked_def sqlUpsertBlock_def sqlDeleteBlock_def

lemma keyed_insIgnore: "keyed key rs \<Longrightarrow> keyed key (insIgnore key r rs)"
  by (rule keyed_table.inv_insI [OF keyed_table_insIgnore])

lemma keyed_insReplace: "keyed key rs \<Longrightarrow> keyed key (insReplace key r rs)"
  by (rule keyed_table.inv_insR [OF keyed_table_insIgnore])

lemma keyed_delKey: "keyed key rs \<Longrightarrow> keyed key (delKey key k rs)"
  by (rule keyed_table.inv_del [OF keyed_table_insIgnore])

lemma keyed_upsert_all: "keyed key rs \<Longrightarrow> keyed key (upsert key (\<lambda>_. r) r rs)"
proof -
  assume k: "keyed key rs"
  have "map key (map (\<lambda>x. if key x = key r then r else x) rs) = map key rs"
    by (induction rs) auto
  with k show ?thesis by (auto simp: keyed_def upsert_def simp del: map_map)
qed

lemmas keyed_statements = keyed_insIgnore keyed_insReplace keyed_delKey keyed_upsert keyed_upsert_all

lemma wf_emptyStore: "wf_store emptyStore"
  by (simp add: wf_store_def emptyStore_def keyed_def)

lemma wf_sqlMigrate: "wf_store s \<Longrightarrow> wf_store (sqlMigrate s)"
  by (simp add: wf_store_def sql_defs keyed_statements)

lemma wf_stateUpsert: "wf_store s \<Longrightarrow> wf_store (stateUpsert k f v s)"
  by (auto simp: wf_store_def sql_defs intro!: keyed_upsert)

lemma wf_stateUpdate: "wf_store s \<Longrightarrow> wf_store (stateUpdate k f s)"
proof -
  assume "wf_store s"
  moreover have "map fst (map (\<lambda>(x, y). if x = k then (x, f y) else (x, y)) xs) = map fst xs" for xs
    by (induction xs) auto
  ultimately show ?thesis by (simp add: wf_store_def sql_defs keyed_def del: map_map)
qed

lemma wf_sqlInsertClient: "wf_store s \<Longrightarrow> wf_store (sqlInsertClient ip t s)"
  by (simp add: wf_store_def sql_defs keyed_statements)

lemma wf_sqlDeleteClient: "wf_store s \<Longrightarrow> wf_store (sqlDeleteClient ip s)"
  by (simp add: wf_store_def sql_defs keyed_statements)

lemma wf_sqlUpsertCert: "wf_store s \<Longrightarrow> wf_store (sqlUpsertCert rec s)"
  by (simp add: wf_store_def sql_defs keyed_statements)

lemma wf_sqlInsertRevoked: "wf_store s \<Longrightarrow> wf_store (sqlInsertRevoked x y r t s)"
  by (simp add: wf_store_def sql_defs keyed_statements)

lemma wf_sqlUpsertBlock: "wf_store s \<Longrightarrow> wf_store (sqlUpsertBlock ip r t s)"
  by (auto simp: wf_store_def sql_defs intro!: keyed_upsert)

lemma wf_sqlDeleteBlock: "wf_store s \<Longrightarrow> wf_store (sqlDeleteBlock ip s)"
  by (simp add: wf_store_def sql_defs keyed_statements)

lemma wf_sqlRevokeOthers: "wf_store s \<Longrightarrow> wf_store (sqlRevokeOthers x y r t s)"
proof -
  have "wf_store u \<Longrightarrow> wf_store (fold (\<lambda>c. sqlInsertRevoked (SerialHex c) (crSubject c) r t) cs u)" for cs u
    by (induction cs arbitrary: u) (auto simp: wf_sqlInsertRevoked)
  then show "wf_store s \<Longrightarrow> ?thesis" by (simp add: sqlRevokeOthers_def)
qed

lemmas wf_statements = wf_sqlMigrate wf_stateUpsert wf_stateUpdate wf_sqlInsertClient
  wf_sqlDeleteClient wf_sqlUpsertCert wf_sqlInsertRevoked wf_sqlUpsertBlock wf_sqlDeleteBlock
  wf_sqlRevokeOthers

section \<open>Observations of the database\<close>

definition revokedKeys :: "store \<Rightarrow> string set" where
  "revokedKeys s = rvSerialHex ` set (revokedTab s)"

definition blockedKeys :: "store \<Rightarrow> string set" where
  "blockedKeys s = bIP ` set (blacklistTab s)"

definition clientKeys :: "store \<Rightarrow> string set" where
  "clientKeys s = ciIP ` set (clientsTab s)"

lemmas key_defs = revokedKeys_def blockedKeys_def clientKeys_def

lemma image_insIgnore: "key ` set (insIgnore key r rs) = insert (key r) (key ` set rs)"
  by (auto simp: insIgnore_def)

lemma image_insReplace: "key ` set (insReplace key r rs) = insert (key r) (key ` set rs)"
  by (auto simp: insReplace_def)

lemma image_delKey: "key ` set (delKey key k rs) = key ` set rs - {k}"
  by (auto simp: delKey_def)

lemma image_upsert: "(\<And>x. key (upd x) = key x) \<Longrightarrow> key ` set (upsert key upd r rs) = insert (key r) (key ` set rs)"
proof -
  assume k: "\<And>x. key (upd x) = key x"
  have "key ` set (map (\<lambda>x. if key x = key r then upd x else x) rs) = key ` set rs"
    using k by (induction rs) auto
  then show ?thesis by (auto simp: upsert_def simp del: set_map)
qed

lemma sql_keys [simp]:
  "revokedKeys (sqlInsertRevoked serial subj reason t s) = insert serial (revokedKeys s)"
  "blockedKeys (sqlUpsertBlock ip why t s) = insert ip (blockedKeys s)"
  "blockedKeys (sqlDeleteBlock ip s) = blockedKeys s - {ip}"
  "clientKeys (sqlInsertClient ip t s) = insert ip (clientKeys s)"
  "clientKeys (sqlDeleteClient ip s) = clientKeys s - {ip}"
  by (simp_all add: key_defs sql_defs image_insIgnore image_delKey image_upsert)

lemma sql_frames [simp]:
  "blockedKeys (sqlInsertRevoked serial subj reason t s) = blockedKeys s"
  "clientKeys (sqlInsertRevoked serial subj reason t s) = clientKeys s"
  "revokedKeys (sqlUpsertBlock ip why t s) = revokedKeys s"
  "clientKeys (sqlUpsertBlock ip why t s) = clientKeys s"
  "revokedKeys (sqlDeleteBlock ip s) = revokedKeys s"
  "clientKeys (sqlDeleteBlock ip s) = clientKeys s"
  "revokedKeys (sqlInsertClient ip t s) = revokedKeys s"
  "blockedKeys (sqlInsertClient ip t s) = blockedKeys s"
  "revokedKeys (sqlDeleteClient ip s) = revokedKeys s"
  "blockedKeys (sqlDeleteClient ip s) = blockedKeys s"
  "revokedKeys (sqlUpsertCert c s) = revokedKeys s"
  "blockedKeys (sqlUpsertCert c s) = blockedKeys s"
  "clientKeys (sqlUpsertCert c s) = clientKeys s"
  "revokedKeys (stateUpsert k f v s) = revokedKeys s"
  "blockedKeys (stateUpsert k f v s) = blockedKeys s"
  "clientKeys (stateUpsert k f v s) = clientKeys s"
  "revokedKeys (stateUpdate k f s) = revokedKeys s"
  "blockedKeys (stateUpdate k f s) = blockedKeys s"
  "clientKeys (stateUpdate k f s) = clientKeys s"
  "revokedKeys (sqlMigrate s) = revokedKeys s"
  "blockedKeys (sqlMigrate s) = blockedKeys s"
  "clientKeys (sqlMigrate s) = clientKeys s"
  by (simp_all add: key_defs sql_defs)

lemma stateGet_stateUpsert:
  "stateGet k (stateUpsert k' f v s) =
     (if k = k' then Some (case stateGet k s of None \<Rightarrow> v | Some x \<Rightarrow> f x) else stateGet k s)"
proof -
  have "map_option snd (getKey fst k (map (\<lambda>x. if fst x = k' then case x of (a, y) \<Rightarrow> (a, f y) else x) xs)) =
      (if k = k' then map_option f (map_option snd (getKey fst k xs)) else map_option snd (getKey fst k xs))"
    for xs :: "(string \<times> int) list"
    by (induction xs) (auto simp: getKey_def)
  note upd = this [of "stateTab s"]
  show ?thesis
  proof (cases "k' \<in> fst ` set (stateTab s)")
    case True
    then obtain x where "getKey fst k' (stateTab s) = Some x"
      using getKey_None [of fst k' "stateTab s"] by (cases "getKey fst k' (stateTab s)") auto
    with True upd show ?thesis by (simp add: stateGet_def stateUpsert_def upsert_def)
  next
    case False
    then have "getKey fst k' (stateTab s) = None" by (simp add: getKey_None)
    with False show ?thesis
      by (auto simp: stateGet_def stateUpsert_def upsert_def getKey_append getKey_single
          split: option.splits)
  qed
qed

lemma stateGet_stateUpdate:
  "stateGet k (stateUpdate k' f s) = (if k = k' then map_option f (stateGet k s) else stateGet k s)"
proof -
  have "map_option snd (getKey fst k (map (\<lambda>(x, y). if x = k' then (x, f y) else (x, y)) xs)) =
      (if k = k' then map_option f (map_option snd (getKey fst k xs)) else map_option snd (getKey fst k xs))"
    for xs :: "(string \<times> int) list"
    by (induction xs) (auto simp: getKey_def)
  then show ?thesis by (simp add: stateGet_def stateUpdate_def)
qed

lemma stateGet_frames [simp]:
  "stateGet k (sqlInsertClient ip t s) = stateGet k s"
  "stateGet k (sqlDeleteClient ip s) = stateGet k s"
  "stateGet k (sqlUpsertCert c s) = stateGet k s"
  "stateGet k (sqlInsertRevoked x y r t s) = stateGet k s"
  "stateGet k (sqlUpsertBlock ip why t s) = stateGet k s"
  "stateGet k (sqlDeleteBlock ip s) = stateGet k s"
  by (simp_all add: stateGet_def sql_defs)

lemma sqlRevokeOthers_keys:
  "revokedKeys (sqlRevokeOthers subject serial reason t s) = revokedKeys s \<union>
     {SerialHex c | c. c \<in> set (certsTab s) \<and> asciiLower (crSubject c) = asciiLower subject \<and> SerialHex c \<noteq> serial}"
proof -
  have "revokedKeys (fold (\<lambda>c. sqlInsertRevoked (SerialHex c) (crSubject c) reason t) cs u)
      = revokedKeys u \<union> SerialHex ` set cs" for cs u
    by (induction cs arbitrary: u) auto
  then show ?thesis by (auto simp: sqlRevokeOthers_def)
qed

lemma sqlRevokeOthers_frames [simp]:
  "blockedKeys (sqlRevokeOthers subject serial reason t s) = blockedKeys s"
  "clientKeys (sqlRevokeOthers subject serial reason t s) = clientKeys s"
  "certsTab (sqlRevokeOthers subject serial reason t s) = certsTab s"
  "stateGet k (sqlRevokeOthers subject serial reason t s) = stateGet k s"
proof -
  have "blockedKeys (fold (\<lambda>c. sqlInsertRevoked (SerialHex c) (crSubject c) reason t) cs u) = blockedKeys u
    \<and> clientKeys (fold (\<lambda>c. sqlInsertRevoked (SerialHex c) (crSubject c) reason t) cs u) = clientKeys u
    \<and> certsTab (fold (\<lambda>c. sqlInsertRevoked (SerialHex c) (crSubject c) reason t) cs u) = certsTab u
    \<and> stateGet k (fold (\<lambda>c. sqlInsertRevoked (SerialHex c) (crSubject c) reason t) cs u) = stateGet k u" for cs u
    by (induction cs arbitrary: u) (auto, simp add: sqlInsertRevoked_def)
  then show
    "blockedKeys (sqlRevokeOthers subject serial reason t s) = blockedKeys s"
    "clientKeys (sqlRevokeOthers subject serial reason t s) = clientKeys s"
    "certsTab (sqlRevokeOthers subject serial reason t s) = certsTab s"
    "stateGet k (sqlRevokeOthers subject serial reason t s) = stateGet k s"
    by (auto simp: sqlRevokeOthers_def)
qed

end
