(* ===== verification/World.thy ===== *)
theory World
  imports Tables
begin

text \<open>
  The node a NATSSL process runs on (\<open>world\<close>): its file system, its databases, the locks it holds and
  its log, the requests it sent, and the environment it cannot control: which system call fails (\<open>faults\<close>), what the clock
  shows (\<open>clock\<close>), what the random source gives (\<open>rnd\<close>), and what comes back from the network
  (\<open>net\<close>). The environment is a set of schedules read at the position \<open>step\<close>, which advances with every
  call that depends on it, so a theorem about all worlds is a theorem about every pattern of
  failures, times and replies.

  On it, the file operations of \<^verbatim>\<open>files.go\<close>. \<open>fsTrace\<close> records every state the file system
  goes through: what a concurrent reader, or the process after a crash, can find. The main fact is
  that \<open>atomicWriteFile\<close> replaces a file in one step.
\<close>

section \<open>Errors\<close>

datatype error =
    NotExist
  | IOErr
  | Deadlock
  | Panic
  | Msg string
  | Wrap string error
  | Join error error

section \<open>The world\<close>

datatype fsnode = File bytes nat | Dir nat

type_synonym filesys = "string \<Rightarrow> fsnode option"

text \<open>Permission bits: \<^verbatim>\<open>0o600\<close>, \<^verbatim>\<open>0o644\<close>, \<^verbatim>\<open>0o700\<close>, \<^verbatim>\<open>0o755\<close>.\<close>

definition o600 :: nat where "o600 = 6 * 64"
definition o644 :: nat where "o644 = 6 * 64 + 4 * 8 + 4"
definition o700 :: nat where "o700 = 7 * 64"
definition o755 :: nat where "o755 = 7 * 64 + 5 * 8 + 5"

datatype netReply = NetFail | NetReply "bytes list" nat bytes

text \<open>A request as it leaves the node: the chain of the server it goes to, the chain of the client certificate
  it is made with, the token header and the body.\<close>

record outRequest =
  outPeer :: "bytes list"
  outMethod :: string
  outURL :: string
  outToken :: string
  outIdentity :: "bytes list"
  outBody :: bytes

record world =
  fs :: filesys
  fsTrace :: "filesys list"
  dbs :: "string \<Rightarrow> store option"
  held :: "string list"
  logs :: "string list"
  sent :: "outRequest list"
  step :: nat
  faults :: "nat \<Rightarrow> bool"
  clock :: "nat \<Rightarrow> time"
  rnd :: "nat \<Rightarrow> nat"
  net :: "nat \<Rightarrow> netReply"

type_synonym 'a io = "(world, error, 'a) prog"

section \<open>The environment\<close>

definition tick :: "(world, 'e, nat) prog" where
  "tick = (\<lambda>w. (Inr (step w), w\<lparr>step := Suc (step w)\<rparr>))"

definition mayFail :: "'e \<Rightarrow> (world, 'e, unit) prog" where
  "mayFail e = bnd tick (\<lambda>n. bnd (gets faults) (\<lambda>f. guardE (\<not> f n) e))"

definition noFaults :: "world \<Rightarrow> bool" where
  "noFaults w \<longleftrightarrow> (\<forall>n. \<not> faults w n)"

definition timeNow :: "(world, 'e, time) prog" where
  "timeNow = bnd tick (\<lambda>n. gets (\<lambda>w. clock w n))"

definition random :: "(world, 'e, nat) prog" where
  "random = bnd tick (\<lambda>n. gets (\<lambda>w. rnd w n))"

definition logPrint :: "string \<Rightarrow> (world, 'e, unit) prog" where
  "logPrint m = modify (\<lambda>w. w\<lparr>logs := logs w @ [m]\<rparr>)"

section \<open>Paths\<close>

text \<open>\<^verbatim>\<open>filepath.Clean\<close>, \<^verbatim>\<open>filepath.Dir\<close> and \<^verbatim>\<open>filepath.Join\<close> on Unix.\<close>

fun cleanElems :: "bool \<Rightarrow> string list \<Rightarrow> string list \<Rightarrow> string list" where
  "cleanElems rooted out [] = out"
| "cleanElems rooted out (e # es) =
     (if e = '''' \<or> e = ''.'' then cleanElems rooted out es
      else if e = ''..'' then
        (if out \<noteq> [] \<and> last out \<noteq> ''..'' then cleanElems rooted (butlast out) es
         else if rooted then cleanElems rooted out es
         else cleanElems rooted (out @ [''..'']) es)
      else cleanElems rooted (out @ [e]) es)"

definition filepathClean :: "string \<Rightarrow> string" where
  "filepathClean p =
     (if p = '''' then ''.''
      else let rooted = (hd p = CHR ''/'');
               out = joinWith ''/'' (cleanElems rooted [] (splitOn CHR ''/'' p))
           in if rooted then ''/'' @ out else if out = '''' then ''.'' else out)"

definition filepathDir :: "string \<Rightarrow> string" where
  "filepathDir p = filepathClean (rev (dropWhile (\<lambda>c. c \<noteq> CHR ''/'') (rev p)))"

definition filepathJoin :: "string \<Rightarrow> string \<Rightarrow> string" where
  "filepathJoin a b =
     (if a \<noteq> '''' then filepathClean (a @ ''/'' @ b) else if b \<noteq> '''' then filepathClean b else '''')"

definition baseName :: "string \<Rightarrow> string" where
  "baseName p = rev (takeWhile (\<lambda>c. c \<noteq> CHR ''/'') (rev p))"

section \<open>The file system\<close>

definition setFs :: "(filesys \<Rightarrow> filesys) \<Rightarrow> (world, 'e, unit) prog" where
  "setFs f = modify (\<lambda>w. w\<lparr>fs := f (fs w), fsTrace := fsTrace w @ [f (fs w)]\<rparr>)"

definition isDir :: "filesys \<Rightarrow> string \<Rightarrow> bool" where
  "isDir F p \<longleftrightarrow> p = ''/'' \<or> p = ''.'' \<or> (\<exists>m. F p = Some (Dir m))"

lemma isDir_code [code]:
  "isDir F p = (p = ''/'' \<or> p = ''.'' \<or> (case F p of Some (Dir m) \<Rightarrow> True | _ \<Rightarrow> False))"
  by (auto simp: isDir_def split: option.splits fsnode.splits)

definition osReadFile :: "string \<Rightarrow> bytes io" where
  "osReadFile p = bnd (mayFail IOErr) (\<lambda>_. bnd (gets fs) (\<lambda>F.
     case F p of
       None \<Rightarrow> throw NotExist
     | Some (Dir _) \<Rightarrow> throw IOErr
     | Some (File b _) \<Rightarrow> ret b))"

definition osStat :: "string \<Rightarrow> unit io" where
  "osStat p = bnd (mayFail IOErr) (\<lambda>_. bnd (gets fs) (\<lambda>F.
     if F p = None \<and> \<not> isDir F p then throw NotExist else ret ()))"

text \<open>The directories above a path, outermost first, and the path itself.\<close>

fun pathPrefixes :: "string \<Rightarrow> string list \<Rightarrow> string list" where
  "pathPrefixes pre [] = []"
| "pathPrefixes pre (e # es) =
     (if e = '''' then pathPrefixes pre es
      else (pre @ e) # pathPrefixes (pre @ e @ ''/'') es)"

definition dirChain :: "string \<Rightarrow> string list" where
  "dirChain p = pathPrefixes (if p \<noteq> '''' \<and> hd p = CHR ''/'' then ''/'' else '''') (splitOn CHR ''/'' p)"

definition osMkdirAll :: "string \<Rightarrow> nat \<Rightarrow> unit io" where
  "osMkdirAll p mode = bnd (mayFail IOErr) (\<lambda>_. bnd (gets fs) (\<lambda>F.
     if list_ex (\<lambda>d. case F d of Some (File _ _) \<Rightarrow> True | _ \<Rightarrow> False) (dirChain p) then throw IOErr
     else forEach (dirChain p) (\<lambda>d. bnd (gets fs) (\<lambda>F.
            if isDir F d then ret () else setFs (\<lambda>F. F(d \<mapsto> Dir mode))))))"

definition osRemove :: "string \<Rightarrow> unit io" where
  "osRemove p = bnd (mayFail IOErr) (\<lambda>_. bnd (gets fs) (\<lambda>F.
     if F p = None then throw NotExist else setFs (\<lambda>F. F(p := None))))"

text \<open>\<^verbatim>\<open>os.CreateTemp(dir, ".natssl-*")\<close>: a new file whose name ends in a random number. A name that
  already exists is never used.\<close>

definition tempName :: "string \<Rightarrow> nat \<Rightarrow> string" where
  "tempName dir n = dir @ ''/.natssl-'' @ decOfNat n"

definition isTempName :: "string \<Rightarrow> bool" where
  "isTempName p \<longleftrightarrow> startsWith ''.natssl-'' (baseName p) \<and> list_all (\<lambda>c. decVal c \<noteq> None) (drop 8 (baseName p))"

definition osCreateTemp :: "string \<Rightarrow> string io" where
  "osCreateTemp dir = bnd (mayFail IOErr) (\<lambda>_. bnd random (\<lambda>n. bnd (gets fs) (\<lambda>F.
     if \<not> isDir F dir \<or> F (tempName dir n) \<noteq> None then throw IOErr
     else bnd (setFs (\<lambda>F. F(tempName dir n \<mapsto> File '''' o600))) (\<lambda>_. ret (tempName dir n)))))"

definition fileChmod :: "string \<Rightarrow> nat \<Rightarrow> unit io" where
  "fileChmod p mode = bnd (mayFail IOErr) (\<lambda>_. setFs (\<lambda>F.
     case F p of Some (File b _) \<Rightarrow> F(p \<mapsto> File b mode) | _ \<Rightarrow> F))"

text \<open>A write that fails may have written a part of the data.\<close>

definition fileWrite :: "string \<Rightarrow> bytes \<Rightarrow> unit io" where
  "fileWrite p data = bnd (attempt (mayFail IOErr)) (\<lambda>r. bnd random (\<lambda>n.
     let part = (case r of Inl _ \<Rightarrow> take n data | Inr _ \<Rightarrow> data) in
     bnd (setFs (\<lambda>F. case F p of Some (File b m) \<Rightarrow> F(p \<mapsto> File (b @ part) m) | _ \<Rightarrow> F)) (\<lambda>_.
     lift r)))"

definition osRename :: "string \<Rightarrow> string \<Rightarrow> unit io" where
  "osRename p q = bnd (mayFail IOErr) (\<lambda>_. bnd (gets fs) (\<lambda>F.
     if F p = None then throw NotExist
     else if isDir F q then throw IOErr
     else setFs (\<lambda>F. F(q := F p, p := None))))"

text \<open>\<^verbatim>\<open>atomicWriteFile\<close>\<close>

definition atomicWriteFile :: "string \<Rightarrow> bytes \<Rightarrow> nat \<Rightarrow> unit io" where
  "atomicWriteFile path data mode =
     bnd (osCreateTemp (filepathDir path)) (\<lambda>f.
     deferred (osRemove f) (
     bnd (fileChmod f mode) (\<lambda>_.
     bnd (fileWrite f data) (\<lambda>_.
     bnd (mayFail IOErr) (\<lambda>_.
     bnd (mayFail IOErr) (\<lambda>_.
     osRename f path))))))"

text \<open>\<^verbatim>\<open>lockFile\<close>: the lock file is created if it is missing; a second lock on a file this process
  already holds would wait for ever. \<open>withLock\<close> is the lock with its deferred release.\<close>

definition lockFile :: "string \<Rightarrow> unit io" where
  "lockFile path = bnd (mayFail IOErr) (\<lambda>_. bnd (gets fs) (\<lambda>F.
     if isDir F path \<or> \<not> isDir F (filepathDir path) then throw IOErr
     else bnd (if F path = None then setFs (\<lambda>F. F(path \<mapsto> File '''' o600)) else ret ()) (\<lambda>_.
     bnd (mayFail IOErr) (\<lambda>_.
     bnd (gets held) (\<lambda>h.
     if path \<in> set h then throw Deadlock
     else modify (\<lambda>w. w\<lparr>held := path # held w\<rparr>))))))"

definition unlockFile :: "string \<Rightarrow> unit io" where
  "unlockFile path = modify (\<lambda>w. w\<lparr>held := removeAll path (held w)\<rparr>)"

definition withLock :: "string \<Rightarrow> 'a io \<Rightarrow> 'a io" where
  "withLock path m = bnd (lockFile path) (\<lambda>_. deferred (unlockFile path) m)"

definition maxBody :: nat where
  "maxBody = 2 ^ 20"

definition readBounded :: "bytes \<Rightarrow> bytes io" where
  "readBounded body = bnd (mayFail IOErr) (\<lambda>_.
     if length body > maxBody then throw (Msg ''body exceeds 1 MiB'') else ret body)"

section \<open>What the steps leave alone\<close>

text \<open>
  \<open>quiet R\<close>: \<open>R\<close> does not see the position in the schedules or the log. \<open>fileBlind R\<close>: it does not
  see files and locks either. \<open>untouched p\<close>: the file at \<open>p\<close> is the same in every file system state
  passed through.
\<close>

definition quiet :: "(world \<Rightarrow> world \<Rightarrow> bool) \<Rightarrow> bool" where
  "quiet R \<longleftrightarrow> preord R \<and> (\<forall>w n. R w (w\<lparr>step := n\<rparr>)) \<and> (\<forall>w l. R w (w\<lparr>logs := l\<rparr>))"

definition fileBlind :: "(world \<Rightarrow> world \<Rightarrow> bool) \<Rightarrow> bool" where
  "fileBlind R \<longleftrightarrow> quiet R \<and> (\<forall>w F T. R w (w\<lparr>fs := F, fsTrace := T\<rparr>)) \<and> (\<forall>w h. R w (w\<lparr>held := h\<rparr>))"

definition untouched :: "string \<Rightarrow> world \<Rightarrow> world \<Rightarrow> bool" where
  "untouched p w w' \<longleftrightarrow> (\<exists>T. fsTrace w' = fsTrace w @ T \<and> (\<forall>F \<in> set T. F p = fs w p)) \<and> fs w' p = fs w p"

lemma quietD [simp]: "quiet R \<Longrightarrow> preord R"
  by (simp add: quiet_def)

lemma fileBlindD [simp]: "fileBlind R \<Longrightarrow> quiet R"
  by (simp add: fileBlind_def)

lemma quiet_same [simp]:
  "quiet (same dbs)" "quiet (same fs)" "quiet (same held)" "quiet (same faults)"
  "quiet (same clock)" "quiet (same rnd)" "quiet (same net)" "quiet (same (\<lambda>w. fs w p))"
  by (simp_all add: quiet_def same_def preord_def reflp_def transp_def)

lemma fileBlind_same [simp]:
  "fileBlind (same dbs)" "fileBlind (same faults)" "fileBlind (same clock)" "fileBlind (same rnd)"
  "fileBlind (same net)" "fileBlind (same (\<lambda>w. dbs w p))"
  by (simp_all add: fileBlind_def quiet_def same_def preord_def reflp_def transp_def)

lemma fileBlind_dbs:
  assumes "reflp Q" "transp Q"
  shows "fileBlind (\<lambda>w w'. Q (dbs w) (dbs w'))"
  using assms by (auto simp: fileBlind_def quiet_def preord_def reflp_def transp_def)

lemma preord_untouched [simp]: "preord (untouched p)"
proof -
  have "reflp (untouched p)" by (auto simp: reflp_def untouched_def)
  moreover have "transp (untouched p)"
  proof (rule transpI)
    fix u v w assume "untouched p u v" "untouched p v w"
    then obtain T U where "fsTrace v = fsTrace u @ T" "\<forall>F \<in> set T. F p = fs u p" "fs v p = fs u p"
      and "fsTrace w = fsTrace v @ U" "\<forall>F \<in> set U. F p = fs v p" "fs w p = fs v p"
      by (auto simp: untouched_def)
    then show "untouched p u w" unfolding untouched_def by (intro conjI exI [of _ "T @ U"]) auto
  qed
  ultimately show ?thesis by (simp add: preord_def)
qed

lemma quiet_untouched [simp]: "quiet (untouched p)"
  by (simp add: quiet_def) (auto simp: untouched_def)

lemma untouched_same: "guar (untouched p) m \<Longrightarrow> guar (same (\<lambda>w. fs w p)) m"
  by (auto simp: guar_def untouched_def same_def)

lemma guar_tick [guar_intros]: "quiet R \<Longrightarrow> guar R tick"
  by (simp add: guar_def tick_def quiet_def)

lemma guar_mayFail [guar_intros]: "quiet R \<Longrightarrow> guar R (mayFail e)"
  unfolding mayFail_def by (intro guar_intros) simp_all

lemma guar_timeNow [guar_intros]: "quiet R \<Longrightarrow> guar R timeNow"
  unfolding timeNow_def by (intro guar_intros) simp_all

lemma guar_random [guar_intros]: "quiet R \<Longrightarrow> guar R random"
  unfolding random_def by (intro guar_intros) simp_all

lemma guar_logPrint [guar_intros]: "quiet R \<Longrightarrow> guar R (logPrint m)"
  by (simp add: guar_def logPrint_def quiet_def)

lemma guar_case_fsnode [guar_intros]:
  "(\<And>b m. x = File b m \<Longrightarrow> guar R (f b m)) \<Longrightarrow> (\<And>m. x = Dir m \<Longrightarrow> guar R (g m)) \<Longrightarrow>
   guar R (case x of File b m \<Rightarrow> f b m | Dir m \<Rightarrow> g m)"
  by (cases x) auto

lemma guar_osReadFile [guar_intros]: "quiet R \<Longrightarrow> guar R (osReadFile p)"
  unfolding osReadFile_def by (intro guar_intros) simp_all

lemma guar_osStat [guar_intros]: "quiet R \<Longrightarrow> guar R (osStat p)"
  unfolding osStat_def by (intro guar_intros) simp_all

lemma guar_readBounded [guar_intros]: "quiet R \<Longrightarrow> guar R (readBounded b)"
  unfolding readBounded_def by (intro guar_intros) simp_all

lemma guar_setFs_blind: "fileBlind R \<Longrightarrow> guar R (setFs f)"
  by (simp add: guar_def setFs_def fileBlind_def)

lemma guar_setFs_untouched: "(\<And>F. f F p = F p) \<Longrightarrow> guar (untouched p) (setFs f)"
  by (auto simp: guar_def setFs_def untouched_def)

lemma guar_held: "fileBlind R \<Longrightarrow> guar R (modify (\<lambda>w. w\<lparr>held := f w\<rparr>))"
  by (simp add: guar_def fileBlind_def)

lemma guar_held_untouched: "guar (untouched p) (modify (\<lambda>w. w\<lparr>held := f w\<rparr>))"
  by (simp add: guar_def untouched_def)

lemma fileWrite_alt:
  "fileWrite p data = bnd (attempt (mayFail IOErr)) (\<lambda>r. bnd random (\<lambda>n.
     bnd (setFs (\<lambda>F. case F p of
        Some (File b m) \<Rightarrow> F(p \<mapsto> File (b @ (case r of Inl _ \<Rightarrow> take n data | Inr _ \<Rightarrow> data)) m) | _ \<Rightarrow> F)) (\<lambda>_.
     lift r)))"
  by (simp add: fileWrite_def Let_def)

lemmas file_op_defs = osMkdirAll_def osRemove_def osCreateTemp_def fileChmod_def fileWrite_alt
  osRename_def lockFile_def unlockFile_def

lemma guar_file_ops_blind [blind_intros]:
  assumes "fileBlind R"
  shows "guar R (osMkdirAll d m)" "guar R (osRemove p)" "guar R (osCreateTemp d)"
    "guar R (fileChmod p m)" "guar R (fileWrite p b)" "guar R (osRename p q)" "guar R (lockFile p)"
    "guar R (unlockFile p)"
  unfolding file_op_defs using assms by (auto intro!: guar_intros guar_held guar_setFs_blind)

lemma guar_atomicWriteFile_blind [blind_intros]: "fileBlind R \<Longrightarrow> guar R (atomicWriteFile p b m)"
  unfolding atomicWriteFile_def by (auto intro!: guar_intros blind_intros)

lemma guar_withLock_blind [blind_intros]: "fileBlind R \<Longrightarrow> guar R m \<Longrightarrow> guar R (withLock p m)"
  unfolding withLock_def by (auto intro!: guar_intros blind_intros)

subsection \<open>One path\<close>

lemma guar_file_ops_untouched [path_intros]:
  shows "p \<noteq> q \<Longrightarrow> guar (untouched p) (osRemove q)"
    and "p \<noteq> q \<Longrightarrow> guar (untouched p) (fileChmod q m)"
    and "p \<noteq> q \<Longrightarrow> guar (untouched p) (fileWrite q b)"
    and "p \<noteq> q \<Longrightarrow> p \<noteq> r \<Longrightarrow> guar (untouched p) (osRename q r)"
    and "p \<noteq> q \<Longrightarrow> guar (untouched p) (lockFile q)"
    and "guar (untouched p) (unlockFile q)"
  unfolding file_op_defs
  by (auto intro!: guar_intros guar_held_untouched guar_setFs_untouched
      split: option.splits fsnode.splits)

lemma baseName_temp [simp]: "baseName (tempName d n) = ''.natssl-'' @ decOfNat n"
proof -
  have "c \<noteq> CHR ''/''" if "c \<in> set (decOfNat n)" for c
    using decOfNat_digits [OF that] by (auto simp: digitChar_def dest!: arg_cong [of _ _ "of_char :: char \<Rightarrow> nat"])
  then have "takeWhile (\<lambda>c. c \<noteq> CHR ''/'') (rev (decOfNat n) @ rev ''.natssl-'' @ ''/'' @ rev d)
      = rev (decOfNat n) @ rev ''.natssl-''"
    by (subst takeWhile_append2) auto
  then show ?thesis by (simp add: baseName_def tempName_def)
qed

lemma isTempName_temp [simp]: "isTempName (tempName d n)"
proof -
  have "decVal c \<noteq> None" if "c \<in> set (decOfNat n)" for c
    using decOfNat_digits [OF that] by (auto simp: digitChar_def)
  then show ?thesis by (auto simp: isTempName_def list_all_iff)
qed

lemma notTemp_neq: "\<not> isTempName p \<Longrightarrow> p \<noteq> tempName d n"
  by auto

lemma guar_osCreateTemp_untouched [path_intros]: "\<not> isTempName p \<Longrightarrow> guar (untouched p) (osCreateTemp d)"
  unfolding osCreateTemp_def
  by (auto intro!: guar_intros guar_setFs_untouched dest: notTemp_neq)

lemma osCreateTemp_Inr:
  assumes "osCreateTemp d w = (Inr f, w')"
  shows "isTempName f" "fs w' f = Some (File '''' o600)"
  using assms by (auto simp: osCreateTemp_def setFs_def split: if_splits)

lemma guar_atomicWriteFile_other [path_intros]:
  assumes "\<not> isTempName p" "p \<noteq> path"
  shows "guar (untouched p) (atomicWriteFile path b m)"
proof (rule guarI)
  fix w
  obtain r w1 where c: "osCreateTemp (filepathDir path) w = (r, w1)" by (cases "osCreateTemp (filepathDir path) w")
  have u: "untouched p w w1" using guar_osCreateTemp_untouched [OF assms(1)] c by (rule guarD)
  show "untouched p w (snd (atomicWriteFile path b m w))"
  proof (cases r)
    case (Inl e)
    with c u show ?thesis by (simp add: atomicWriteFile_def)
  next
    case (Inr f)
    with c assms(1) have "p \<noteq> f" using osCreateTemp_Inr(1) by blast
    let ?body = "deferred (osRemove f) (bnd (fileChmod f m) (\<lambda>_. bnd (fileWrite f b) (\<lambda>_.
      bnd (mayFail IOErr) (\<lambda>_. bnd (mayFail IOErr) (\<lambda>_. osRename f path)))))"
    have "guar (untouched p) ?body" using \<open>p \<noteq> f\<close> assms(2) by (auto intro!: guar_intros path_intros)
    then have "untouched p w1 (snd (?body w1))" by (simp add: guar_def)
    with u have "untouched p w (snd (?body w1))" by (rule preord_trans [OF preord_untouched])
    with c Inr show ?thesis by (simp add: atomicWriteFile_def)
  qed
qed

lemma guar_withLock_untouched [path_intros]:
  "p \<noteq> q \<Longrightarrow> guar (untouched p) m \<Longrightarrow> guar (untouched p) (withLock q m)"
  unfolding withLock_def by (auto intro!: guar_intros path_intros)

subsection \<open>Replacing a file is one step\<close>

lemma fileWrite_Inr:
  assumes "fileWrite f data w = (Inr u, w')" "fs w f = Some (File b m)"
  shows "fs w' f = Some (File (b @ data) m)"
  using assms by (auto simp: fileWrite_alt setFs_def mayFail_def run_guardE tick_def random_def split: if_splits)

lemma fileChmod_Inr:
  assumes "fileChmod f mode w = (Inr u, w')" "fs w f = Some (File b m)"
  shows "fs w' f = Some (File b mode)"
  using assms by (auto simp: fileChmod_def setFs_def mayFail_def run_guardE tick_def split: if_splits)

lemma mayFail_fs: "mayFail e w = (r, w') \<Longrightarrow> fs w' = fs w"
  by (auto simp: mayFail_def run_guardE tick_def bnd_def split: if_splits)

lemma osRename_cases:
  assumes "osRename f path w = (r, w')" "f \<noteq> path"
  obtains (kept) e where "r = Inl e" "untouched path w w'" "fs w' = fs w"
  | (moved) "r = Inr ()" "fs w' = (fs w)(path := fs w f, f := None)"
      "fsTrace w' = fsTrace w @ [fs w']"
proof (cases r)
  case (Inl e)
  with assms(1) have "fs w' = fs w \<and> fsTrace w' = fsTrace w"
    by (auto simp: osRename_def mayFail_def run_guardE tick_def setFs_def bnd_def split: if_splits sum.splits prod.splits)
  with Inl that(1) show thesis by (auto simp: untouched_def)
next
  case (Inr u)
  with assms have "r = Inr () \<and> fs w' = (fs w)(path := fs w f, f := None)
      \<and> fsTrace w' = fsTrace w @ [fs w']"
    by (auto simp: osRename_def mayFail_def run_guardE tick_def setFs_def split: if_splits)
  then show thesis by (auto intro: that(2))
qed

definition replaced :: "string \<Rightarrow> bytes \<Rightarrow> nat \<Rightarrow> world \<Rightarrow> world \<Rightarrow> bool" where
  "replaced path data mode w w' \<longleftrightarrow>
     (\<exists>T U. fsTrace w' = fsTrace w @ T @ U \<and> (\<forall>F \<in> set T. F path = fs w path)
        \<and> (\<forall>F \<in> set U. F path = Some (File data mode)))
     \<and> fs w' path = Some (File data mode)"

lemma untouched_replaced:
  assumes "untouched p u v" "replaced p d m v w"
  shows "replaced p d m u w"
proof -
  from assms obtain T U V where "fsTrace v = fsTrace u @ T" "\<forall>F \<in> set T. F p = fs u p" "fs v p = fs u p"
    "fsTrace w = fsTrace v @ U @ V" "\<forall>F \<in> set U. F p = fs v p"
    "\<forall>F \<in> set V. F p = Some (File d m)" "fs w p = Some (File d m)"
    by (auto simp: untouched_def replaced_def)
  then show ?thesis unfolding replaced_def by (intro conjI exI [of _ "T @ U"] exI [of _ V]) auto
qed

lemma replaced_untouched:
  assumes "replaced p d m u v" "untouched p v w"
  shows "replaced p d m u w"
proof -
  from assms obtain T U V where "fsTrace v = fsTrace u @ T @ U" "\<forall>F \<in> set T. F p = fs u p"
    "\<forall>F \<in> set U. F p = Some (File d m)" "fs v p = Some (File d m)"
    "fsTrace w = fsTrace v @ V" "\<forall>F \<in> set V. F p = fs v p" "fs w p = fs v p"
    by (auto simp: untouched_def replaced_def)
  then show ?thesis unfolding replaced_def by (intro conjI exI [of _ T] exI [of _ "U @ V"]) auto
qed

lemma atomicWrite_body:
  assumes f: "fs w f = Some (File '''' o600)" "f \<noteq> path"
    and run: "bnd (fileChmod f mode) (\<lambda>_. bnd (fileWrite f data) (\<lambda>_. bnd (mayFail IOErr) (\<lambda>_.
      bnd (mayFail IOErr) (\<lambda>_. osRename f path)))) w = (r, w')"
  shows "(\<exists>e. r = Inl e) \<and> untouched path w w' \<or> r = Inr () \<and> replaced path data mode w w'"
proof -
  let ?m = "bnd (fileChmod f mode) (\<lambda>_. bnd (fileWrite f data) (\<lambda>_. bnd (mayFail IOErr) (\<lambda>_. mayFail IOErr)))"
  have seq: "bnd (fileChmod f mode) (\<lambda>_. bnd (fileWrite f data) (\<lambda>_. bnd (mayFail IOErr) (\<lambda>_.
      bnd (mayFail IOErr) (\<lambda>_. osRename f path)))) w = bnd ?m (\<lambda>_. osRename f path) w"
    by (simp add: bnd_def split: prod.splits sum.splits)
  obtain r1 w1 where m: "?m w = (r1, w1)" by (cases "?m w")
  have "guar (untouched path) ?m" using f(2) by (auto intro!: guar_intros path_intros)
  then have u: "untouched path w w1" using m by (rule guarD)
  show ?thesis
  proof (cases r1)
    case (Inl e)
    then show ?thesis using run seq m u by auto
  next
    case (Inr x)
    then have "fs w1 f = Some (File data mode)"
      using m f by (auto dest!: mayFail_fs fileWrite_Inr fileChmod_Inr)
    have "osRename f path w1 = (r, w')" using run seq m Inr by simp
    from this f(2) show ?thesis
    proof (cases rule: osRename_cases)
      case (kept e)
      then show ?thesis using preord_trans [OF preord_untouched u] by auto
    next
      case moved
      then have "replaced path data mode w1 w'"
        using \<open>fs w1 f = _\<close> f(2) unfolding replaced_def
        by (intro conjI exI [of _ "[]"] exI [of _ "[fs w']"]) auto
      with u moved(1) show ?thesis by (auto intro: untouched_replaced)
    qed
  qed
qed

lemma atomicWriteFile_outcome:
  assumes p: "\<not> isTempName path" and run: "atomicWriteFile path data mode w = (r, w')"
  shows "(\<exists>e. r = Inl e) \<and> untouched path w w' \<or> r = Inr () \<and> replaced path data mode w w'"
proof -
  obtain r1 w1 where c: "osCreateTemp (filepathDir path) w = (r1, w1)"
    by (cases "osCreateTemp (filepathDir path) w")
  have u: "untouched path w w1" using guar_osCreateTemp_untouched [OF p] c by (rule guarD)
  show ?thesis
  proof (cases r1)
    case (Inl e)
    with run c u show ?thesis by (auto simp: atomicWriteFile_def)
  next
    case (Inr f)
    with c p have f: "fs w1 f = Some (File '''' o600)" "f \<noteq> path" using osCreateTemp_Inr by auto
    let ?m = "bnd (fileChmod f mode) (\<lambda>_. bnd (fileWrite f data) (\<lambda>_. bnd (mayFail IOErr) (\<lambda>_.
      bnd (mayFail IOErr) (\<lambda>_. osRename f path))))"
    obtain r2 w2 where m: "?m w1 = (r2, w2)" by (cases "?m w1")
    have out: "r = r2" "w' = snd (osRemove f w2)"
      using run c Inr m by (auto simp: atomicWriteFile_def)
    have v: "untouched path w2 w'"
      using guar_file_ops_untouched(1) [of path f] f(2) out(2) by (auto simp: guar_def)
    from atomicWrite_body [OF f m] show ?thesis
      using u v out(1) by (auto intro: preord_trans [OF preord_untouched] untouched_replaced replaced_untouched)
  qed
qed

lemma atomicWriteFile_Inr:
  "\<not> isTempName path \<Longrightarrow> atomicWriteFile path data mode w = (Inr u, w') \<Longrightarrow>
   fs w' path = Some (File data mode)"
  by (drule (1) atomicWriteFile_outcome) (auto simp: replaced_def)

lemma atomicWriteFile_Inl:
  "\<not> isTempName path \<Longrightarrow> atomicWriteFile path data mode w = (Inl e, w') \<Longrightarrow> fs w' path = fs w path"
  by (drule (1) atomicWriteFile_outcome) (auto simp: untouched_def)

subsection \<open>Locks\<close>

lemma withLock_cases:
  assumes "withLock p m w = (r, w')"
  obtains (locked_out) e where "r = Inl e" "lockFile p w = (Inl e, w')"
    | (ran) w1 w2 where "lockFile p w = (Inr (), w1)" "m w1 = (r, w2)" "w' = w2\<lparr>held := removeAll p (held w2)\<rparr>"
proof -
  obtain r1 w1 where l: "lockFile p w = (r1, w1)" by (cases "lockFile p w")
  obtain r2 w2 where m: "m w1 = (r2, w2)" by (cases "m w1")
  show thesis
  proof (cases r1)
    case (Inl e)
    with assms l locked_out [of e] show thesis by (simp add: withLock_def)
  next
    case (Inr u)
    with assms l m ran [of w1 w2] show thesis by (simp add: withLock_def unlockFile_def)
  qed
qed

lemma lockFile_other: "q \<noteq> p \<Longrightarrow> lockFile p w = (r, w') \<Longrightarrow> fs w' q = fs w q"
  using guar_file_ops_untouched(5) [of q p, THEN untouched_same] by (auto dest: guar_sameD)

text \<open>A body run under a lock, seen from a file other than the lock file.\<close>

lemma withLock_fs:
  assumes "withLock p m w = (r, w')" "q \<noteq> p"
  obtains (locked_out) e where "r = Inl e" "fs w' q = fs w q"
    | (ran) w1 w2 where "fs w1 q = fs w q" "m w1 = (r, w2)" "fs w' = fs w2" "dbs w' = dbs w2"
  using assms(1)
proof (cases rule: withLock_cases)
  case (locked_out e)
  with assms(2) lockFile_other that(1) show thesis by blast
next
  case (ran w1 w2)
  with assms(2) lockFile_other that(2) [of w1 w2] show thesis by auto
qed

lemma guarF_atomicWriteFile [fail_intros]: "\<not> isTempName p \<Longrightarrow> guarF (untouched p) (atomicWriteFile p b m)"
  by (auto simp: guarF_def dest: atomicWriteFile_outcome)

lemma guarF_withLock [fail_intros]: "p \<noteq> q \<Longrightarrow> guarF (untouched p) m \<Longrightarrow> guarF (untouched p) (withLock q m)"
  unfolding withLock_def by (auto intro!: fail_intros path_intros)

lemma guarF_untouchedD: "guarF (untouched p) m \<Longrightarrow> m w = (Inl e, w') \<Longrightarrow> fs w' p = fs w p"
  by (auto simp: untouched_def dest: guarFD)

subsection \<open>The contents of a file\<close>

definition fileBytes :: "filesys \<Rightarrow> string \<Rightarrow> bytes option" where
  "fileBytes F p = (case F p of Some (File b _) \<Rightarrow> Some b | _ \<Rightarrow> None)"

lemma osReadFile_Inr: "osReadFile p w = (Inr b, w') \<Longrightarrow> fileBytes (fs w) p = Some b \<and> fs w' = fs w"
  by (auto simp: osReadFile_def fileBytes_def split: option.splits fsnode.splits dest!: mayFail_fs)

subsection \<open>Directories\<close>

text \<open>Making directories changes nothing that is there.\<close>

definition keepsAt :: "string \<Rightarrow> world \<Rightarrow> world \<Rightarrow> bool" where
  "keepsAt p w w' \<longleftrightarrow> (fs w p \<noteq> None \<longrightarrow> fs w' p = fs w p)"

lemma quiet_keepsAt [simp]: "quiet (keepsAt p)"
  unfolding quiet_def preord_def reflp_def transp_def by (auto simp: keepsAt_def)

lemma mkdirs_keep:
  assumes "list_all (\<lambda>d. \<forall>b m. fs w d \<noteq> Some (File b m)) ds"
    and "stp = (\<lambda>d. bnd (gets fs) (\<lambda>F. if isDir F d then ret () else setFs (\<lambda>F. F(d \<mapsto> Dir mode))))"
  shows "keepsAt p w (snd (forEach ds stp w))"
  using assms(1)
proof (induction ds arbitrary: w)
  case Nil
  then show ?case by (simp add: keepsAt_def)
next
  case (Cons d ds)
  obtain w1 where w1: "stp d w = (Inr (), w1)" by (cases "isDir (fs w) d") (auto simp: assms(2) setFs_def)
  have f1: "fs w1 = fs w \<or> fs w1 = (fs w)(d \<mapsto> Dir mode) \<and> \<not> isDir (fs w) d"
    using w1 by (auto simp: assms(2) setFs_def split: if_splits)
  have "keepsAt p w w1"
  proof -
    have "fs w d = None" if "\<not> isDir (fs w) d"
      using that Cons.prems by (cases "fs w d"; cases "the (fs w d)") (auto simp: isDir_def)
    with f1 show ?thesis by (auto simp: keepsAt_def)
  qed
  moreover have "list_all (\<lambda>d. \<forall>b m. fs w1 d \<noteq> Some (File b m)) ds"
    using Cons.prems f1 by (auto simp: list_all_iff split: if_splits)
  from Cons.IH [OF this] have "keepsAt p w1 (snd (forEach ds stp w1))" .
  ultimately have "keepsAt p w (snd (forEach ds stp w1))" by (rule preord_trans [rotated]) simp
  with w1 show ?case by simp
qed

lemma guar_osMkdirAll_keepsAt [path_intros]: "guar (keepsAt p) (osMkdirAll d mode)"
proof -
  have "guar (keepsAt p) (bnd (gets fs) (\<lambda>F.
     if list_ex (\<lambda>d. case F d of Some (File _ _) \<Rightarrow> True | _ \<Rightarrow> False) (dirChain d) then throw IOErr
     else forEach (dirChain d) (\<lambda>d. bnd (gets fs) (\<lambda>F.
            if isDir F d then ret () else setFs (\<lambda>F. F(d \<mapsto> Dir mode))))))"
  proof (rule guarI)
    fix w
    show "keepsAt p w (snd (bnd (gets fs) (\<lambda>F.
     if list_ex (\<lambda>d. case F d of Some (File _ _) \<Rightarrow> True | _ \<Rightarrow> False) (dirChain d) then throw IOErr
     else forEach (dirChain d) (\<lambda>d. bnd (gets fs) (\<lambda>F.
            if isDir F d then ret () else setFs (\<lambda>F. F(d \<mapsto> Dir mode))))) w))"
      using mkdirs_keep [OF _ refl, of w "dirChain d" p mode]
      by (auto simp: keepsAt_def list_ex_iff list_all_iff split: option.splits fsnode.splits)
  qed
  then show ?thesis unfolding osMkdirAll_def by (auto intro!: guar_intros)
qed

end
