(* ===== verification/Config.thy ===== *)
theory Config
  imports World
begin

text \<open>
  \<^verbatim>\<open>config.go\<close>: the configuration shared by the master and the clients, loading and saving it, the
  networks a client may enrol from (\<open>ClientAllowed\<close>), the paths of the node's files and the addresses
  of the master (\<open>masterURL\<close>). The YAML text is the library's; the defaults and checks around it are
  here.
\<close>

record Listen =
  ACME :: string
  Mgmt :: string

record Config =
  InstallTrust :: bool
  Mode :: string
  DataDir :: string
  Listen :: Listen
  ServerNames :: "string list"
  LastMigration :: time
  MasterMgmtAddress :: string
  MasterAddress :: string
  MasterFingerprint :: string
  RecoveryPublicKey :: string
  EnrollmentToken :: string
  ClientNetworks :: "string list"
  Clients :: "string list"
  PullInterval :: int
  PingInterval :: int
  cfgPath :: string

type_synonym lib = "Config golib"

definition DefaultConfig :: Config where
  "DefaultConfig = \<lparr>InstallTrust = True, Mode = ''master'', DataDir = ''/var/lib/natssl'',
     Listen = \<lparr>ACME = '':443'', Mgmt = '':8443''\<rparr>, ServerNames = [], LastMigration = zeroTime,
     MasterMgmtAddress = '''', MasterAddress = '''', MasterFingerprint = '''',
     RecoveryPublicKey = '''', EnrollmentToken = '''', ClientNetworks = [], Clients = [],
     PullInterval = hour, PingInterval = 5 * minute, cfgPath = ''''\<rparr>"

text \<open>The defaults that \<^verbatim>\<open>LoadConfig\<close> puts in the place of empty values.\<close>

definition fillDefaults :: "Config \<Rightarrow> Config" where
  "fillDefaults c0 =
     (let c1 = (if DataDir c0 = '''' then c0\<lparr>DataDir := ''/var/lib/natssl''\<rparr> else c0);
          c2 = (if ACME (Listen c1) = '''' then c1\<lparr>Listen := (Listen c1)\<lparr>ACME := '':443''\<rparr>\<rparr> else c1);
          c3 = (if Mgmt (Listen c2) = '''' then c2\<lparr>Listen := (Listen c2)\<lparr>Mgmt := '':8443''\<rparr>\<rparr> else c2);
          c4 = (if PullInterval c3 \<le> 0 then c3\<lparr>PullInterval := hour\<rparr> else c3)
      in if PingInterval c4 \<le> 0 then c4\<lparr>PingInterval := 5 * minute\<rparr> else c4)"

definition LoadConfig :: "lib \<Rightarrow> string \<Rightarrow> Config io" where
  "LoadConfig L path =
     bnd (osReadFile path) (\<lambda>b.
     case yamlUnmarshal L b DefaultConfig of
       None \<Rightarrow> throw (Msg ''parse config'')
     | Some c \<Rightarrow>
         let c' = fillDefaults (c\<lparr>cfgPath := path\<rparr>) in
         bnd (forEach (ClientNetworks c') (\<lambda>cidr.
           guardE (ParseCIDR cidr \<noteq> None) (Msg ''invalid client_networks entry''))) (\<lambda>_.
         ret c'))"

definition Save :: "lib \<Rightarrow> Config \<Rightarrow> Config io" where
  "Save L c0 =
     (let c = (if cfgPath c0 = '''' then c0\<lparr>cfgPath := ''/etc/natssl/config.yaml''\<rparr> else c0) in
      bnd (osMkdirAll (filepathDir (cfgPath c)) o755) (\<lambda>_.
      case yamlMarshal L c of
        None \<Rightarrow> throw (Msg ''yaml'')
      | Some b \<Rightarrow> bnd (atomicWriteFile (cfgPath c) b o600) (\<lambda>_. ret c)))"

fun anyNetwork :: "string list \<Rightarrow> ip \<Rightarrow> bool" where
  "anyNetwork [] ip = False"
| "anyNetwork (cidr # cs) ip =
     (case ParseCIDR cidr of
        Some n \<Rightarrow> if netContains n ip then True else anyNetwork cs ip
      | None \<Rightarrow> anyNetwork cs ip)"

definition ClientAllowed :: "Config \<Rightarrow> string \<Rightarrow> bool" where
  "ClientAllowed c ipStr = (case ParseIP ipStr of None \<Rightarrow> False | Some ip \<Rightarrow> anyNetwork (ClientNetworks c) ip)"

section \<open>Paths and addresses\<close>

definition caCertPath :: "Config \<Rightarrow> string" where
  "caCertPath c = filepathJoin (DataDir c) ''root-ca.crt''"

definition caKeyPath :: "Config \<Rightarrow> string" where
  "caKeyPath c = filepathJoin (DataDir c) ''root-ca.key''"

definition dbPath :: "Config \<Rightarrow> string" where
  "dbPath c = filepathJoin (DataDir c) ''natssl.db''"

definition cachePath :: "Config \<Rightarrow> string" where
  "cachePath c = filepathJoin (DataDir c) ''network-cache.enc''"

definition crlPath :: "Config \<Rightarrow> string" where
  "crlPath c = filepathJoin (DataDir c) ''root-ca.crl''"

definition issuedDir :: "Config \<Rightarrow> string" where
  "issuedDir c = filepathJoin (DataDir c) ''issued''"

definition identityCertPath :: "Config \<Rightarrow> string" where
  "identityCertPath c = filepathJoin (DataDir c) ''client-identity.crt''"

definition identityKeyPath :: "Config \<Rightarrow> string" where
  "identityKeyPath c = filepathJoin (DataDir c) ''client-identity.key''"

definition masterURL :: "Config \<Rightarrow> bool \<Rightarrow> string \<Rightarrow> string" where
  "masterURL c control path =
     (let addr0 = (if control
                   then (if MasterMgmtAddress c = '''' then host (MasterAddress c) else MasterMgmtAddress c)
                   else MasterAddress c);
          port = (if control then ''8443'' else ''443'');
          addr = (if SplitHostPort addr0 = None then JoinHostPort (host addr0) port else addr0)
      in ''https://'' @ addr @ path)"

section \<open>Paths\<close>

text \<open>Every file of the node lies in the data directory under its own name: a joined path ends in the
  name, so the paths of different files differ and none is the name of a temporary file.\<close>

lemma cleanElems_append:
  "cleanElems r out (es @ [e]) = (if e = '''' \<or> e = ''.'' \<or> e = ''..'' then cleanElems r out (es @ [e])
     else cleanElems r out es @ [e])"
  by (induction r out es rule: cleanElems.induct) auto

lemma splitOn_snoc: "d \<notin> set b \<Longrightarrow> splitOn d (a @ d # b) = splitOn d a @ [b]"
proof (induction a)
  case Nil
  then show ?case by (simp add: splitOn_absent)
next
  case (Cons c a)
  obtain w ws where "splitOn d a = w # ws" by (cases "splitOn d a") auto
  with Cons show ?case by auto
qed

lemma joinWith_snoc: "\<exists>pre. joinWith sep (ws @ [w]) = pre @ w \<and> (ws = [] \<and> pre = [] \<or> ws \<noteq> [] \<and> (\<exists>q. pre = q @ sep))"
proof (induction ws)
  case (Cons v ws)
  then obtain pre where p: "joinWith sep (ws @ [w]) = pre @ w"
    "ws = [] \<and> pre = [] \<or> ws \<noteq> [] \<and> (\<exists>q. pre = q @ sep)" by blast
  have "joinWith sep ((v # ws) @ [w]) = v @ sep @ joinWith sep (ws @ [w])"
    by (cases ws) auto
  with p show ?case by (intro exI [of _ "v @ sep @ pre"]) auto
qed simp

definition plainElem :: "string \<Rightarrow> bool" where
  "plainElem b \<longleftrightarrow> CHR ''/'' \<notin> set b \<and> b \<noteq> '''' \<and> b \<noteq> ''.'' \<and> b \<noteq> ''..''"

lemma baseName_snoc: "CHR ''/'' \<notin> set b \<Longrightarrow> baseName (a @ ''/'' @ b) = b"
  by (simp add: baseName_def, subst takeWhile_append2) auto

lemma baseName_id: "CHR ''/'' \<notin> set b \<Longrightarrow> baseName b = b"
  by (simp add: baseName_def, subst takeWhile_eq_all_conv [THEN iffD2]) auto

lemma clean_join_snoc:
  assumes "plainElem b"
  shows "\<exists>pre. joinWith ''/'' (cleanElems r [] (splitOn CHR ''/'' (d @ ''/'' @ b))) = pre @ b
    \<and> (pre = [] \<or> (\<exists>q. pre = q @ ''/''))"
proof -
  have b: "CHR ''/'' \<notin> set b" "b \<noteq> []" "b \<noteq> ''.''" "b \<noteq> ''..''" using assms by (auto simp: plainElem_def)
  then have "cleanElems r [] (splitOn CHR ''/'' (d @ ''/'' @ b)) = cleanElems r [] (splitOn CHR ''/'' d) @ [b]"
    by (simp add: splitOn_snoc) (subst cleanElems_append, simp)
  then show ?thesis
    using joinWith_snoc [of "''/''" "cleanElems r [] (splitOn CHR ''/'' d)" b] by auto
qed

lemma baseName_join [simp]:
  assumes "plainElem b"
  shows "baseName (filepathJoin d b) = b"
proof (cases "d = []")
  case True
  have b: "CHR ''/'' \<notin> set b" "b \<noteq> []" using assms by (auto simp: plainElem_def)
  then have "hd b \<noteq> CHR ''/''" using hd_in_set [of b] by metis
  then have "filepathClean b = b"
    using assms b by (simp add: filepathClean_def Let_def splitOn_absent plainElem_def)
  with True b show ?thesis by (simp add: filepathJoin_def baseName_id)
next
  case d: False
  have b: "CHR ''/'' \<notin> set b" "b \<noteq> []" using assms by (auto simp: plainElem_def)
  have base: "baseName (pre @ b) = b" if "pre = [] \<or> (\<exists>q. pre = q @ ''/'')" for pre
    using that baseName_snoc [OF b(1)] baseName_id [OF b(1)] by auto
  have join: "filepathJoin d b = filepathClean (d @ ''/'' @ b)" using d by (simp add: filepathJoin_def)
  show ?thesis
  proof (cases "hd d = CHR ''/''")
    case True
    obtain pre where pre: "joinWith ''/'' (cleanElems True [] (splitOn CHR ''/'' (d @ ''/'' @ b))) = pre @ b"
      "pre = [] \<or> (\<exists>q. pre = q @ ''/'')"
      using clean_join_snoc [OF assms] by blast
    then have "filepathJoin d b = (''/'' @ pre) @ b"
      using True d join by (simp add: filepathClean_def Let_def)
    moreover have "''/'' @ pre = [] \<or> (\<exists>q. ''/'' @ pre = q @ ''/'')"
      using pre(2) by (metis append.assoc append_Nil append_Nil2)
    ultimately show ?thesis using base by metis
  next
    case False
    obtain pre where pre: "joinWith ''/'' (cleanElems False [] (splitOn CHR ''/'' (d @ ''/'' @ b))) = pre @ b"
      "pre = [] \<or> (\<exists>q. pre = q @ ''/'')"
      using clean_join_snoc [OF assms] by blast
    then have "filepathJoin d b = pre @ b"
      using False d b(2) join by (simp add: filepathClean_def Let_def)
    then show ?thesis using base [OF pre(2)] by simp
  qed
qed

lemma baseName_ext [simp]: "CHR ''/'' \<notin> set ext \<Longrightarrow> baseName (p @ ext) = baseName p @ ext"
  by (simp add: baseName_def, subst takeWhile_append2) auto

text \<open>The node's own files: different names, none of them temporary.\<close>

lemmas node_path_defs = caCertPath_def caKeyPath_def dbPath_def cachePath_def crlPath_def
  issuedDir_def identityCertPath_def identityKeyPath_def

lemma baseName_node_paths [simp]:
  "baseName (caCertPath c) = ''root-ca.crt''" "baseName (caKeyPath c) = ''root-ca.key''"
  "baseName (cachePath c) = ''network-cache.enc''" "baseName (crlPath c) = ''root-ca.crl''"
  "baseName (identityCertPath c) = ''client-identity.crt''"
  "baseName (identityKeyPath c) = ''client-identity.key''"
  by (simp_all add: node_path_defs plainElem_def)

lemma node_paths_notTemp [simp]:
  "\<not> isTempName (caCertPath c)" "\<not> isTempName (caKeyPath c)" "\<not> isTempName (cachePath c)"
  "\<not> isTempName (crlPath c)" "\<not> isTempName (identityCertPath c)" "\<not> isTempName (identityKeyPath c)"
  by (simp_all add: isTempName_def)

lemma path_neq: "baseName p \<noteq> baseName q \<Longrightarrow> p \<noteq> q"
  by auto

lemma node_paths_neq [simp]:
  "caCertPath c \<noteq> caKeyPath c" "caKeyPath c \<noteq> caCertPath c"
  "cachePath c \<noteq> crlPath c" "crlPath c \<noteq> cachePath c"
  "caKeyPath c \<noteq> cachePath c" "cachePath c \<noteq> caKeyPath c"
  "caKeyPath c \<noteq> crlPath c" "crlPath c \<noteq> caKeyPath c"
  "caCertPath c \<noteq> cachePath c" "cachePath c \<noteq> caCertPath c"
  "caCertPath c \<noteq> crlPath c" "crlPath c \<noteq> caCertPath c"
  by (rule path_neq, simp)+

text \<open>The lock files beside them.\<close>

lemma lock_paths_neq [simp]:
  "caCertPath c \<noteq> cachePath d @ ''.lock''" "caCertPath c \<noteq> crlPath d @ ''.lock''"
  "cachePath c \<noteq> cachePath d @ ''.lock''" "cachePath c \<noteq> crlPath d @ ''.lock''"
  "crlPath c \<noteq> cachePath d @ ''.lock''" "crlPath c \<noteq> crlPath d @ ''.lock''"
  "caKeyPath c \<noteq> cachePath d @ ''.lock''" "caKeyPath c \<noteq> crlPath d @ ''.lock''"
  "cachePath c @ ''.lock'' \<noteq> crlPath d @ ''.lock''"
  by (rule path_neq, simp)+


lemma anyNetwork_iff: "anyNetwork cs ip \<longleftrightarrow> (\<exists>cidr \<in> set cs. \<exists>n. ParseCIDR cidr = Some n \<and> netContains n ip)"
  by (induction cs) (auto split: option.splits)

end
