(* ===== verification/CertAuthority.thy ===== *)
theory CertAuthority
  imports Config
begin

text \<open>
  \<^verbatim>\<open>ca.go\<close>: the certificate authority. Its key pair (\<open>CA\<close>), creating, loading and saving it, and the
  four ways it signs: \<open>Issue\<close> (the administrator's certificates), \<open>SignCSR\<close> (a client's request),
  \<open>IssueServerCert\<close> (the master's own listeners) and \<open>IssueClientCert\<close> (a client's identity). The
  rules on names (\<open>splitSANs\<close>, \<open>validIssuanceTarget\<close>, \<open>canonicalTarget\<close>; \<open>isLoopbackTarget\<close>,
  \<open>loopbackSANs\<close> and \<open>sanitizeName\<close> of \<^verbatim>\<open>client_issue.go\<close>; \<open>enforceLoopbackOnly\<close> of \<^verbatim>\<open>server.go\<close>) and
  the files of an issued pair (\<open>writeIssuedFiles\<close>).

  The lemmas show which certificates each of them can produce, and that a failed write of a pair
  leaves the old pair.
\<close>

section \<open>Names\<close>

definition isLoopbackTarget :: "lib \<Rightarrow> string \<Rightarrow> bool" where
  "isLoopbackTarget L subject =
     (let s = TrimSpace (ToLower (uniLower L) subject) in
      if s = ''localhost'' \<or> s = ''127.0.0.1'' \<or> s = ''::1'' then True
      else case ParseIP s of Some ip \<Rightarrow> IsLoopback ip | None \<Rightarrow> False)"

definition ip4loopback :: ip where
  "ip4loopback = as16 [127, 0, 0, 1]"

definition loopbackSANs :: "lib \<Rightarrow> string \<Rightarrow> string list \<times> ip list" where
  "loopbackSANs L subject =
     (let s = TrimSpace (ToLower (uniLower L) subject) in
      case ParseIP s of
        Some ip \<Rightarrow> ([], [ip])
      | None \<Rightarrow> ([''localhost''], [ip4loopback, ip6loopback]))"

definition badNameChar :: "char \<Rightarrow> bool" where
  "badNameChar c \<longleftrightarrow> c \<in> set [CHR ''/'', CHR 0x5C, CHR '':'', CHR ''*'', CHR ''?'', CHR 0x22,
     CHR ''<'', CHR ''>'', CHR ''|'', CHR '' '']"

definition sanitizeName :: "lib \<Rightarrow> string \<Rightarrow> string" where
  "sanitizeName L s0 =
     (let s = map (\<lambda>c. if badNameChar c then CHR ''_'' else c) (TrimSpace (ToLower (uniLower L) s0))
      in if s = '''' then ''cert'' else s)"

text \<open>\<^verbatim>\<open>splitSANs\<close>: the lists double as the sets of names already seen.\<close>

fun splitSANsLoop :: "string list \<Rightarrow> string list \<Rightarrow> ip list \<Rightarrow> string list \<times> ip list" where
  "splitSANsLoop [] dns ips = (dns, ips)"
| "splitSANsLoop (it0 # rest) dns ips =
     (let it = TrimSpace it0 in
      if it = '''' then splitSANsLoop rest dns ips
      else case ParseIP it of
        Some ip \<Rightarrow> if ipString ip \<in> set (map ipString ips) then splitSANsLoop rest dns ips
                   else splitSANsLoop rest dns (ips @ [ip])
      | None \<Rightarrow> if it \<in> set dns then splitSANsLoop rest dns ips
                else splitSANsLoop rest (dns @ [it]) ips)"

definition splitSANs :: "string list \<Rightarrow> string list \<times> ip list" where
  "splitSANs items = splitSANsLoop items [] []"

definition labelChar :: "char \<Rightarrow> bool" where
  "labelChar c \<longleftrightarrow> (let n = (of_char c :: nat) in
     97 \<le> n \<and> n \<le> 122 \<or> 65 \<le> n \<and> n \<le> 90 \<or> 48 \<le> n \<and> n \<le> 57 \<or> c = CHR ''-'')"

definition validLabel :: "string \<Rightarrow> bool" where
  "validLabel label \<longleftrightarrow>
     \<not> (label = '''' \<or> length label > 63 \<or> hd label = CHR ''-'' \<or> last label = CHR ''-'')
     \<and> list_all labelChar label"

definition validDNSName :: "string \<Rightarrow> bool" where
  "validDNSName name0 \<longleftrightarrow>
     CHR ''.'' \<in> set name0 \<and>
     (let name = TrimPrefix name0 ''*.'' in
      length name \<le> 253 \<and> list_all validLabel (splitOn CHR ''.'' name))"

definition validIssuanceTarget :: "string list \<Rightarrow> ip list \<Rightarrow> bool" where
  "validIssuanceTarget dns ips \<longleftrightarrow>
     length dns + length ips \<noteq> 0 \<and> list_all (\<lambda>ip. ip \<noteq> []) ips \<and> list_all validDNSName dns"

definition containsIP :: "ip list \<Rightarrow> ip \<Rightarrow> bool" where
  "containsIP s v \<longleftrightarrow> list_ex (\<lambda>x. ipEqual x v) s"

definition ipsToStr :: "ip list \<Rightarrow> string list" where
  "ipsToStr ips = map ipString ips"

definition canonicalTarget :: "lib \<Rightarrow> string \<Rightarrow> string" where
  "canonicalTarget L s0 =
     (let s = ToLower (uniLower L) (TrimSpace s0) in
      case ParseIP s of Some ip \<Rightarrow> ipString ip | None \<Rightarrow> s)"

definition enforceLoopbackOnly :: "lib \<Rightarrow> certRequest \<Rightarrow> bool \<Rightarrow> error option" where
  "enforceLoopbackOnly L csr localhost =
     (if CommonName (csrSubject csr) \<noteq> '''' \<and> \<not> isLoopbackTarget L (CommonName (csrSubject csr)) then
        Some (Msg ''only loopback common names are allowed'')
      else if csrEmailAddresses csr \<noteq> [] \<or> csrURIs csr \<noteq> [] then
        Some (Msg ''only loopback DNS/IP SANs are allowed'')
      else if \<not> localhost then Some (Msg ''clients may only request localhost certificates'')
      else if list_ex (\<lambda>d. d \<noteq> ''localhost'') (csrDNSNames csr) then
        Some (Msg ''clients may only request localhost'')
      else if list_ex (\<lambda>ip. \<not> IsLoopback ip) (csrIPAddresses csr) then
        Some (Msg ''clients may only request loopback IPs'')
      else if csrDNSNames csr = [] \<and> csrIPAddresses csr = [] then
        Some (Msg ''CSR has no loopback SAN'')
      else None)"

section \<open>The key pair\<close>

record CA =
  Cert :: certificate
  CertDER :: bytes
  Key :: privkey

definition newSerial :: "int io" where
  "newSerial = bnd random (\<lambda>n. ret (int (n mod 2 ^ 128)))"

definition ecdsaGenerateKey :: "lib \<Rightarrow> privkey io" where
  "ecdsaGenerateKey L = bnd (mayFail IOErr) (\<lambda>_. bnd random (\<lambda>r. ret (generateKey L r)))"

definition x509CreateCertificate :: "lib \<Rightarrow> certificate \<Rightarrow> certificate \<Rightarrow> pubkey \<Rightarrow> privkey \<Rightarrow> bytes io" where
  "x509CreateCertificate L tmpl parent pub key =
     bnd random (\<lambda>r. need (Msg ''x509: cannot create certificate'') (createCertificate L r tmpl parent pub key))"

definition BootstrapCA :: "lib \<Rightarrow> CA io" where
  "BootstrapCA L =
     bnd (ecdsaGenerateKey L) (\<lambda>key.
     bnd newSerial (\<lambda>serial.
     bnd timeNow (\<lambda>t1.
     bnd timeNow (\<lambda>t2.
     let tmpl = blankCert\<lparr>SerialNumber := serial,
           Subject := \<lparr>CommonName = ''NATSSL Private Root CA'', Organization = [''NATSSL''], otherAttributes = []\<rparr>,
           cNotBefore := t1 - 5 * minute, cNotAfter := addDate L 10 0 0 t2, IsCA := True, MaxPathLen := 1,
           KeyUsage := {CertSign, CRLSign, DigitalSignature}\<rparr> in
     bnd (x509CreateCertificate L tmpl tmpl (ECDSAKey (publicOf L key)) key) (\<lambda>der.
     bnd (need (Msg ''x509: cannot parse certificate'') (parseCertificate L der)) (\<lambda>cert.
     ret \<lparr>Cert = cert, CertDER = der, Key = key\<rparr>))))))"

text \<open>\<^verbatim>\<open>LoadCAFromPEM\<close>, and the part of \<^verbatim>\<open>LoadCA\<close> after the files are read, which is the same text.\<close>

definition LoadCAFromPEM :: "lib \<Rightarrow> bytes \<Rightarrow> bytes \<Rightarrow> error + CA" where
  "LoadCAFromPEM L certPEM keyPEM =
     (case (pemDecode L certPEM, pemDecode L keyPEM) of
        (Some (_, cb), Some (_, kb)) \<Rightarrow>
          (case parseCertificate L cb of
             None \<Rightarrow> Inl (Msg ''x509: cannot parse certificate'')
           | Some cert \<Rightarrow>
              (case parsePKCS8 L kb of
                 None \<Rightarrow> Inl (Msg ''x509: cannot parse key'')
               | Some (OtherPriv _) \<Rightarrow> Inl (Msg ''CA key is not ECDSA'')
               | Some (ECDSAPriv key) \<Rightarrow>
                   if \<not> IsCA cert \<or> \<not> checkSignatureFrom L cert cert
                      \<or> PublicKey cert \<noteq> ECDSAKey (publicOf L key)
                   then Inl (Msg ''invalid or mismatched Root CA key pair'')
                   else Inr \<lparr>Cert = cert, CertDER = cb, Key = key\<rparr>))
      | _ \<Rightarrow> Inl (Msg ''invalid CA PEM material''))"

definition LoadCA :: "lib \<Rightarrow> string \<Rightarrow> string \<Rightarrow> CA io" where
  "LoadCA L certPath keyPath =
     bnd (osReadFile certPath) (\<lambda>cb. bnd (osReadFile keyPath) (\<lambda>kb. lift (LoadCAFromPEM L cb kb)))"

definition certPEMBytes :: "lib \<Rightarrow> CA \<Rightarrow> bytes" where
  "certPEMBytes L ca = pemEncode L ''CERTIFICATE'' (CertDER ca)"

definition SaveToFiles :: "lib \<Rightarrow> CA \<Rightarrow> string \<Rightarrow> string \<Rightarrow> unit io" where
  "SaveToFiles L ca certPath keyPath =
     (let certPEM = pemEncode L ''CERTIFICATE'' (CertDER ca) in
      bnd (need (Msg ''x509: cannot marshal key'') (marshalPKCS8 L (Key ca))) (\<lambda>keyDER.
      let keyPEM = pemEncode L ''PRIVATE KEY'' keyDER in
      bnd (atomicWriteFile certPath certPEM o644) (\<lambda>_.
      atomicWriteFile keyPath keyPEM o600)))"

definition hexUpper :: "char \<Rightarrow> string" where
  "hexUpper c = (let n = (of_char c :: nat); d = (\<lambda>k. if k < 10 then char_of (48 + k) else char_of (55 + k))
                 in [d (n div 16), d (n mod 16)])"

definition Fingerprint :: "lib \<Rightarrow> CA \<Rightarrow> string" where
  "Fingerprint L ca = joinWith '':'' (map hexUpper (sha256 L (CertDER ca)))"

section \<open>Issuance\<close>

record IssueResult =
  resCertPEM :: string
  resKeyPEM :: string
  resCert :: "certificate option"

definition marshalled :: "lib \<Rightarrow> privkey \<Rightarrow> bytes" where
  "marshalled L k = (case marshalPKCS8 L k of Some b \<Rightarrow> b | None \<Rightarrow> '''')"

definition Issue :: "lib \<Rightarrow> CA \<Rightarrow> string \<Rightarrow> string list \<Rightarrow> bool \<Rightarrow> IssueResult io" where
  "Issue L ca subject sans localhostMode =
     (let (dnsNames0, ips0) = splitSANs (subject # sans) in
      if \<not> localhostMode \<and> \<not> validIssuanceTarget dnsNames0 ips0 then throw (Msg ''target not allowed for issuance'')
      else
      bnd (ecdsaGenerateKey L) (\<lambda>leafKey.
      bnd timeNow (\<lambda>t0.
      bnd (if localhostMode then bnd timeNow (\<lambda>t. ret (addDate L 1 0 0 t)) else ret (t0 + 90 * 24 * hour)) (\<lambda>notAfter.
      let (dns1, ips1) = (if localhostMode then loopbackSANs L ''localhost'' else (dnsNames0, ips0));
          cn = (if localhostMode then ''localhost (Same PC only)'' else subject);
          ips = (if localhostMode \<and> \<not> containsIP ips1 ip4loopback then ips1 @ [ip4loopback, ip6loopback] else ips1);
          dns = (if localhostMode \<and> ''localhost'' \<notin> set dns1 then dns1 @ [''localhost''] else dns1) in
      bnd newSerial (\<lambda>serial.
      bnd timeNow (\<lambda>t1.
      let tmpl = blankCert\<lparr>SerialNumber := serial, Subject := plainName cn, cNotBefore := t1 - 5 * minute,
            cNotAfter := notAfter, KeyUsage := {DigitalSignature, KeyEncipherment}, ExtKeyUsage := [ServerAuth],
            DNSNames := dns, IPAddresses := ips\<rparr> in
      bnd (x509CreateCertificate L tmpl (Cert ca) (ECDSAKey (publicOf L leafKey)) (Key ca)) (\<lambda>der.
      ret \<lparr>resCertPEM = pemEncode L ''CERTIFICATE'' der,
           resKeyPEM = pemEncode L ''PRIVATE KEY'' (marshalled L leafKey),
           resCert = parseCertificate L der\<rparr>)))))))"

definition SignCSR :: "lib \<Rightarrow> CA \<Rightarrow> certRequest \<Rightarrow> bool \<Rightarrow> IssueResult io" where
  "SignCSR L ca csr localhostMode =
     (if \<not> csrCheckSignature L csr then throw (Msg ''invalid CSR signature'')
      else
      let dnsNames = csrDNSNames csr; ips = csrIPAddresses csr in
      bnd timeNow (\<lambda>t0.
      bnd (if localhostMode then
             (case enforceLoopbackOnly L csr True of
                Some e \<Rightarrow> throw e
              | None \<Rightarrow>
                  if list_ex (\<lambda>d. d \<noteq> ''localhost'') dnsNames then throw (Msg ''localhost mode: only localhost allowed'')
                  else if list_ex (\<lambda>ip. \<not> IsLoopback ip) ips then throw (Msg ''localhost mode: only loopback IPs allowed'')
                  else bnd timeNow (\<lambda>t. ret (addDate L 1 0 0 t)))
           else if \<not> validIssuanceTarget dnsNames ips then throw (Msg ''CSR target not allowed for issuance'')
           else ret (t0 + 90 * 24 * hour)) (\<lambda>notAfter.
      bnd newSerial (\<lambda>serial.
      bnd timeNow (\<lambda>t1.
      let tmpl = blankCert\<lparr>SerialNumber := serial, Subject := csrSubject csr, cNotBefore := t1 - 5 * minute,
            cNotAfter := notAfter, KeyUsage := {DigitalSignature, KeyEncipherment}, ExtKeyUsage := [ServerAuth],
            DNSNames := dnsNames, IPAddresses := ips\<rparr> in
      bnd (x509CreateCertificate L tmpl (Cert ca) (csrPublicKey csr) (Key ca)) (\<lambda>der.
      ret \<lparr>resCertPEM = pemEncode L ''CERTIFICATE'' der, resKeyPEM = '''', resCert = parseCertificate L der\<rparr>))))))"

fun serverSANs :: "string list \<Rightarrow> string list \<times> ip list" where
  "serverSANs [] = ([], [])"
| "serverSANs (h0 # hs) =
     (let h = TrimSpace h0; (dns, ips) = serverSANs hs in
      if h = '''' then (dns, ips)
      else case ParseIP h of Some ip \<Rightarrow> (dns, ip # ips) | None \<Rightarrow> (h # dns, ips))"

definition IssueServerCert :: "lib \<Rightarrow> CA \<Rightarrow> string list \<Rightarrow> (bytes \<times> bytes) io" where
  "IssueServerCert L ca hosts =
     bnd (ecdsaGenerateKey L) (\<lambda>leafKey.
     let (dns, ips0) = serverSANs hosts; ips = ips0 @ [ip4loopback, ip6loopback] in
     bnd newSerial (\<lambda>serial.
     bnd timeNow (\<lambda>t1.
     bnd timeNow (\<lambda>t2.
     let tmpl = blankCert\<lparr>SerialNumber := serial, Subject := plainName ''natssl-master-api'',
           cNotBefore := t1 - 5 * minute, cNotAfter := addDate L 1 0 0 t2,
           KeyUsage := {DigitalSignature, KeyEncipherment}, ExtKeyUsage := [ServerAuth],
           DNSNames := dns, IPAddresses := ips\<rparr> in
     bnd (x509CreateCertificate L tmpl (Cert ca) (ECDSAKey (publicOf L leafKey)) (Key ca)) (\<lambda>der.
     ret (pemEncode L ''CERTIFICATE'' der @ certPEMBytes L ca,
          pemEncode L ''PRIVATE KEY'' (marshalled L leafKey)))))))"

definition IssueClientCert :: "lib \<Rightarrow> CA \<Rightarrow> certRequest \<Rightarrow> string \<Rightarrow> string io" where
  "IssueClientCert L ca csr cn =
     (if \<not> csrCheckSignature L csr then throw (Msg ''invalid CSR signature'')
      else
      bnd newSerial (\<lambda>serial.
      bnd timeNow (\<lambda>t1.
      bnd timeNow (\<lambda>t2.
      let tmpl = blankCert\<lparr>SerialNumber := serial, Subject := plainName cn, cNotBefore := t1 - 5 * minute,
            cNotAfter := addDate L 1 0 0 t2, KeyUsage := {DigitalSignature}, ExtKeyUsage := [ClientAuth]\<rparr> in
      bnd (x509CreateCertificate L tmpl (Cert ca) (csrPublicKey csr) (Key ca)) (\<lambda>der.
      ret (pemEncode L ''CERTIFICATE'' der))))))"

section \<open>The files of an issued pair\<close>

definition issuedBase :: "lib \<Rightarrow> Config \<Rightarrow> string \<Rightarrow> string" where
  "issuedBase L cfg target = issuedDir cfg @ ''/'' @ sanitizeName L target"

text \<open>\<^verbatim>\<open>lockIssuance\<close> around the rest of its caller.\<close>

definition lockIssuance :: "lib \<Rightarrow> Config \<Rightarrow> string \<Rightarrow> 'a io \<Rightarrow> 'a io" where
  "lockIssuance L cfg target m =
     bnd (osMkdirAll (issuedDir cfg) o700) (\<lambda>_. withLock (issuedBase L cfg target @ ''.issue.lock'') m)"

definition joinErrors :: "error \<Rightarrow> error + unit \<Rightarrow> error" where
  "joinErrors e r = (case r of Inl e2 \<Rightarrow> Join e e2 | Inr _ \<Rightarrow> e)"

definition writeIssuedFiles :: "lib \<Rightarrow> Config \<Rightarrow> string \<Rightarrow> IssueResult \<Rightarrow> unit io" where
  "writeIssuedFiles L cfg target res =
     (let base = issuedBase L cfg target in
      bnd (attempt (osReadFile (base @ ''.key''))) (\<lambda>previous.
      case previous of
        Inl e \<Rightarrow>
          if e \<noteq> NotExist then throw e
          else
            bnd (atomicWriteFile (base @ ''.key'') (resKeyPEM res) o600) (\<lambda>_.
            bnd (attempt (atomicWriteFile (base @ ''.crt'') (resCertPEM res) o644)) (\<lambda>r.
            case r of
              Inr _ \<Rightarrow> ret ()
            | Inl err \<Rightarrow> bnd (attempt (osRemove (base @ ''.key''))) (\<lambda>rb. throw (joinErrors err rb))))
      | Inr old \<Rightarrow>
            bnd (atomicWriteFile (base @ ''.key'') (resKeyPEM res) o600) (\<lambda>_.
            bnd (attempt (atomicWriteFile (base @ ''.crt'') (resCertPEM res) o644)) (\<lambda>r.
            case r of
              Inr _ \<Rightarrow> ret ()
            | Inl err \<Rightarrow> bnd (attempt (atomicWriteFile (base @ ''.key'') old o600)) (\<lambda>rb.
                throw (joinErrors err rb))))))"

section \<open>Names: lemmas\<close>

lemma ip6loopback_bytes: "ip6loopback = [0, 0, 0, 0, 0, 0, 0, 0, 0, 0, 0, 0, 0, 0, 0, 1]"
  by (simp add: ip6loopback_def numeral_eq_Suc)

lemma ipString_loopbacks:
  "ipString ip4loopback = ''127.0.0.1''" "ipString ip6loopback = ''::1''"
  by (simp_all add: ipString_def ip4loopback_def ip6loopback_bytes as16_def To4_def v4InV6Prefix_def
      v4String_def v6String_def decOfNat.simps hexOfNat.simps hexChar_def Let_def char_of_def bit_0)

lemma ParseIP_loopbacks:
  "ParseIP ''127.0.0.1'' = Some ip4loopback" "ParseIP ''::1'' = Some ip6loopback"
proof -
  have "length ip4loopback = 16" "length ip6loopback = 16"
    by (simp_all add: ip4loopback_def ip6loopback_bytes as16_def v4InV6Prefix_def)
  then show "ParseIP ''127.0.0.1'' = Some ip4loopback" "ParseIP ''::1'' = Some ip6loopback"
    using ParseIP_ipString [of ip4loopback] ParseIP_ipString [of ip6loopback] by (simp_all add: ipString_loopbacks)
qed

lemma To4_shortIP [simp]: "To4 (shortIP ip) = To4 ip"
  by (auto simp: shortIP_def To4_def)

lemma IsLoopback_shortIP [simp]: "IsLoopback (shortIP ip) = IsLoopback ip"
proof (cases "To4 ip")
  case None
  then have "shortIP ip = ip" by (simp add: shortIP_def)
  then show ?thesis by simp
qed (simp add: IsLoopback_def)

lemma enforceLoopbackOnly_None:
  "enforceLoopbackOnly L csr localhost = None \<longleftrightarrow> localhost
     \<and> (CommonName (csrSubject csr) = '''' \<or> isLoopbackTarget L (CommonName (csrSubject csr)))
     \<and> csrEmailAddresses csr = [] \<and> csrURIs csr = []
     \<and> set (csrDNSNames csr) \<subseteq> {''localhost''} \<and> (\<forall>ip \<in> set (csrIPAddresses csr). IsLoopback ip)
     \<and> (csrDNSNames csr \<noteq> [] \<or> csrIPAddresses csr \<noteq> [])"
  by (auto simp: enforceLoopbackOnly_def list_ex_iff)

lemma canonicalTarget_ip: "ParseIP (ToLower (uniLower L) (TrimSpace s)) = Some ip \<Longrightarrow> canonicalTarget L s = ipString ip"
  by (simp add: canonicalTarget_def)

text \<open>Every spelling of an address is one target.\<close>

lemma canonicalTarget_ipString [simp]: "length ip = 16 \<Longrightarrow> canonicalTarget L (ipString ip) = ipString ip"
  by (simp add: canonicalTarget_def ipString_TrimSpace ipString_ToLower ParseIP_ipString)

lemma sanitizeName_nonempty: "sanitizeName L s \<noteq> ''''"
  by (simp add: sanitizeName_def Let_def)

lemma sanitizeName_safe: "c \<in> set (sanitizeName L s) \<Longrightarrow> \<not> badNameChar c"
  by (auto simp: sanitizeName_def Let_def badNameChar_def split: if_splits)

section \<open>What the operations leave alone\<close>

lemma guar_issuance [guar_intros]:
  assumes "quiet R"
  shows "guar R newSerial" "guar R (ecdsaGenerateKey L)" "guar R (x509CreateCertificate L t p pub k)"
  using assms by (auto simp: newSerial_def ecdsaGenerateKey_def x509CreateCertificate_def intro!: guar_intros)

lemma guar_ca [guar_intros]:
  assumes "quiet R"
  shows "guar R (BootstrapCA L)" "guar R (LoadCA L c k)" "guar R (Issue L ca s sans b)"
    "guar R (SignCSR L ca csr b)" "guar R (IssueServerCert L ca hosts)" "guar R (IssueClientCert L ca csr cn)"
  using assms
  by (auto simp: BootstrapCA_def LoadCA_def Issue_def SignCSR_def IssueServerCert_def IssueClientCert_def
      Let_def intro!: guar_intros)

lemma guar_SaveToFiles_blind [blind_intros]: "fileBlind R \<Longrightarrow> guar R (SaveToFiles L ca c k)"
  by (auto simp: SaveToFiles_def Let_def intro!: guar_intros blind_intros)

lemma guar_writeIssuedFiles_blind [blind_intros]: "fileBlind R \<Longrightarrow> guar R (writeIssuedFiles L cfg t res)"
  by (auto simp: writeIssuedFiles_def Let_def intro!: guar_intros blind_intros)

lemma guar_lockIssuance_blind [blind_intros]: "fileBlind R \<Longrightarrow> guar R m \<Longrightarrow> guar R (lockIssuance L cfg t m)"
  by (auto simp: lockIssuance_def intro!: guar_intros blind_intros)

section \<open>The key pair: lemmas\<close>

text \<open>What a loaded key pair is: a self-signed authority whose key is the one in hand.\<close>

definition validCA :: "lib \<Rightarrow> CA \<Rightarrow> bool" where
  "validCA L ca \<longleftrightarrow> parseCertificate L (CertDER ca) = Some (Cert ca) \<and> IsCA (Cert ca)
     \<and> checkSignatureFrom L (Cert ca) (Cert ca) \<and> PublicKey (Cert ca) = ECDSAKey (publicOf L (Key ca))"

lemma LoadCAFromPEM_valid: "LoadCAFromPEM L c k = Inr ca \<Longrightarrow> validCA L ca"
  by (auto simp: LoadCAFromPEM_def validCA_def split: option.splits prod.splits anykey.splits if_splits)

lemma LoadCAFromPEM_iff:
  assumes "pemOk L" "pkcs8Ok L" "marshalPKCS8 L (Key ca) = Some kd"
  shows "LoadCAFromPEM L (pemEncode L ty (CertDER ca)) (pemEncode L ty' kd) = Inr ca \<longleftrightarrow> validCA L ca"
proof
  assume "validCA L ca"
  moreover have "parsePKCS8 L kd = Some (ECDSAPriv (Key ca))" using assms by (simp add: pkcs8Ok_def)
  ultimately show "LoadCAFromPEM L (pemEncode L ty (CertDER ca)) (pemEncode L ty' kd) = Inr ca"
    using assms(1) by (simp add: LoadCAFromPEM_def validCA_def pemOk_def)
qed (rule LoadCAFromPEM_valid)

lemma LoadCA_valid: "LoadCA L c k w = (Inr ca, w') \<Longrightarrow> validCA L ca"
  by (auto simp: LoadCA_def intro: LoadCAFromPEM_valid)

section \<open>Issued certificates: lemmas\<close>

definition loopbackCert :: "lib \<Rightarrow> certificate \<Rightarrow> bool" where
  "loopbackCert L c \<longleftrightarrow> \<not> IsCA c \<and> ExtKeyUsage c = [ServerAuth] \<and> KeyUsage c = {DigitalSignature, KeyEncipherment}
     \<and> set (DNSNames c) \<subseteq> {''localhost''} \<and> (\<forall>ip \<in> set (IPAddresses c). IsLoopback ip)
     \<and> (DNSNames c \<noteq> [] \<or> IPAddresses c \<noteq> []) \<and> EmailAddresses c = [] \<and> URIs c = []
     \<and> (CommonName (Subject c) = '''' \<or> isLoopbackTarget L (CommonName (Subject c)))"

lemma blankCert_simps [simp]:
  "IsCA blankCert = False" "EmailAddresses blankCert = []" "URIs blankCert = []"
  "DNSNames blankCert = []" "IPAddresses blankCert = []" "CommonName (plainName cn) = cn"
  by (simp_all add: blankCert_def plainName_def)

lemma x509OkD: "x509Ok L \<Longrightarrow> createCertificate L r t p pub k = Some der \<Longrightarrow>
    \<exists>c. parseCertificate L der = Some c \<and> certOf t der pub c"
  by (auto simp: x509Ok_def)

lemma SignCSR_loopback:
  assumes "SignCSR L ca csr True w = (Inr res, w')" "x509Ok L" "pemOk L"
  obtains c where "resCert res = Some c" "loopbackCert L c" "PublicKey c = csrPublicKey csr"
    "resCertPEM res = pemEncode L ''CERTIFICATE'' (Raw c)" "0 \<le> SerialNumber c" "SerialNumber c < 2 ^ 128"
proof -
  from assms(1) obtain r n t1 na der where
    e: "enforceLoopbackOnly L csr True = None" and
    der: "createCertificate L r (blankCert\<lparr>SerialNumber := int (n mod 2 ^ 128), Subject := csrSubject csr,
        cNotBefore := t1 - 5 * minute, cNotAfter := na, KeyUsage := {DigitalSignature, KeyEncipherment},
        ExtKeyUsage := [ServerAuth], DNSNames := csrDNSNames csr, IPAddresses := csrIPAddresses csr\<rparr>)
        (Cert ca) (csrPublicKey csr) (Key ca) = Some der" and
    res: "res = \<lparr>resCertPEM = pemEncode L ''CERTIFICATE'' der, resKeyPEM = '''', resCert = parseCertificate L der\<rparr>"
    by (auto simp: SignCSR_def Let_def newSerial_def x509CreateCertificate_def random_def
        split: if_splits option.splits)
  from x509OkD [OF assms(2) der] obtain c where c: "parseCertificate L der = Some c"
    "certOf (blankCert\<lparr>SerialNumber := int (n mod 2 ^ 128), Subject := csrSubject csr,
        cNotBefore := t1 - 5 * minute, cNotAfter := na, KeyUsage := {DigitalSignature, KeyEncipherment},
        ExtKeyUsage := [ServerAuth], DNSNames := csrDNSNames csr, IPAddresses := csrIPAddresses csr\<rparr>) der
        (csrPublicKey csr) c" by blast
  have "int (n mod 2 ^ 128) < 2 ^ 128" by (simp add: of_nat_less_iff zmod_int)
  with that c e res show thesis
    by (auto simp: certOf_def loopbackCert_def enforceLoopbackOnly_None)
qed

lemma IssueClientCert_shape:
  assumes "IssueClientCert L ca csr cn w = (Inr pem, w')" "x509Ok L"
  obtains c where "pem = pemEncode L ''CERTIFICATE'' (Raw c)" "parseCertificate L (Raw c) = Some c"
    "CommonName (Subject c) = cn" "\<not> IsCA c" "ExtKeyUsage c = [ClientAuth]" "KeyUsage c = {DigitalSignature}"
    "DNSNames c = []" "IPAddresses c = []" "PublicKey c = csrPublicKey csr"
    "0 \<le> SerialNumber c" "SerialNumber c < 2 ^ 128"
proof -
  from assms(1) obtain r n t1 na der where
    der: "createCertificate L r (blankCert\<lparr>SerialNumber := int (n mod 2 ^ 128), Subject := plainName cn,
        cNotBefore := t1 - 5 * minute, cNotAfter := na, KeyUsage := {DigitalSignature},
        ExtKeyUsage := [ClientAuth]\<rparr>) (Cert ca) (csrPublicKey csr) (Key ca) = Some der" and
    res: "pem = pemEncode L ''CERTIFICATE'' der"
    by (auto simp: IssueClientCert_def Let_def newSerial_def x509CreateCertificate_def random_def split: if_splits)
  have "int (n mod 2 ^ 128) < 2 ^ 128" by (simp add: of_nat_less_iff zmod_int)
  moreover from x509OkD [OF assms(2) der] obtain c where "parseCertificate L der = Some c"
    "certOf (blankCert\<lparr>SerialNumber := int (n mod 2 ^ 128), Subject := plainName cn,
        cNotBefore := t1 - 5 * minute, cNotAfter := na, KeyUsage := {DigitalSignature},
        ExtKeyUsage := [ClientAuth]\<rparr>) der (csrPublicKey csr) c" by blast
  ultimately show thesis using res by (intro that [of c]) (auto simp: certOf_def)
qed

section \<open>The files of an issued pair: lemmas\<close>

lemma osReadFile_NotExist: "osReadFile p w = (Inl NotExist, w') \<Longrightarrow> fs w p = None \<and> fs w' = fs w"
  by (auto simp: osReadFile_def mayFail_def run_guardE tick_def bnd_def split: option.splits fsnode.splits if_splits)

lemma osRemove_Inr: "osRemove p w = (Inr u, w') \<Longrightarrow> fs w' = (fs w)(p := None)"
  by (auto simp: osRemove_def setFs_def split: if_splits dest!: mayFail_fs)

lemma atomicWriteFile_other:
  "\<not> isTempName p \<Longrightarrow> p \<noteq> path \<Longrightarrow> atomicWriteFile path b m w = (r, w') \<Longrightarrow> fs w' p = fs w p"
  using guar_atomicWriteFile_other [of p path b m] by (auto dest!: untouched_same guar_sameD)

lemma isTempName_last:
  assumes "isTempName p"
  shows "last (baseName p) = CHR ''-'' \<or> decVal (last (baseName p)) \<noteq> None"
proof -
  from assms obtain t where t: "baseName p = ''.natssl-'' @ t" "list_all (\<lambda>c. decVal c \<noteq> None) t"
    by (auto simp: isTempName_def startsWith_iff)
  then show ?thesis by (cases "t = []") (auto simp: list_all_iff)
qed

lemma baseName_issued: "CHR ''/'' \<notin> set ext \<Longrightarrow> baseName (issuedBase L cfg t @ ext) = sanitizeName L t @ ext"
proof -
  assume "CHR ''/'' \<notin> set ext"
  moreover have "CHR ''/'' \<notin> set (sanitizeName L t)"
    using sanitizeName_safe [of "CHR ''/''" L t] by (auto simp: badNameChar_def)
  ultimately show ?thesis
    using baseName_snoc [of "sanitizeName L t @ ext" "issuedDir cfg"] by (simp add: issuedBase_def)
qed

lemma issued_notTemp [simp]:
  "\<not> isTempName (issuedBase L cfg t @ ''.key'')" "\<not> isTempName (issuedBase L cfg t @ ''.crt'')"
  by (auto dest!: isTempName_last simp: baseName_issued decVal_def)

text \<open>Writing a pair: both files are new, or the certificate is the old one and so is the key, unless
  putting the old key back failed too (then the error says so).\<close>

lemma writeIssuedFiles_Inr:
  assumes "writeIssuedFiles L cfg t res w = (Inr u, w')"
  shows "fs w' (issuedBase L cfg t @ ''.key'') = Some (File (resKeyPEM res) o600)"
    and "fs w' (issuedBase L cfg t @ ''.crt'') = Some (File (resCertPEM res) o644)"
proof -
  let ?b = "issuedBase L cfg t"
  from assms obtain w1 w2 where
    k: "atomicWriteFile (?b @ ''.key'') (resKeyPEM res) o600 w1 = (Inr (), w2)" and
    c: "atomicWriteFile (?b @ ''.crt'') (resCertPEM res) o644 w2 = (Inr (), w')"
    by (auto simp: writeIssuedFiles_def Let_def split: sum.splits if_splits)
  have "fs w' (?b @ ''.key'') = fs w2 (?b @ ''.key'')" by (rule atomicWriteFile_other [OF _ _ c]) simp_all
  with atomicWriteFile_Inr [OF _ k] show "fs w' (?b @ ''.key'') = Some (File (resKeyPEM res) o600)" by simp
  from atomicWriteFile_Inr [OF _ c] show "fs w' (?b @ ''.crt'') = Some (File (resCertPEM res) o644)" by simp
qed

lemma undoKey:
  assumes "(case r of Inl _ \<Rightarrow> osRemove k | Inr old \<Rightarrow> atomicWriteFile k old o600) w = (rb, w')"
    and "\<not> isTempName k" "\<not> isTempName c" "c \<noteq> k"
  shows "fs w' c = fs w c"
    and "rb = Inr u \<Longrightarrow> fileBytes (fs w') k = (case r of Inl _ \<Rightarrow> None | Inr old \<Rightarrow> Some old)"
proof -
  have "guar (untouched c) (case r of Inl _ \<Rightarrow> osRemove k | Inr old \<Rightarrow> atomicWriteFile k old o600)"
    using assms by (auto intro!: guar_intros path_intros)
  with assms(1) show "fs w' c = fs w c" by (auto dest!: untouched_same guar_sameD)
  show "fileBytes (fs w') k = (case r of Inl _ \<Rightarrow> None | Inr old \<Rightarrow> Some old)" if "rb = Inr u"
    using assms(1,2) that
    by (cases r) (auto simp: fileBytes_def dest!: osRemove_Inr atomicWriteFile_Inr)
qed

lemma writeIssuedFiles_Inl:
  assumes "writeIssuedFiles L cfg t res w = (Inl e, w')"
  shows "fs w' (issuedBase L cfg t @ ''.crt'') = fs w (issuedBase L cfg t @ ''.crt'')"
    and "fileBytes (fs w') (issuedBase L cfg t @ ''.key'') = fileBytes (fs w) (issuedBase L cfg t @ ''.key'')
      \<or> (\<exists>e1 e2. e = Join e1 e2)"
proof -
  let ?k = "issuedBase L cfg t @ ''.key''" and ?c = "issuedBase L cfg t @ ''.crt''"
  from assms obtain r w1 where r: "osReadFile ?k w = (r, w1)"
    by (auto simp: writeIssuedFiles_def Let_def)
  have f1: "fs w1 = fs w" using guar_osReadFile [of "same fs" ?k] r by (auto dest: guar_sameD)
  define undo where "undo = (case r of Inl _ \<Rightarrow> osRemove ?k | Inr old \<Rightarrow> atomicWriteFile ?k old o600)"
  consider (read) "w' = w1" | (key) "atomicWriteFile ?k (resKeyPEM res) o600 w1 = (Inl e, w')"
    | (crt) w2 w3 err rb where "r = Inl NotExist \<or> (\<exists>old. r = Inr old)"
       "atomicWriteFile ?k (resKeyPEM res) o600 w1 = (Inr (), w2)"
       "atomicWriteFile ?c (resCertPEM res) o644 w2 = (Inl err, w3)"
       "undo w3 = (rb, w')" "e = joinErrors err rb"
    using assms r
    by (auto simp: writeIssuedFiles_def Let_def undo_def split: sum.splits if_splits elim!: bnd_InlE)
  then have "fs w' ?c = fs w ?c
    \<and> (fileBytes (fs w') ?k = fileBytes (fs w) ?k \<or> (\<exists>e1 e2. e = Join e1 e2))"
  proof cases
    case read
    with f1 show ?thesis by simp
  next
    case key
    have "fs w' ?k = fs w1 ?k" by (rule atomicWriteFile_Inl [OF _ key]) simp
    moreover have "fs w' ?c = fs w1 ?c" by (rule atomicWriteFile_other [OF _ _ key]) simp_all
    ultimately show ?thesis using f1 by (simp add: fileBytes_def)
  next
    case crt
    have "fs w3 ?c = fs w2 ?c" by (rule atomicWriteFile_Inl [OF _ crt(3)]) simp
    moreover have "fs w2 ?c = fs w1 ?c" by (rule atomicWriteFile_other [OF _ _ crt(2)]) simp_all
    moreover have "fs w' ?c = fs w3 ?c" by (rule undoKey(1) [OF crt(4) [unfolded undo_def]]) simp_all
    moreover have "fileBytes (fs w') ?k = fileBytes (fs w) ?k" if "rb = Inr ()"
    proof -
      have "fileBytes (fs w') ?k = (case r of Inl _ \<Rightarrow> None | Inr old \<Rightarrow> Some old)"
        by (rule undoKey(2) [OF crt(4) [unfolded undo_def] _ _ _ that, of ?c]) simp_all
      also have "\<dots> = fileBytes (fs w) ?k"
        using crt(1) r by (auto simp: fileBytes_def dest!: osReadFile_NotExist osReadFile_Inr)
      finally show ?thesis .
    qed
    ultimately show ?thesis using f1 crt(5) by (cases rb) (auto simp: joinErrors_def)
  qed
  then show "fs w' ?c = fs w ?c"
    and "fileBytes (fs w') ?k = fileBytes (fs w) ?k \<or> (\<exists>e1 e2. e = Join e1 e2)" by simp_all
qed

end
