(* ===== verification/Recovery.thy ===== *)
theory Recovery
  imports CertAuthority
begin

text \<open>
  \<^verbatim>\<open>recovery.go\<close>: the recovery key pair, made from 32 bytes of entropy that the administrator keeps as
  24 words, and the sealed box that keeps the cache's AES key. The lemmas show that the words give the
  key pair back, and that the pair opens what was sealed for its public half.
\<close>

record RecoveryKey =
  Private :: bytes
  Public :: bytes

definition recoveryFromEntropy :: "lib \<Rightarrow> bytes \<Rightarrow> error + RecoveryKey" where
  "recoveryFromEntropy L entropy =
     (if length entropy \<noteq> 32 then Inl (Msg ''recovery entropy must be 32 bytes (24 words)'')
      else case x25519Base L entropy of
        None \<Rightarrow> Inl (Msg ''curve25519'')
      | Some pub \<Rightarrow> Inr \<lparr>Private = entropy, Public = pub\<rparr>)"

definition GenerateRecovery :: "lib \<Rightarrow> (RecoveryKey \<times> string) io" where
  "GenerateRecovery L =
     bnd (mayFail IOErr) (\<lambda>_.
     bnd random (\<lambda>r.
     let entropy = randomBytes L r 32 in
     bnd (need (Msg ''bip39'') (newMnemonic L entropy)) (\<lambda>mnemonic.
     bnd (lift (recoveryFromEntropy L entropy)) (\<lambda>rk.
     ret (rk, mnemonic)))))"

definition RecoveryFromMnemonic :: "lib \<Rightarrow> string \<Rightarrow> error + RecoveryKey" where
  "RecoveryFromMnemonic L mnemonic =
     (case entropyFromMnemonic L mnemonic of
        None \<Rightarrow> Inl (Msg ''invalid 24-word seed phrase'')
      | Some entropy \<Rightarrow> recoveryFromEntropy L entropy)"

definition PublicBase64 :: "lib \<Rightarrow> RecoveryKey \<Rightarrow> string" where
  "PublicBase64 L rk = base64Encode L (Public rk)"

definition RecoveryPublicFromBase64 :: "lib \<Rightarrow> string \<Rightarrow> error + bytes" where
  "RecoveryPublicFromBase64 L s =
     (case base64Decode L s of
        None \<Rightarrow> Inl (Msg ''invalid recovery public key'')
      | Some raw \<Rightarrow> if length raw \<noteq> 32 then Inl (Msg ''invalid recovery public key'') else Inr raw)"

definition SealKeyToRecovery :: "lib \<Rightarrow> bytes \<Rightarrow> bytes \<Rightarrow> bytes io" where
  "SealKeyToRecovery L aesKey pub =
     bnd random (\<lambda>r. need (Msg ''box: cannot seal'') (sealAnonymous L r aesKey pub))"

definition OpenKeyWithRecovery :: "lib \<Rightarrow> bytes \<Rightarrow> RecoveryKey \<Rightarrow> error + bytes" where
  "OpenKeyWithRecovery L sealed rk =
     (case openAnonymous L sealed (Public rk) (Private rk) of
        None \<Rightarrow> Inl (Msg ''recovery key does not match this network cache'')
      | Some out \<Rightarrow> Inr out)"

section \<open>Lemmas\<close>

text \<open>A recovery key pair: 32 bytes and their public point.\<close>

definition recoveryPair :: "lib \<Rightarrow> RecoveryKey \<Rightarrow> bool" where
  "recoveryPair L rk \<longleftrightarrow> length (Private rk) = 32 \<and> x25519Base L (Private rk) = Some (Public rk)"

lemma recoveryFromEntropy_pair: "recoveryFromEntropy L e = Inr rk \<Longrightarrow> recoveryPair L rk \<and> Private rk = e"
  by (auto simp: recoveryFromEntropy_def recoveryPair_def split: if_splits option.splits)

lemma GenerateRecovery_words:
  assumes "GenerateRecovery L w = (Inr (rk, words), w')" "bip39Ok L"
  shows "recoveryPair L rk" "RecoveryFromMnemonic L words = Inr rk"
  using assms by (auto simp: GenerateRecovery_def Let_def RecoveryFromMnemonic_def bip39Ok_def
      dest!: recoveryFromEntropy_pair)

lemma SealKey_opens:
  assumes "SealKeyToRecovery L k (Public rk) w = (Inr sealed, w')" "recoveryPair L rk" "boxOk L"
  shows "OpenKeyWithRecovery L sealed rk = Inr k" "length sealed = length k + 48"
proof -
  from assms have "openAnonymous L sealed (Public rk) (Private rk) = Some k \<and> length sealed = length k + 48"
    by (auto simp: SealKeyToRecovery_def recoveryPair_def boxOk_def)
  then show "OpenKeyWithRecovery L sealed rk = Inr k" "length sealed = length k + 48"
    by (simp_all add: OpenKeyWithRecovery_def)
qed

lemma RecoveryPublic_roundtrip:
  assumes "base64Ok L" "length (Public rk) = 32"
  shows "RecoveryPublicFromBase64 L (PublicBase64 L rk) = Inr (Public rk)"
  using assms by (simp add: RecoveryPublicFromBase64_def PublicBase64_def base64Ok_def)

lemma guar_recovery [guar_intros]:
  assumes "quiet R"
  shows "guar R (GenerateRecovery L)" "guar R (SealKeyToRecovery L k p)"
  using assms by (auto simp: GenerateRecovery_def SealKeyToRecovery_def Let_def intro!: guar_intros)

end
