(* ===== verification/Store.thy ===== *)
theory Store
  imports Recovery "HOL-Library.Monad_Syntax"
begin

text \<open>
  \<^verbatim>\<open>store.go\<close>: the methods of \<^verbatim>\<open>Store\<close>. A handle is the path of the database; \<open>sqlRun\<close> executes one of
  the statements of theory \<open>Tables\<close> on it, or fails and changes nothing; \<open>transact\<close> is a
  transaction, whose changes are undone when a statement or the commit fails. \<open>Snapshot\<close> is the
  replicated state, \<open>snapshotJSON\<close> and \<open>snapshotOfJSON\<close> its JSON form by the struct tags.

  The lemmas give the outcome of every method, that the database stays well formed, that nothing but
  a restore removes a revocation, that the two counters only grow (locale \<open>counter\<close>), and that restoring
  a snapshot of a database gives the database's contents.
\<close>

section \<open>Statements and transactions\<close>

definition dbErr :: error where
  "dbErr = Msg ''database''"

definition sqlRun :: "string \<Rightarrow> (store \<Rightarrow> 'a \<times> store) \<Rightarrow> 'a io" where
  "sqlRun h f = bnd (mayFail dbErr) (\<lambda>_. bnd (gets (\<lambda>w. dbs w h)) (\<lambda>db.
     case db of
       None \<Rightarrow> throw dbErr
     | Some s \<Rightarrow> bnd (modify (\<lambda>w. w\<lparr>dbs := (dbs w)(h \<mapsto> snd (f s))\<rparr>)) (\<lambda>_. ret (fst (f s)))))"

definition sqlExec :: "string \<Rightarrow> (store \<Rightarrow> store) \<Rightarrow> unit io" where
  "sqlExec h f = sqlRun h (\<lambda>s. ((), f s))"

definition sqlQuery :: "string \<Rightarrow> (store \<Rightarrow> 'a) \<Rightarrow> 'a io" where
  "sqlQuery h f = sqlRun h (\<lambda>s. (f s, s))"

text \<open>A transaction with its deferred rollback.\<close>

definition transact :: "string \<Rightarrow> 'a io \<Rightarrow> 'a io" where
  "transact h m =
     bnd (mayFail dbErr) (\<lambda>_.
     bnd (gets (\<lambda>w. dbs w h)) (\<lambda>old.
     bnd (attempt (bnd m (\<lambda>x. bnd (mayFail dbErr) (\<lambda>_. ret x)))) (\<lambda>r.
     case r of
       Inr x \<Rightarrow> ret x
     | Inl e \<Rightarrow> bnd (modify (\<lambda>w. w\<lparr>dbs := (dbs w)(h := old)\<rparr>)) (\<lambda>_. throw e))))"

text \<open>Opening the database creates it and its tables if they are missing.\<close>

definition OpenStore :: "string \<Rightarrow> string io" where
  "OpenStore path =
     bnd (mayFail dbErr) (\<lambda>_.
     bnd (mayFail dbErr) (\<lambda>_.
     bnd (mayFail dbErr) (\<lambda>_.
     bnd (modify (\<lambda>w. w\<lparr>dbs := (dbs w)(path \<mapsto>
       sqlMigrate (case dbs w path of None \<Rightarrow> emptyStore | Some s \<Rightarrow> s))\<rparr>)) (\<lambda>_.
     ret path))))"

section \<open>Clients\<close>

definition AddClient :: "string \<Rightarrow> string \<Rightarrow> bool io" where
  "AddClient st ip0 =
     (let ip = TrimSpace ip0 in
      if ip = '''' then ret False
      else
      bnd timeNow (\<lambda>t.
      bnd (attempt (sqlRun st (\<lambda>s. (ip \<notin> clientKeys s, sqlInsertClient ip t s)))) (\<lambda>r.
      case r of Inl _ \<Rightarrow> ret False | Inr added \<Rightarrow> ret added)))"

definition RemoveClient :: "string \<Rightarrow> string \<Rightarrow> unit io" where
  "RemoveClient st ip = sqlExec st (sqlDeleteClient (TrimSpace ip))"

definition ListClients :: "string \<Rightarrow> string list io" where
  "ListClients st = sqlQuery st (\<lambda>s. sort_key id (map ciIP (clientsTab s)))"

definition ListClientsInfo :: "string \<Rightarrow> ClientInfo list io" where
  "ListClientsInfo st = sqlQuery st (\<lambda>s. sort_key ciIP (clientsTab s))"

definition hasClient :: "string \<Rightarrow> string \<Rightarrow> bool io" where
  "hasClient st ip = sqlQuery st (\<lambda>s. ip \<in> clientKeys s)"

definition registerClient :: "string \<Rightarrow> string \<Rightarrow> bool io" where
  "registerClient st ip = bnd timeNow (\<lambda>t.
     sqlRun st (\<lambda>s. (ip \<notin> clientKeys s, sqlInsertClient ip t s)))"

section \<open>Certificates\<close>

definition AddCert :: "string \<Rightarrow> CertRecord \<Rightarrow> unit io" where
  "AddCert st rec = sqlExec st (sqlUpsertCert rec)"

definition ListCerts :: "string \<Rightarrow> CertRecord list io" where
  "ListCerts st = sqlQuery st (\<lambda>s. sort_key NotBefore (certsTab s))"

definition CertBySerial :: "string \<Rightarrow> string \<Rightarrow> CertRecord option io" where
  "CertBySerial st serial = sqlQuery st (\<lambda>s. find (\<lambda>c. SerialHex c = serial) (certsTab s))"

definition CertsBySubject :: "string \<Rightarrow> string \<Rightarrow> CertRecord list io" where
  "CertsBySubject st subject = sqlQuery st (\<lambda>s.
     sort_key NotBefore (filter (\<lambda>c. asciiLower (crSubject c) = asciiLower subject) (certsTab s)))"

section \<open>Revocation\<close>

text \<open>\<^verbatim>\<open>normalizeSerial\<close> of \<^verbatim>\<open>admin.go\<close>\<close>

definition normalizeSerial :: "lib \<Rightarrow> string \<Rightarrow> string" where
  "normalizeSerial L s0 =
     (let s = removeChar CHR '':'' (ToLower (uniLower L) (TrimSpace s0)) in
      case bigSetString16 s of
        Some n \<Rightarrow> if n > 0 then bigText16 n else s
      | None \<Rightarrow> s)"

definition RevokeCert :: "lib \<Rightarrow> string \<Rightarrow> string \<Rightarrow> string \<Rightarrow> int \<Rightarrow> unit io" where
  "RevokeCert L st serialHex subject reason =
     (case bigSetString16 (normalizeSerial L serialHex) of
        None \<Rightarrow> throw (Msg ''invalid certificate serial'')
      | Some n \<Rightarrow>
          if n \<le> 0 then throw (Msg ''invalid certificate serial'')
          else bnd timeNow (\<lambda>t. sqlExec st (sqlInsertRevoked (bigText16 n) subject reason t)))"

definition IsRevoked :: "string \<Rightarrow> string \<Rightarrow> bool io" where
  "IsRevoked st serial = sqlQuery st (\<lambda>s. serial \<in> revokedKeys s)"

definition ListRevoked :: "string \<Rightarrow> RevokedRecord list io" where
  "ListRevoked st = sqlQuery st (\<lambda>s. sort_key RevokedAt (revokedTab s))"

definition RevokedSet :: "string \<Rightarrow> string set io" where
  "RevokedSet st = bnd (ListRevoked st) (\<lambda>recs. ret (set (map rvSerialHex recs)))"

section \<open>The blacklist\<close>

definition BlockIP :: "string \<Rightarrow> string \<Rightarrow> string \<Rightarrow> unit io" where
  "BlockIP st ip reason = bnd timeNow (\<lambda>t. sqlExec st (sqlUpsertBlock (TrimSpace ip) reason t))"

definition UnblockIP :: "string \<Rightarrow> string \<Rightarrow> unit io" where
  "UnblockIP st ip = sqlExec st (sqlDeleteBlock (TrimSpace ip))"

definition IsBlocked :: "string \<Rightarrow> string \<Rightarrow> bool io" where
  "IsBlocked st ip = sqlQuery st (\<lambda>s. TrimSpace ip \<in> blockedKeys s)"

definition ListBlocked :: "string \<Rightarrow> BlockRecord list io" where
  "ListBlocked st = sqlQuery st (\<lambda>s. sort_key bIP (blacklistTab s))"

section \<open>Snapshots\<close>

record Snapshot =
  snVersion :: int
  snEnrollmentToken :: string
  snClientNetworks :: "string list"
  snCRLNumber :: int
  snSequence :: "64 word"
  snCreatedAt :: time
  snFingerprint :: string
  snCACertPEM :: string
  snCAKeyPEM :: string
  snClients :: "string list"
  snCerts :: "CertRecord list"
  snRevoked :: "RevokedRecord list"
  snBlacklist :: "BlockRecord list"

definition caPEM :: "lib \<Rightarrow> CA \<Rightarrow> error + string \<times> string" where
  "caPEM L ca =
     (let cert = pemEncode L ''CERTIFICATE'' (CertDER ca) in
      case marshalPKCS8 L (Key ca) of
        None \<Rightarrow> Inl (Msg ''marshal CA key'')
      | Some keyDER \<Rightarrow> Inr (cert, pemEncode L ''PRIVATE KEY'' keyDER))"

text \<open>A value read into an \<^verbatim>\<open>int64\<close> or \<^verbatim>\<open>uint64\<close>: a REAL (see \<open>sqlSucc\<close>) is an error.\<close>

definition scanInt :: "int \<Rightarrow> int io" where
  "scanInt v = (if v \<le> maxInteger then ret v else throw (Msg ''sql: Scan error''))"

definition scanUint :: "int \<Rightarrow> (64 word) io" where
  "scanUint v = (if 0 \<le> v \<and> v \<le> maxInteger then ret (word_of_int v) else throw (Msg ''sql: Scan error''))"

definition buildSnapshot :: "lib \<Rightarrow> string \<Rightarrow> CA \<Rightarrow> Snapshot io" where
  "buildSnapshot L st ca =
     bnd (bnd (sqlQuery st (\<lambda>s. case stateGet ''crl_number'' s of Some v \<Rightarrow> v | None \<Rightarrow> 0)) scanInt) (\<lambda>crlNumber.
     bnd (ListClients st) (\<lambda>clients.
     bnd (ListCerts st) (\<lambda>certs.
     bnd (ListRevoked st) (\<lambda>revoked.
     bnd (ListBlocked st) (\<lambda>blacklist.
     bnd (lift (caPEM L ca)) (\<lambda>(certPEM, keyPEM).
     bnd timeNow (\<lambda>now.
     ret \<lparr>snVersion = 1, snEnrollmentToken = '''', snClientNetworks = [], snCRLNumber = crlNumber,
          snSequence = 0, snCreatedAt = now, snFingerprint = Fingerprint L ca, snCACertPEM = certPEM,
          snCAKeyPEM = keyPEM, snClients = clients, snCerts = certs, snRevoked = revoked,
          snBlacklist = blacklist\<rparr>)))))))"

definition BuildSnapshot :: "lib \<Rightarrow> string \<Rightarrow> CA \<Rightarrow> Snapshot io" where
  "BuildSnapshot L st ca = transact st (buildSnapshot L st ca)"

text \<open>An unsigned parameter above the range of an INTEGER is refused by the database driver.\<close>

definition sqlUint :: "64 word \<Rightarrow> int io" where
  "sqlUint n = (if uint n \<le> maxInteger then ret (uint n) else throw (Msg ''uint64 values with high bit set are not supported''))"

definition orNow :: "time \<Rightarrow> time io" where
  "orNow t = (if t = zeroTime then timeNow else ret t)"

definition restoreTables :: "string \<Rightarrow> Snapshot \<Rightarrow> unit io" where
  "restoreTables st snap =
     bnd (sqlExec st (\<lambda>s. s\<lparr>clientsTab := []\<rparr>)) (\<lambda>_.
     bnd (forEach (snClients snap) (\<lambda>ip.
       bnd timeNow (\<lambda>t. sqlExec st (sqlInsertClient (TrimSpace ip) t)))) (\<lambda>_.
     bnd (sqlExec st (\<lambda>s. s\<lparr>certsTab := []\<rparr>)) (\<lambda>_.
     bnd (forEach (snCerts snap) (\<lambda>c. sqlExec st (\<lambda>s. s\<lparr>certsTab := insReplace ID c (certsTab s)\<rparr>))) (\<lambda>_.
     bnd (sqlExec st (\<lambda>s. s\<lparr>revokedTab := []\<rparr>)) (\<lambda>_.
     bnd (forEach (snRevoked snap) (\<lambda>r.
       bnd (orNow (RevokedAt r)) (\<lambda>ra.
       sqlExec st (\<lambda>s. s\<lparr>revokedTab := insReplace rvSerialHex (r\<lparr>RevokedAt := ra\<rparr>) (revokedTab s)\<rparr>)))) (\<lambda>_.
     bnd (sqlExec st (\<lambda>s. s\<lparr>blacklistTab := []\<rparr>)) (\<lambda>_.
     bnd (forEach (snBlacklist snap) (\<lambda>b.
       bnd (orNow (bAddedAt b)) (\<lambda>ba.
       sqlExec st (\<lambda>s. s\<lparr>blacklistTab :=
         insReplace bIP (b\<lparr>bIP := TrimSpace (bIP b), bAddedAt := ba\<rparr>) (blacklistTab s)\<rparr>)))) (\<lambda>_.
     bnd (bnd (sqlUint (snSequence snap)) (\<lambda>n. sqlExec st (stateUpdate ''cache_sequence'' (\<lambda>v. max v n)))) (\<lambda>_.
     sqlExec st (stateUpsert ''crl_number'' (\<lambda>v. max v (snCRLNumber snap)) (snCRLNumber snap)))))))))))"

definition RestoreSnapshot :: "string \<Rightarrow> Snapshot \<Rightarrow> unit io" where
  "RestoreSnapshot st snap =
     (if snVersion snap \<noteq> 1 then throw (Msg ''unsupported snapshot version'')
      else transact st (restoreTables st snap))"

section \<open>Counters\<close>

definition nextCacheSequence :: "string \<Rightarrow> (64 word) io" where
  "nextCacheSequence st =
     bnd (sqlRun st (\<lambda>s. let s' = stateUpdate ''cache_sequence'' sqlSucc s in
       (stateGet ''cache_sequence'' s', s'))) (\<lambda>v.
     case v of
       None \<Rightarrow> throw (Msg ''sql: no rows in result set'')
     | Some n \<Rightarrow> scanUint n)"

definition nextCRLNumber :: "string \<Rightarrow> int \<Rightarrow> int io" where
  "nextCRLNumber st floor =
     bnd (sqlRun st (\<lambda>s. let s' = stateUpsert ''crl_number'' (\<lambda>v. max (sqlSucc v) floor) floor s in
       (case stateGet ''crl_number'' s' of Some v \<Rightarrow> v | None \<Rightarrow> floor, s'))) scanInt"

section \<open>Replacing a certificate\<close>

definition crlReasonSuperseded :: int where
  "crlReasonSuperseded = 4"

definition replaceCertificate :: "string \<Rightarrow> CertRecord \<Rightarrow> int io" where
  "replaceCertificate st rec =
     transact st (
       bnd (sqlExec st (sqlUpsertCert rec)) (\<lambda>_.
       bnd timeNow (\<lambda>t.
       sqlRun st (\<lambda>s. let s' = sqlRevokeOthers (crSubject rec) (SerialHex rec) crlReasonSuperseded t s in
         (int (length (revokedTab s')) - int (length (revokedTab s)), s')))))"

section \<open>The JSON form of a snapshot\<close>

definition decTime :: "lib \<Rightarrow> json \<Rightarrow> time option" where
  "decTime L j = Option.bind (decStr j) (timeOfText L)"

definition certJSON :: "lib \<Rightarrow> CertRecord \<Rightarrow> json" where
  "certJSON L c = JObj [(''id'', JStr (ID c)), (''subject'', JStr (crSubject c)), (''sans'', JStr (SANs c)),
     (''not_before'', JStr (timeText L (NotBefore c))), (''not_after'', JStr (timeText L (NotAfter c))),
     (''client_pub'', JStr (ClientPub c)), (''serial_hex'', JStr (SerialHex c)), (''cert_pem'', JStr (CertPEM c))]"

definition certOfJSON :: "lib \<Rightarrow> (string \<times> json) list \<Rightarrow> CertRecord option" where
  "certOfJSON L kvs =
     do { i \<leftarrow> decField decStr '''' ''id'' kvs; sub \<leftarrow> decField decStr '''' ''subject'' kvs;
          sans \<leftarrow> decField decStr '''' ''sans'' kvs; nb \<leftarrow> decField (decTime L) zeroTime ''not_before'' kvs;
          na \<leftarrow> decField (decTime L) zeroTime ''not_after'' kvs; pub \<leftarrow> decField decStr '''' ''client_pub'' kvs;
          ser \<leftarrow> decField decStr '''' ''serial_hex'' kvs; pem \<leftarrow> decField decStr '''' ''cert_pem'' kvs;
          Some \<lparr>ID = i, crSubject = sub, SANs = sans, NotBefore = nb, NotAfter = na, ClientPub = pub,
                SerialHex = ser, CertPEM = pem\<rparr> }"

definition revokedJSON :: "lib \<Rightarrow> RevokedRecord \<Rightarrow> json" where
  "revokedJSON L r = JObj [(''serial_hex'', JStr (rvSerialHex r)), (''subject'', JStr (rvSubject r)),
     (''reason'', JInt (Reason r)), (''revoked_at'', JStr (timeText L (RevokedAt r)))]"

definition revokedOfJSON :: "lib \<Rightarrow> (string \<times> json) list \<Rightarrow> RevokedRecord option" where
  "revokedOfJSON L kvs =
     do { ser \<leftarrow> decField decStr '''' ''serial_hex'' kvs; sub \<leftarrow> decField decStr '''' ''subject'' kvs;
          rea \<leftarrow> decField decInt64 0 ''reason'' kvs; ra \<leftarrow> decField (decTime L) zeroTime ''revoked_at'' kvs;
          Some \<lparr>rvSerialHex = ser, rvSubject = sub, Reason = rea, RevokedAt = ra\<rparr> }"

definition blockJSON :: "lib \<Rightarrow> BlockRecord \<Rightarrow> json" where
  "blockJSON L b = JObj [(''ip'', JStr (bIP b)), (''reason'', JStr (bReason b)),
     (''added_at'', JStr (timeText L (bAddedAt b)))]"

definition blockOfJSON :: "lib \<Rightarrow> (string \<times> json) list \<Rightarrow> BlockRecord option" where
  "blockOfJSON L kvs =
     do { ip \<leftarrow> decField decStr '''' ''ip'' kvs; rea \<leftarrow> decField decStr '''' ''reason'' kvs;
          aa \<leftarrow> decField (decTime L) zeroTime ''added_at'' kvs;
          Some \<lparr>bIP = ip, bReason = rea, bAddedAt = aa\<rparr> }"

definition zeroCertRecord :: CertRecord where
  "zeroCertRecord = \<lparr>ID = '''', crSubject = '''', SANs = '''', NotBefore = zeroTime, NotAfter = zeroTime,
     ClientPub = '''', SerialHex = '''', CertPEM = ''''\<rparr>"

definition zeroRevoked :: RevokedRecord where
  "zeroRevoked = \<lparr>rvSerialHex = '''', rvSubject = '''', Reason = 0, RevokedAt = zeroTime\<rparr>"

definition zeroBlock :: BlockRecord where
  "zeroBlock = \<lparr>bIP = '''', bReason = '''', bAddedAt = zeroTime\<rparr>"

definition snapshotJSON :: "lib \<Rightarrow> Snapshot \<Rightarrow> json" where
  "snapshotJSON L s = JObj [(''version'', JInt (snVersion s)), (''enrollment_token'', JStr (snEnrollmentToken s)),
     (''client_networks'', encList JStr (snClientNetworks s)), (''crl_number'', JInt (snCRLNumber s)),
     (''sequence'', JInt (uint (snSequence s))), (''created_at'', JStr (timeText L (snCreatedAt s))),
     (''fingerprint'', JStr (snFingerprint s)), (''ca_cert_pem'', JStr (snCACertPEM s)),
     (''ca_key_pem'', JStr (snCAKeyPEM s)), (''clients'', encList JStr (snClients s)),
     (''certs'', encList (certJSON L) (snCerts s)), (''revoked'', encList (revokedJSON L) (snRevoked s)),
     (''blacklist'', encList (blockJSON L) (snBlacklist s))]"

definition snapshotOfJSON :: "lib \<Rightarrow> (string \<times> json) list \<Rightarrow> Snapshot option" where
  "snapshotOfJSON L kvs =
     do { v \<leftarrow> decField decInt64 0 ''version'' kvs; tok \<leftarrow> decField decStr '''' ''enrollment_token'' kvs;
          nets \<leftarrow> decSlice (decList decStr '''') ''client_networks'' kvs;
          crl \<leftarrow> decField decInt64 0 ''crl_number'' kvs; sq \<leftarrow> decField decUint64 0 ''sequence'' kvs;
          ca \<leftarrow> decField (decTime L) zeroTime ''created_at'' kvs;
          fp \<leftarrow> decField decStr '''' ''fingerprint'' kvs; cert \<leftarrow> decField decStr '''' ''ca_cert_pem'' kvs;
          key \<leftarrow> decField decStr '''' ''ca_key_pem'' kvs; cl \<leftarrow> decSlice (decList decStr '''') ''clients'' kvs;
          cs \<leftarrow> decSlice (decList (decObj (certOfJSON L)) zeroCertRecord) ''certs'' kvs;
          rv \<leftarrow> decSlice (decList (decObj (revokedOfJSON L)) zeroRevoked) ''revoked'' kvs;
          bl \<leftarrow> decSlice (decList (decObj (blockOfJSON L)) zeroBlock) ''blacklist'' kvs;
          Some \<lparr>snVersion = v, snEnrollmentToken = tok, snClientNetworks = nets, snCRLNumber = crl,
                snSequence = sq, snCreatedAt = ca, snFingerprint = fp, snCACertPEM = cert, snCAKeyPEM = key,
                snClients = cl, snCerts = cs, snRevoked = rv, snBlacklist = bl\<rparr> }"

section \<open>Outcomes of statements\<close>

lemma sqlRun_Inr:
  assumes "sqlRun h f w = (Inr x, w')"
  obtains s where "dbs w h = Some s" "x = fst (f s)" "dbs w' = (dbs w)(h \<mapsto> snd (f s))" "fs w' = fs w"
  using assms by (auto simp: sqlRun_def mayFail_def run_guardE tick_def split: option.splits if_splits)

lemma sqlRun_Inl: "sqlRun h f w = (Inl e, w') \<Longrightarrow> dbs w' = dbs w \<and> fs w' = fs w"
  by (auto simp: sqlRun_def mayFail_def run_guardE tick_def bnd_def split: option.splits if_splits)

lemma sqlExec_Inr:
  assumes "sqlExec h f w = (Inr x, w')"
  obtains s where "dbs w h = Some s" "dbs w' = (dbs w)(h \<mapsto> f s)"
  using assms unfolding sqlExec_def by (elim sqlRun_Inr) auto

lemma sqlQuery_Inr:
  assumes "sqlQuery h f w = (Inr x, w')"
  obtains s where "dbs w h = Some s" "x = f s" "dbs w' = dbs w"
  using assms unfolding sqlQuery_def by (elim sqlRun_Inr) (auto simp: fun_upd_idem)

lemma guar_sqlQuery_same: "quiet R \<Longrightarrow> guar R (sqlQuery h f)"
proof -
  assume R: "quiet R"
  have upd: "w\<lparr>dbs := (dbs w)(h \<mapsto> s)\<rparr> = w" if "dbs w h = Some s" for w :: world and s
  proof -
    have "(dbs w)(h \<mapsto> s) = dbs w" using that by (rule fun_upd_idem)
    then show ?thesis by simp
  qed
  have "snd (sqlQuery h f w) = snd ((mayFail dbErr :: (world, error, unit) prog) w)" for w
  proof (cases "(mayFail dbErr :: (world, error, unit) prog) w")
    case (Pair r w1)
    then show ?thesis
      by (cases r; cases "dbs w1 h") (simp_all add: sqlQuery_def sqlRun_def upd)
  qed
  moreover have "guar R (mayFail dbErr :: (world, error, unit) prog)" using R by (auto intro!: guar_intros)
  ultimately show ?thesis by (simp add: guar_def)
qed

lemma timeNow_dbs: "timeNow w = (r, w') \<Longrightarrow> dbs w' = dbs w"
  by (auto simp: timeNow_def tick_def)

lemma timeNow_Inr: "timeNow w = (r, w') \<Longrightarrow> \<exists>t. r = Inr t"
  unfolding timeNow_def tick_def bnd_def gets_def by auto

lemma scanInt_Inr [simp]: "scanInt v w = (Inr x, w') \<longleftrightarrow> v \<le> maxInteger \<and> x = v \<and> w' = w"
  by (auto simp: scanInt_def)

lemma guar_scanInt [guar_intros]: "quiet R \<Longrightarrow> guar R (scanInt v)"
  by (auto simp: scanInt_def intro!: guar_intros)

lemma guar_scanUint [guar_intros]: "quiet R \<Longrightarrow> guar R (scanUint v)"
  by (auto simp: scanUint_def intro!: guar_intros)

lemma guar_sqlUint [guar_intros]: "quiet R \<Longrightarrow> guar R (sqlUint v)"
  by (auto simp: sqlUint_def intro!: guar_intros)

lemma guar_orNow [guar_intros]: "quiet R \<Longrightarrow> guar R (orNow v)"
  by (auto simp: orNow_def intro!: guar_intros)

section \<open>What the methods leave alone\<close>

text \<open>
  Relations that do not see the databases are kept by every method (\<open>dbBlind\<close>). A relation on the contents
  of each database (\<open>storeRel Q\<close>) is kept when every statement keeps \<open>Q\<close>; a transaction keeps it
  because a failed one puts the old contents back. \<open>dbInv P\<close>: every database satisfies \<open>P\<close>.
\<close>

definition dbBlind :: "(world \<Rightarrow> world \<Rightarrow> bool) \<Rightarrow> bool" where
  "dbBlind R \<longleftrightarrow> quiet R \<and> (\<forall>w D. R w (w\<lparr>dbs := D\<rparr>))"

definition storeRel :: "(store \<Rightarrow> store \<Rightarrow> bool) \<Rightarrow> world \<Rightarrow> world \<Rightarrow> bool" where
  "storeRel Q w w' \<longleftrightarrow> (\<forall>h s. dbs w h = Some s \<longrightarrow> (\<exists>s'. dbs w' h = Some s' \<and> Q s s'))"

definition dbInv :: "(store \<Rightarrow> bool) \<Rightarrow> world \<Rightarrow> bool" where
  "dbInv P w \<longleftrightarrow> (\<forall>h s. dbs w h = Some s \<longrightarrow> P s)"

lemma dbBlindD [simp]: "dbBlind R \<Longrightarrow> quiet R"
  by (simp add: dbBlind_def)

lemma dbBlind_same [simp]: "dbBlind (same fs)" "dbBlind (same held)" "dbBlind (same (\<lambda>w. fs w p))" "dbBlind (untouched p)"
  by (simp_all add: dbBlind_def) (simp_all add: same_def untouched_def)

lemma guar_dbs_blind: "dbBlind R \<Longrightarrow> guar R (modify (\<lambda>w. w\<lparr>dbs := f w\<rparr>))"
  by (simp add: guar_def dbBlind_def)

lemma guar_sqlRun_blind [db_intros]: "dbBlind R \<Longrightarrow> guar R (sqlRun h f)"
  unfolding sqlRun_def by (auto intro!: guar_intros guar_dbs_blind)

lemma guar_transact_blind [db_intros]: "dbBlind R \<Longrightarrow> guar R m \<Longrightarrow> guar R (transact h m)"
  unfolding transact_def by (auto intro!: guar_intros guar_dbs_blind)

lemma guar_OpenStore_blind [db_intros]: "dbBlind R \<Longrightarrow> guar R (OpenStore h)"
  unfolding OpenStore_def by (auto intro!: guar_intros guar_dbs_blind)

lemma storeRel_preord: "preord Q \<Longrightarrow> preord (storeRel Q)"
proof -
  assume Q: "preord Q"
  have "reflp (storeRel Q)" using Q by (auto simp: reflp_def storeRel_def preord_refl)
  moreover have "transp (storeRel Q)"
  proof (rule transpI)
    fix u v w assume 1: "storeRel Q u v" and 2: "storeRel Q v w"
    show "storeRel Q u w" unfolding storeRel_def
    proof (intro allI impI)
      fix h s assume "dbs u h = Some s"
      with 1 obtain s1 where "dbs v h = Some s1" "Q s s1" unfolding storeRel_def by blast
      moreover with 2 obtain s2 where "dbs w h = Some s2" "Q s1 s2" unfolding storeRel_def by blast
      ultimately show "\<exists>s'. dbs w h = Some s' \<and> Q s s'" using preord_trans [OF Q] by blast
    qed
  qed
  ultimately show ?thesis by (simp add: preord_def)
qed

lemma storeRel_fileBlind [simp]: "preord Q \<Longrightarrow> fileBlind (storeRel Q)"
  by (simp add: fileBlind_def quiet_def storeRel_preord) (simp add: storeRel_def preord_refl)

lemma dbInv_fileBlind [simp]: "fileBlind (keepsP (dbInv P))"
  by (simp add: fileBlind_def quiet_def) (simp add: keepsP_def dbInv_def)

lemma guar_sqlRun_rel [rel_intros]:
  assumes "preord Q" "\<And>s. Q s (snd (f s))"
  shows "guar (storeRel Q) (sqlRun h f)"
proof (rule guarI)
  fix w
  obtain r w' where run: "sqlRun h f w = (r, w')" by (cases "sqlRun h f w")
  then show "storeRel Q w (snd (sqlRun h f w))"
    using assms by (cases r) (auto simp: storeRel_def preord_refl dest!: sqlRun_Inl elim!: sqlRun_Inr)
qed

lemma guar_sqlRun_inv [inv_intros]:
  assumes "\<And>s. P s \<Longrightarrow> P (snd (f s))"
  shows "guar (keepsP (dbInv P)) (sqlRun h f)"
proof (rule guarI)
  fix w
  obtain r w' where run: "sqlRun h f w = (r, w')" by (cases "sqlRun h f w")
  then show "keepsP (dbInv P) w (snd (sqlRun h f w))"
    using assms
    by (cases r) (auto simp: keepsP_def dbInv_def split: if_splits dest!: sqlRun_Inl elim!: sqlRun_Inr)
qed

lemma transact_cases:
  assumes "transact h m w = (r, w')"
  obtains (none) e where "r = Inl e" "dbs w' = dbs w" "fs w' = fs w"
    | (undone) e w1 r1 w2 where "r = Inl e" "dbs w1 = dbs w" "fs w1 = fs w" "m w1 = (r1, w2)"
        "dbs w' = (dbs w2)(h := dbs w h)" "fs w' = fs w2"
    | (committed) x w1 w2 where "r = Inr x" "dbs w1 = dbs w" "fs w1 = fs w" "m w1 = (Inr x, w2)" "dbs w' = dbs w2"
        "fs w' = fs w2"
proof -
  obtain r0 w1 where b: "(mayFail dbErr :: unit io) w = (r0, w1)" by (cases "(mayFail dbErr :: unit io) w")
  then have w1: "dbs w1 = dbs w" "fs w1 = fs w" by (auto simp: mayFail_def run_guardE tick_def bnd_def split: if_splits)
  show thesis
  proof (cases r0)
    case (Inl e)
    with assms b w1 show thesis by (intro none [of e]) (auto simp: transact_def)
  next
    case (Inr u)
    obtain r1 w2 where m: "m w1 = (r1, w2)" by (cases "m w1")
    obtain rc w3 where c: "(mayFail dbErr :: unit io) w2 = (rc, w3)" by (cases "(mayFail dbErr :: unit io) w2")
    then have w3: "dbs w3 = dbs w2" "fs w3 = fs w2" by (auto simp: mayFail_def run_guardE tick_def bnd_def split: if_splits)
    show thesis
    proof (cases r1)
      case (Inl e)
      with assms b \<open>r0 = Inr u\<close> m w1 show thesis
        by (intro undone [of e w1 r1 w2]) (auto simp: transact_def run_attempt)
    next
      case (Inr x)
      show thesis
      proof (cases rc)
        case (Inl e)
        with assms b \<open>r0 = Inr u\<close> m c w1 w3 \<open>r1 = Inr x\<close> show thesis
          by (intro undone [of e w1 r1 w2]) (auto simp: transact_def run_attempt)
      next
        case (Inr y)
        with assms b \<open>r0 = Inr u\<close> m c w1 w3 \<open>r1 = Inr x\<close> show thesis
          by (intro committed [of x w1 w2]) (auto simp: transact_def run_attempt)
      qed
    qed
  qed
qed

lemma guar_transact_rel [rel_intros]:
  assumes "preord Q" "guar (storeRel Q) m"
  shows "guar (storeRel Q) (transact h m)"
proof (rule guarI)
  fix w
  obtain r w' where run: "transact h m w = (r, w')" by (cases "transact h m w")
  then have "storeRel Q w w'"
  proof (cases rule: transact_cases)
    case none
    with assms(1) show ?thesis by (simp add: storeRel_def preord_refl)
  next
    case (undone e w1 r1 w2)
    then have "storeRel Q w1 w2" using assms(2) by (auto dest: guarD)
    with undone assms(1) show ?thesis by (auto simp: storeRel_def preord_refl)
  next
    case (committed x w1 w2)
    then have "storeRel Q w1 w2" using assms(2) by (auto dest: guarD)
    with committed show ?thesis by (simp add: storeRel_def)
  qed
  with run show "storeRel Q w (snd (transact h m w))" by simp
qed

lemma guar_transact_inv [inv_intros]:
  assumes "guar (keepsP (dbInv P)) m"
  shows "guar (keepsP (dbInv P)) (transact h m)"
proof (rule guarI)
  fix w
  obtain r w' where run: "transact h m w = (r, w')" by (cases "transact h m w")
  then have "keepsP (dbInv P) w w'"
  proof (cases rule: transact_cases)
    case (undone e w1 r1 w2)
    then have "keepsP (dbInv P) w1 w2" using assms by (auto dest: guarD)
    with undone show ?thesis by (auto simp: keepsP_def dbInv_def split: if_splits)
  next
    case (committed x w1 w2)
    then have "keepsP (dbInv P) w1 w2" using assms by (auto dest: guarD)
    with committed show ?thesis by (simp add: keepsP_def dbInv_def)
  qed (simp add: keepsP_def dbInv_def)
  with run show "keepsP (dbInv P) w (snd (transact h m w))" by simp
qed

lemma transact_Inl_same:
  assumes "transact h m w = (Inl e, w')" "guar (same (\<lambda>w. (dbs w)(h := None))) m"
  shows "dbs w' = dbs w"
  using assms(1)
proof (cases rule: transact_cases)
  case (undone e w1 r1 w2)
  then have "(dbs w2)(h := None) = (dbs w1)(h := None)" using assms(2) by (auto dest: guar_sameD)
  with undone show ?thesis by (metis fun_upd_triv fun_upd_upd)
qed auto

section \<open>The methods keep the invariants\<close>

lemmas read_method_defs = ListClients_def ListClientsInfo_def hasClient_def ListCerts_def CertBySerial_def
  CertsBySubject_def IsRevoked_def ListRevoked_def IsBlocked_def ListBlocked_def

lemmas write_method_defs = AddClient_def RemoveClient_def registerClient_def AddCert_def RevokeCert_def
  BlockIP_def UnblockIP_def nextCacheSequence_def nextCRLNumber_def sqlExec_def

lemma guar_read_methods [guar_intros]:
  assumes "quiet R"
  shows "guar R (ListClients st)" "guar R (ListClientsInfo st)" "guar R (hasClient st ip)" "guar R (ListCerts st)"
    "guar R (CertBySerial st x)" "guar R (CertsBySubject st x)" "guar R (IsRevoked st x)" "guar R (ListRevoked st)"
    "guar R (RevokedSet st)" "guar R (IsBlocked st ip)" "guar R (ListBlocked st)"
  using assms by (auto simp: read_method_defs RevokedSet_def intro!: guar_sqlQuery_same guar_intros)

lemma guar_buildSnapshot [guar_intros]: "quiet R \<Longrightarrow> guar R (buildSnapshot L st ca)"
  unfolding buildSnapshot_def by (auto intro!: guar_intros guar_sqlQuery_same)

lemma guar_write_methods_blind [db_intros]:
  assumes "dbBlind R"
  shows "guar R (AddClient st ip)" "guar R (RemoveClient st ip)" "guar R (registerClient st ip)"
    "guar R (AddCert st rec)" "guar R (RevokeCert L st x y r)" "guar R (BlockIP st ip why)"
    "guar R (UnblockIP st ip)" "guar R (nextCacheSequence st)" "guar R (nextCRLNumber st n)"
    "guar R (BuildSnapshot L st ca)" "guar R (replaceCertificate st rec)" "guar R (RestoreSnapshot st snap)"
  using assms
  by (auto simp: write_method_defs BuildSnapshot_def replaceCertificate_def RestoreSnapshot_def restoreTables_def
      Let_def intro!: guar_intros db_intros)

text \<open>What only grows: the revocations and the two counters.\<close>

definition counterLevel :: "string \<Rightarrow> store \<Rightarrow> int" where
  "counterLevel k s = (case stateGet k s of None \<Rightarrow> - (2 ^ 63) - 1 | Some v \<Rightarrow> v)"

definition grows :: "store \<Rightarrow> store \<Rightarrow> bool" where
  "grows s s' \<longleftrightarrow> revokedKeys s \<subseteq> revokedKeys s' \<and> counterLevel ''cache_sequence'' s \<le> counterLevel ''cache_sequence'' s'
     \<and> counterLevel ''crl_number'' s \<le> counterLevel ''crl_number'' s'"

lemma preord_grows [simp]: "preord grows"
  by (auto simp: preord_def reflp_def transp_def grows_def)

lemma counterLevel_frames [simp]:
  "counterLevel k (sqlInsertClient ip t s) = counterLevel k s"
  "counterLevel k (sqlDeleteClient ip s) = counterLevel k s"
  "counterLevel k (sqlUpsertCert c s) = counterLevel k s"
  "counterLevel k (sqlInsertRevoked x y r t s) = counterLevel k s"
  "counterLevel k (sqlUpsertBlock ip why t s) = counterLevel k s"
  "counterLevel k (sqlDeleteBlock ip s) = counterLevel k s"
  "counterLevel k (sqlRevokeOthers x y r t s) = counterLevel k s"
  by (simp_all add: counterLevel_def)

lemma stateGet_sqlMigrate:
  "stateGet k (sqlMigrate s) =
     (case stateGet k s of Some v \<Rightarrow> Some v | None \<Rightarrow> if k = ''cache_sequence'' then Some 0 else None)"
  using keyed_table.get_insI [OF keyed_table_insIgnore, of fst k "(''cache_sequence'', 0)" "stateTab s"]
  by (simp add: stateGet_def sqlMigrate_def split: option.splits)

lemma sqlSucc_greater: "v \<le> maxInteger \<Longrightarrow> v < sqlSucc v"
  by (simp add: sqlSucc_def maxInteger_def)

lemma sqlSucc_mono: "v \<le> sqlSucc v"
  by (simp add: sqlSucc_def)

lemma counterLevel_stateUpdate:
  "counterLevel k (stateUpdate k' f s) = (if k = k' then case stateGet k s of None \<Rightarrow> - (2 ^ 63) - 1 | Some v \<Rightarrow> f v
     else counterLevel k s)"
  by (simp add: counterLevel_def stateGet_stateUpdate split: option.splits)

lemma counterLevel_stateUpsert:
  "counterLevel k (stateUpsert k' f v s) =
     (if k = k' then case stateGet k s of None \<Rightarrow> v | Some x \<Rightarrow> f x else counterLevel k s)"
  by (simp add: counterLevel_def stateGet_stateUpsert split: option.splits)

text \<open>\<^verbatim>\<open>UnixNano\<close>, and every other number that reaches the counters, is a 64-bit integer.\<close>

definition int64 :: "int \<Rightarrow> int" where
  "int64 n = sint (word_of_int n :: 64 word)"

lemma int64_range: "- (2 ^ 63) \<le> int64 n" "int64 n < 2 ^ 63"
  using sint_range_size [of "word_of_int n :: 64 word"] by (simp_all add: int64_def word_size)

lemma grows_statements [simp]:
  "grows s (sqlInsertClient ip t s)" "grows s (sqlDeleteClient ip s)" "grows s (sqlUpsertCert c s)"
  "grows s (sqlInsertRevoked x y r t s)" "grows s (sqlUpsertBlock ip why t s)" "grows s (sqlDeleteBlock ip s)"
  "grows s (sqlRevokeOthers x y r t s)" "grows s (stateUpdate ''cache_sequence'' sqlSucc s)"
  "grows s (stateUpdate ''cache_sequence'' (\<lambda>v. max v n) s)"
  "- (2 ^ 63) \<le> m \<Longrightarrow> grows s (stateUpsert ''crl_number'' (\<lambda>v. max (sqlSucc v) m) m s)"
  "- (2 ^ 63) \<le> m \<Longrightarrow> grows s (stateUpsert ''crl_number'' (\<lambda>v. max v m) m s)"
  "grows s (sqlMigrate s)"
  by (auto simp: grows_def counterLevel_def stateGet_stateUpdate stateGet_stateUpsert stateGet_sqlMigrate
      sqlSucc_mono sqlRevokeOthers_keys le_max_iff_disj split: option.splits)

lemma guar_OpenStore_grows [rel_intros]: "guar (storeRel grows) (OpenStore h)"
proof -
  have m: "guar (storeRel grows) (modify (\<lambda>w. w\<lparr>dbs := (dbs w)(h \<mapsto>
       sqlMigrate (case dbs w h of None \<Rightarrow> emptyStore | Some s \<Rightarrow> s))\<rparr>))"
    by (auto simp: guar_def storeRel_def preord_refl)
  show ?thesis unfolding OpenStore_def by (auto intro!: guar_intros m)
qed

lemma guar_methods_grow [rel_intros]:
  "guar (storeRel grows) (AddClient st ip)" "guar (storeRel grows) (RemoveClient st ip)"
  "guar (storeRel grows) (registerClient st ip)" "guar (storeRel grows) (AddCert st rec)"
  "guar (storeRel grows) (RevokeCert L st x y r)" "guar (storeRel grows) (BlockIP st ip why)"
  "guar (storeRel grows) (UnblockIP st ip)" "guar (storeRel grows) (nextCacheSequence st)"
  "- (2 ^ 63) \<le> n \<Longrightarrow> guar (storeRel grows) (nextCRLNumber st n)"
  "guar (storeRel grows) (BuildSnapshot L st ca)" "guar (storeRel grows) (replaceCertificate st rec)"
  by (auto simp: write_method_defs BuildSnapshot_def replaceCertificate_def Let_def
      intro!: guar_intros rel_intros)

subsection \<open>Well-formedness\<close>

lemma guar_OpenStore_wf [inv_intros]: "guar (keepsP (dbInv wf_store)) (OpenStore h)"
proof -
  have m: "guar (keepsP (dbInv wf_store)) (modify (\<lambda>w. w\<lparr>dbs := (dbs w)(h \<mapsto>
       sqlMigrate (case dbs w h of None \<Rightarrow> emptyStore | Some s \<Rightarrow> s))\<rparr>))"
    by (auto simp: guar_def keepsP_def dbInv_def wf_emptyStore wf_sqlMigrate split: option.splits)
  show ?thesis unfolding OpenStore_def by (auto intro!: guar_intros m)
qed

lemma wf_restoreStatements:
  "wf_store s \<Longrightarrow> wf_store (s\<lparr>clientsTab := []\<rparr>)" "wf_store s \<Longrightarrow> wf_store (s\<lparr>certsTab := []\<rparr>)"
  "wf_store s \<Longrightarrow> wf_store (s\<lparr>revokedTab := []\<rparr>)" "wf_store s \<Longrightarrow> wf_store (s\<lparr>blacklistTab := []\<rparr>)"
  "wf_store s \<Longrightarrow> wf_store (s\<lparr>certsTab := insReplace ID c (certsTab s)\<rparr>)"
  "wf_store s \<Longrightarrow> wf_store (s\<lparr>revokedTab := insReplace rvSerialHex r (revokedTab s)\<rparr>)"
  "wf_store s \<Longrightarrow> wf_store (s\<lparr>blacklistTab := insReplace bIP b (blacklistTab s)\<rparr>)"
  by (auto simp: wf_store_def keyed_insReplace) (simp_all add: keyed_def)

lemma guar_methods_wf [inv_intros]:
  "guar (keepsP (dbInv wf_store)) (AddClient st ip)" "guar (keepsP (dbInv wf_store)) (RemoveClient st ip)"
  "guar (keepsP (dbInv wf_store)) (registerClient st ip)" "guar (keepsP (dbInv wf_store)) (AddCert st rec)"
  "guar (keepsP (dbInv wf_store)) (RevokeCert L st x y r)" "guar (keepsP (dbInv wf_store)) (BlockIP st ip why)"
  "guar (keepsP (dbInv wf_store)) (UnblockIP st ip)" "guar (keepsP (dbInv wf_store)) (nextCacheSequence st)"
  "guar (keepsP (dbInv wf_store)) (nextCRLNumber st n)" "guar (keepsP (dbInv wf_store)) (BuildSnapshot L st ca)"
  "guar (keepsP (dbInv wf_store)) (replaceCertificate st rec)" "guar (keepsP (dbInv wf_store)) (RestoreSnapshot st snap)"
  by (auto simp: write_method_defs BuildSnapshot_def replaceCertificate_def RestoreSnapshot_def restoreTables_def
      Let_def wf_statements wf_restoreStatements intro!: guar_intros inv_intros)

section \<open>Counters: lemmas\<close>

text \<open>The contract of a persistent counter: a number that is handed out is larger than the level before and
  becomes the level; a failure never lowers the level. The client lemma: numbers drawn one after the
  other are strictly increasing, whatever happens in between that does not lower the level.\<close>

locale counter =
  fixes draw :: "'p \<Rightarrow> 'n io"
    and val :: "'n \<Rightarrow> int"
    and level :: "world \<Rightarrow> int"
  assumes draw_Inr: "draw p w = (Inr n, w') \<Longrightarrow> level w < val n \<and> level w' = val n"
    and draw_Inl: "draw p w = (Inl e, w') \<Longrightarrow> level w \<le> level w'"
begin

inductive draws :: "world \<Rightarrow> 'n list \<Rightarrow> world \<Rightarrow> bool" where
  draws_none: "level w \<le> level w' \<Longrightarrow> draws w [] w'"
| draws_one: "level w \<le> level w1 \<Longrightarrow> draw p w1 = (Inr n, w2) \<Longrightarrow> draws w2 ns w' \<Longrightarrow> draws w (n # ns) w'"

lemma draws_increasing:
  "draws w ns w' \<Longrightarrow> sorted_wrt (<) (map val ns) \<and> (\<forall>n \<in> set ns. level w < val n) \<and> level w \<le> level w'"
  by (induction rule: draws.induct) (force dest: draw_Inr)+

end

definition dbLevel :: "string \<Rightarrow> string \<Rightarrow> world \<Rightarrow> int" where
  "dbLevel k st w = (case dbs w st of None \<Rightarrow> - (2 ^ 63) - 1 | Some s \<Rightarrow> counterLevel k s)"

lemma dbLevel_grows:
  assumes "storeRel grows w w'" "dbs w st = Some s" "k \<in> {''cache_sequence'', ''crl_number''}"
  shows "dbLevel k st w \<le> dbLevel k st w'"
proof -
  from assms(1,2) obtain s' where "dbs w' st = Some s'" "grows s s'" by (auto simp: storeRel_def)
  with assms(2,3) show ?thesis by (auto simp: dbLevel_def grows_def)
qed

lemma nextCacheSequence_Inr:
  assumes "nextCacheSequence st w = (Inr n, w')"
  obtains s v where "dbs w st = Some s" "stateGet ''cache_sequence'' s = Some v" "v < uint n"
    "uint n = sqlSucc v" "uint n \<le> maxInteger"
    "dbs w' = (dbs w)(st \<mapsto> stateUpdate ''cache_sequence'' sqlSucc s)"
proof -
  from assms obtain x w1 where run: "sqlRun st (\<lambda>s. let s' = stateUpdate ''cache_sequence'' sqlSucc s in
       (stateGet ''cache_sequence'' s', s')) w = (Inr (Some x), w1)" and
    x: "0 \<le> x" "x \<le> maxInteger" "n = word_of_int x" "w' = w1"
    by (auto simp: nextCacheSequence_def scanUint_def split: option.splits if_splits)
  from run obtain s where s: "dbs w st = Some s"
    "stateGet ''cache_sequence'' (stateUpdate ''cache_sequence'' sqlSucc s) = Some x"
    "dbs w1 = (dbs w)(st \<mapsto> stateUpdate ''cache_sequence'' sqlSucc s)"
    by (auto simp: Let_def elim!: sqlRun_Inr)
  from s(2) obtain v where v: "stateGet ''cache_sequence'' s = Some v" "x = sqlSucc v"
    by (auto simp: stateGet_stateUpdate)
  have u: "uint n = x" using x by (simp add: maxInteger_def uint_word_of_int)
  have "v < x" using v(2) x(2) by (auto simp: sqlSucc_def maxInteger_def split: if_splits)
  then show thesis using that [OF s(1) v(1)] s(3) x u v by simp
qed

lemma nextCRLNumber_Inr:
  assumes "nextCRLNumber st n0 w = (Inr n, w')"
  obtains s where "dbs w st = Some s" "n = (case stateGet ''crl_number'' s of None \<Rightarrow> n0 | Some v \<Rightarrow> max (sqlSucc v) n0)"
    "n \<le> maxInteger" "dbs w' = (dbs w)(st \<mapsto> stateUpsert ''crl_number'' (\<lambda>v. max (sqlSucc v) n0) n0 s)"
proof -
  from assms obtain x w1 where run: "sqlRun st (\<lambda>s. let s' = stateUpsert ''crl_number'' (\<lambda>v. max (sqlSucc v) n0) n0 s in
       (case stateGet ''crl_number'' s' of Some v \<Rightarrow> v | None \<Rightarrow> n0, s')) w = (Inr x, w1)" and
    x: "x \<le> maxInteger" "n = x" "w' = w1"
    by (auto simp: nextCRLNumber_def)
  from run obtain s where "dbs w st = Some s"
    "x = (case stateGet ''crl_number'' s of None \<Rightarrow> n0 | Some v \<Rightarrow> max (sqlSucc v) n0)"
    "dbs w1 = (dbs w)(st \<mapsto> stateUpsert ''crl_number'' (\<lambda>v. max (sqlSucc v) n0) n0 s)"
    by (auto simp: Let_def stateGet_stateUpsert elim!: sqlRun_Inr split: option.splits)
  with that x show thesis by blast
qed

lemma dbLevel_guar:
  assumes "guar (storeRel grows) m" "m w = (r, w')" "dbs w st = None \<Longrightarrow> dbs w' st = None"
    "k \<in> {''cache_sequence'', ''crl_number''}"
  shows "dbLevel k st w \<le> dbLevel k st w'"
proof (cases "dbs w st")
  case None
  with assms(3) show ?thesis by (simp add: dbLevel_def)
next
  case (Some s)
  with guarD [OF assms(1,2)] assms(4) show ?thesis by (intro dbLevel_grows)
qed

lemma sqlRun_None: "dbs w h = None \<Longrightarrow> sqlRun h f w = (r, w') \<Longrightarrow> dbs w' = dbs w \<and> (\<exists>e. r = Inl e)"
  by (cases r) (auto dest: sqlRun_Inl elim: sqlRun_Inr)

lemma counters_None:
  "dbs w st = None \<Longrightarrow> nextCacheSequence st w = (r, w') \<Longrightarrow> dbs w' st = None"
  "dbs w st = None \<Longrightarrow> nextCRLNumber st n w = (r', w') \<Longrightarrow> dbs w' st = None"
  unfolding nextCacheSequence_def nextCRLNumber_def
  by (auto simp: bnd_def split: prod.splits sum.splits dest: sqlRun_Inl sqlRun_None)

interpretation cacheSequence: counter "\<lambda>_ :: unit. nextCacheSequence st" uint "dbLevel ''cache_sequence'' st" for st
proof
  fix w n w'
  assume "nextCacheSequence st w = (Inr n, w')"
  then show "dbLevel ''cache_sequence'' st w < uint n \<and> dbLevel ''cache_sequence'' st w' = uint n"
    by (rule nextCacheSequence_Inr) (simp add: dbLevel_def counterLevel_def stateGet_stateUpdate)
next
  fix w e w'
  assume "nextCacheSequence st w = (Inl e, w')"
  then show "dbLevel ''cache_sequence'' st w \<le> dbLevel ''cache_sequence'' st w'"
    using counters_None(1) by (intro dbLevel_guar [OF guar_methods_grow(8)]) auto
qed

interpretation crlNumbers: counter "\<lambda>t. nextCRLNumber st (int64 t)" id "dbLevel ''crl_number'' st" for st
proof
  fix t w n w'
  assume "nextCRLNumber st (int64 t) w = (Inr n, w')"
  then obtain s where s: "dbs w st = Some s" "n = (case stateGet ''crl_number'' s of None \<Rightarrow> int64 t | Some v \<Rightarrow> max (sqlSucc v) (int64 t))"
    "n \<le> maxInteger" "dbs w' = (dbs w)(st \<mapsto> stateUpsert ''crl_number'' (\<lambda>v. max (sqlSucc v) (int64 t)) (int64 t) s)"
    by (rule nextCRLNumber_Inr)
  have "v < sqlSucc v" if "sqlSucc v \<le> maxInteger" for v
    using that by (auto simp: sqlSucc_def maxInteger_def split: if_splits)
  then have "dbLevel ''crl_number'' st w < n"
    using s(1-3) int64_range(1) [of t]
    by (auto simp: dbLevel_def counterLevel_def less_max_iff_disj split: option.splits)
  moreover have "dbLevel ''crl_number'' st w' = n"
    using s(2,4) by (simp add: dbLevel_def counterLevel_def stateGet_stateUpsert split: option.splits)
  ultimately show "dbLevel ''crl_number'' st w < id n \<and> dbLevel ''crl_number'' st w' = id n" by simp
next
  fix t w e w'
  assume "nextCRLNumber st (int64 t) w = (Inl e, w')"
  then show "dbLevel ''crl_number'' st w \<le> dbLevel ''crl_number'' st w'"
    using counters_None(2) int64_range(1) by (intro dbLevel_guar [OF guar_methods_grow(9)]) auto
qed

section \<open>Outcomes of the methods\<close>

lemma orNow_dbs: "orNow t w = (Inr t', w') \<Longrightarrow> dbs w' = dbs w \<and> (t \<noteq> zeroTime \<longrightarrow> t' = t)"
  by (auto simp: orNow_def dest: timeNow_dbs split: if_splits)

lemma OpenStore_Inr:
  assumes "OpenStore path w = (Inr st, w')"
  shows "st = path" "dbs w' = (dbs w)(path \<mapsto> sqlMigrate (case dbs w path of None \<Rightarrow> emptyStore | Some s \<Rightarrow> s))"
  using assms by (auto simp: OpenStore_def mayFail_def run_guardE tick_def split: if_splits)

lemma AddCert_Inr:
  assumes "AddCert st rec w = (Inr u, w')"
  obtains s where "dbs w st = Some s" "dbs w' = (dbs w)(st \<mapsto> sqlUpsertCert rec s)"
  using assms unfolding AddCert_def by (elim sqlExec_Inr)

lemma registerClient_Inr:
  assumes "registerClient st ip w = (Inr b, w')"
  obtains s t where "dbs w st = Some s" "dbs w' = (dbs w)(st \<mapsto> sqlInsertClient ip t s)" "b = (ip \<notin> clientKeys s)"
  using assms unfolding registerClient_def by (auto elim!: sqlRun_Inr dest!: timeNow_dbs)

lemma RevokeCert_Inr:
  assumes "RevokeCert L st serial subj reason w = (Inr u, w')"
  obtains n t s where "bigSetString16 (normalizeSerial L serial) = Some n" "0 < n" "dbs w st = Some s"
    "dbs w' = (dbs w)(st \<mapsto> sqlInsertRevoked (bigText16 n) subj reason t s)"
  using assms unfolding RevokeCert_def
  by (auto split: option.splits if_splits elim!: sqlExec_Inr dest!: timeNow_dbs)

lemma BlockIP_Inr:
  assumes "BlockIP st ip why w = (Inr u, w')"
  obtains t s where "dbs w st = Some s" "dbs w' = (dbs w)(st \<mapsto> sqlUpsertBlock (TrimSpace ip) why t s)"
  using assms unfolding BlockIP_def by (auto elim!: sqlExec_Inr dest!: timeNow_dbs)

lemma read_Inr:
  assumes "dbs w st = Some s"
  shows "IsBlocked st ip w = (Inr b, w') \<Longrightarrow> b = (TrimSpace ip \<in> blockedKeys s) \<and> dbs w' = dbs w"
    and "IsRevoked st serial w = (Inr b, w') \<Longrightarrow> b = (serial \<in> revokedKeys s) \<and> dbs w' = dbs w"
    and "hasClient st ip w = (Inr b, w') \<Longrightarrow> b = (ip \<in> clientKeys s) \<and> dbs w' = dbs w"
    and "CertBySerial st serial w = (Inr c, w') \<Longrightarrow> c = find (\<lambda>c. SerialHex c = serial) (certsTab s) \<and> dbs w' = dbs w"
    and "CertsBySubject st subj w = (Inr cs, w') \<Longrightarrow> cs = sort_key NotBefore
      (filter (\<lambda>c. asciiLower (crSubject c) = asciiLower subj) (certsTab s)) \<and> dbs w' = dbs w"
    and "ListRevoked st w = (Inr rs, w') \<Longrightarrow> rs = sort_key RevokedAt (revokedTab s) \<and> dbs w' = dbs w"
  using assms unfolding read_method_defs by (auto elim!: sqlQuery_Inr)

lemma reads_need_db:
  "IsBlocked st ip w = (Inr b, w') \<Longrightarrow> \<exists>s. dbs w st = Some s"
  "IsRevoked st ip w = (Inr b, w') \<Longrightarrow> \<exists>s. dbs w st = Some s"
  "ListRevoked st w = (Inr rs, w') \<Longrightarrow> \<exists>s. dbs w st = Some s"
  unfolding read_method_defs by (auto elim!: sqlQuery_Inr)

text \<open>Replacing a certificate is one step: the new record and the revocation of every other one of the
  subject, or nothing.\<close>

lemma sqlRun_other: "guar (same (\<lambda>w. (dbs w)(h := None))) (sqlRun h f)"
proof (rule guarI)
  fix w
  obtain r w' where run: "sqlRun h f w = (r, w')" by (cases "sqlRun h f w")
  then show "same (\<lambda>w. (dbs w)(h := None)) w (snd (sqlRun h f w))"
    by (cases r) (auto simp: same_def dest!: sqlRun_Inl elim!: sqlRun_Inr)
qed

lemma quiet_same_other [simp]: "quiet (same (\<lambda>w. (dbs w)(h := None)))"
  by (simp add: quiet_def) (simp add: same_def)

lemma replaceCertificate_Inl: "replaceCertificate st rec w = (Inl e, w') \<Longrightarrow> dbs w' = dbs w"
  unfolding replaceCertificate_def
  by (erule transact_Inl_same) (auto simp: sqlExec_def Let_def intro!: guar_intros sqlRun_other)

lemma replaceCertificate_Inr:
  assumes "replaceCertificate st rec w = (Inr n, w')"
  obtains s t where "dbs w st = Some s"
    "dbs w' = (dbs w)(st \<mapsto> sqlRevokeOthers (crSubject rec) (SerialHex rec) crlReasonSuperseded t (sqlUpsertCert rec s))"
proof -
  from assms show thesis unfolding replaceCertificate_def
  proof (cases rule: transact_cases)
    case (committed x w1 w2)
    then obtain w3 w4 t where 1: "sqlExec st (sqlUpsertCert rec) w1 = (Inr (), w3)" and t: "(timeNow :: time io) w3 = (Inr t, w4)"
      and 2: "sqlRun st (\<lambda>s. let s' = sqlRevokeOthers (crSubject rec) (SerialHex rec) crlReasonSuperseded t s in
         (int (length (revokedTab s')) - int (length (revokedTab s)), s')) w4 = (Inr x, w2)" by auto
    from 1 obtain s where s: "dbs w1 st = Some s" "dbs w3 = (dbs w1)(st \<mapsto> sqlUpsertCert rec s)"
      by (rule sqlExec_Inr)
    from 2 obtain s2 where s2: "dbs w4 st = Some s2"
      "dbs w2 = (dbs w4)(st \<mapsto> sqlRevokeOthers (crSubject rec) (SerialHex rec) crlReasonSuperseded t s2)"
      by (rule sqlRun_Inr) (simp add: Let_def)
    have "dbs w4 = dbs w3" using t by (rule timeNow_dbs)
    with committed s s2 that show thesis by simp
  qed auto
qed

section \<open>Serial numbers\<close>

text \<open>Every spelling of a positive serial (upper or lower case, with colons, with leading zeros) has one
  normal form, the one certificates are recorded under.\<close>

lemma normalizeSerial_canonical:
  assumes "bigSetString16 (removeChar CHR '':'' (ToLower (uniLower L) (TrimSpace s))) = Some n" "0 < n"
  shows "normalizeSerial L s = bigText16 n"
  using assms by (simp add: normalizeSerial_def)

lemma bigText16_canon: "0 \<le> n \<Longrightarrow> c \<in> set (bigText16 n) \<Longrightarrow> canonChar c"
  by (simp add: bigText16_def hexOfNat_canon)

lemma bigText16_nocolon: "0 \<le> n \<Longrightarrow> CHR '':'' \<notin> set (bigText16 n)"
  using hexOfNat_chars hexChar_not_sep by (auto simp: bigText16_def) metis

lemma removeChar_absent: "c \<notin> set s \<Longrightarrow> removeChar c s = s"
  by (auto simp: removeChar_def filter_id_conv)

lemma normalizeSerial_bigText16: "0 < n \<Longrightarrow> normalizeSerial L (bigText16 n) = bigText16 n"
proof -
  assume n: "0 < n"
  then have "ToLower (uniLower L) (TrimSpace (bigText16 n)) = bigText16 n"
    using bigText16_canon [of n] by (simp add: canon_TrimSpace canon_ToLower)
  with n show ?thesis by (simp add: normalizeSerial_def removeChar_absent bigText16_nocolon)
qed

lemma normalizeSerial_idem: "normalizeSerial L s = bigText16 n \<Longrightarrow> 0 < n \<Longrightarrow>
    normalizeSerial L (normalizeSerial L s) = normalizeSerial L s"
  by (simp add: normalizeSerial_bigText16)

section \<open>Snapshots: lemmas\<close>

lemma BuildSnapshot_Inr:
  assumes "BuildSnapshot L st ca w = (Inr snap, w')" "dbs w st = Some s"
  shows "dbs w' = dbs w" "snVersion snap = 1" "snClients snap = sort_key id (map ciIP (clientsTab s))"
    "snCerts snap = sort_key NotBefore (certsTab s)" "snRevoked snap = sort_key RevokedAt (revokedTab s)"
    "snBlacklist snap = sort_key bIP (blacklistTab s)" "snFingerprint snap = Fingerprint L ca"
    "caPEM L ca = Inr (snCACertPEM snap, snCAKeyPEM snap)"
    "snCRLNumber snap = (case stateGet ''crl_number'' s of None \<Rightarrow> 0 | Some v \<Rightarrow> v)" "snCRLNumber snap \<le> maxInteger"
proof -
  from assms(1) have "dbs w' = dbs w \<and> snVersion snap = 1 \<and> snClients snap = sort_key id (map ciIP (clientsTab s)) \<and>
    snCerts snap = sort_key NotBefore (certsTab s) \<and> snRevoked snap = sort_key RevokedAt (revokedTab s) \<and>
    snBlacklist snap = sort_key bIP (blacklistTab s) \<and> snFingerprint snap = Fingerprint L ca \<and>
    caPEM L ca = Inr (snCACertPEM snap, snCAKeyPEM snap) \<and>
    snCRLNumber snap = (case stateGet ''crl_number'' s of None \<Rightarrow> 0 | Some v \<Rightarrow> v) \<and> snCRLNumber snap \<le> maxInteger"
    unfolding BuildSnapshot_def
  proof (cases rule: transact_cases)
    case (committed x w1 w2)
    then show ?thesis using assms(2) unfolding buildSnapshot_def read_method_defs
      by (elim bnd_InrE sqlQuery_Inr) (auto split: prod.splits elim!: sqlQuery_Inr dest: timeNow_dbs)
  qed auto
  then show "dbs w' = dbs w" "snVersion snap = 1" "snClients snap = sort_key id (map ciIP (clientsTab s))"
    "snCerts snap = sort_key NotBefore (certsTab s)" "snRevoked snap = sort_key RevokedAt (revokedTab s)"
    "snBlacklist snap = sort_key bIP (blacklistTab s)" "snFingerprint snap = Fingerprint L ca"
    "caPEM L ca = Inr (snCACertPEM snap, snCAKeyPEM snap)"
    "snCRLNumber snap = (case stateGet ''crl_number'' s of None \<Rightarrow> 0 | Some v \<Rightarrow> v)" "snCRLNumber snap \<le> maxInteger"
    by simp_all
qed

text \<open>A loop over statements that succeeds has run its statement for every element, in order.\<close>

lemma forEach_prefix:
  assumes "forEach xs f w = (Inr u, w')" "P [] w"
    and "\<And>pre x v v'. f x v = (Inr (), v') \<Longrightarrow> P pre v \<Longrightarrow> P (pre @ [x]) v'"
  shows "P xs w'"
proof -
  have "P (pre @ xs) w'" if "forEach xs f w = (Inr u, w')" "P pre w" for pre xs w
    using that
  proof (induction xs arbitrary: pre w)
    case (Cons x xs)
    then obtain w1 where "f x w = (Inr (), w1)" "forEach xs f w1 = (Inr u, w')" by auto
    with Cons.IH [of w1 "pre @ [x]"] Cons.prems(2) assms(3) show ?case by simp
  qed simp
  from this [of xs w "[]"] assms(1,2) show ?thesis by simp
qed

definition dbIs :: "string \<Rightarrow> (store \<Rightarrow> bool) \<Rightarrow> world \<Rightarrow> bool" where
  "dbIs st P w \<longleftrightarrow> (\<exists>s. dbs w st = Some s \<and> P s)"

lemma dbIsI: "dbs w st = Some s \<Longrightarrow> P s \<Longrightarrow> dbIs st P w"
  by (auto simp: dbIs_def)

lemma fold_insReplace_distinct:
  "distinct (map key (acc @ rs)) \<Longrightarrow> fold (insReplace key) rs acc = acc @ rs"
proof (induction rs arbitrary: acc)
  case (Cons r rs)
  then have "insReplace key r acc = acc @ [r]"
    by (auto simp: insReplace_def intro!: filter_map_key_absent)
  with Cons show ?case by simp
qed simp

lemma keyed_sort: "keyed key rs \<Longrightarrow> keyed key (sort_key f rs)"
  by (simp add: keyed_def distinct_map)

lemma image_fold_insReplace: "key ` set (fold (insReplace key) rs acc) = key ` set acc \<union> key ` set rs"
proof (induction rs arbitrary: acc)
  case (Cons r rs)
  then show ?case by (simp add: image_insReplace)
qed simp

text \<open>The four loops of a restore. Each fills one table and leaves the rest of the database.\<close>

lemma restoreClients:
  assumes "forEach ips (\<lambda>ip. bnd timeNow (\<lambda>t. sqlExec st (sqlInsertClient (TrimSpace ip) t))) w = (Inr u, w')"
    "dbs w st = Some s" "clientsTab s = []"
  shows "dbIs st (\<lambda>s'. clientKeys s' = TrimSpace ` set ips \<and> s'\<lparr>clientsTab := []\<rparr> = s) w'"
proof (rule forEach_prefix [OF assms(1)])
  show "dbIs st (\<lambda>s'. clientKeys s' = TrimSpace ` set [] \<and> s'\<lparr>clientsTab := []\<rparr> = s) w"
    using assms(2,3) by (intro dbIsI) (auto simp: clientKeys_def)
next
  fix pre x v v'
  assume run: "bnd timeNow (\<lambda>t. sqlExec st (sqlInsertClient (TrimSpace x) t)) v = (Inr (), v')"
    and IH: "dbIs st (\<lambda>s'. clientKeys s' = TrimSpace ` set pre \<and> s'\<lparr>clientsTab := []\<rparr> = s) v"
  from run obtain t v1 where t: "(timeNow :: time io) v = (Inr t, v1)" and e: "sqlExec st (sqlInsertClient (TrimSpace x) t) v1 = (Inr (), v')"
    by auto
  from e obtain s1 where "dbs v1 st = Some s1" "dbs v' = (dbs v1)(st \<mapsto> sqlInsertClient (TrimSpace x) t s1)"
    by (rule sqlExec_Inr)
  with IH timeNow_dbs [OF t] show "dbIs st (\<lambda>s'. clientKeys s' = TrimSpace ` set (pre @ [x]) \<and> s'\<lparr>clientsTab := []\<rparr> = s) v'"
    by (auto simp: dbIs_def) (simp add: sqlInsertClient_def)
qed

lemma restoreCerts:
  assumes "forEach cs (\<lambda>c. sqlExec st (\<lambda>s. s\<lparr>certsTab := insReplace ID c (certsTab s)\<rparr>)) w = (Inr u, w')"
    "dbs w st = Some s" "certsTab s = []"
  shows "dbIs st (\<lambda>s'. s' = s\<lparr>certsTab := fold (insReplace ID) cs []\<rparr>) w'"
proof (rule forEach_prefix [OF assms(1)])
  show "dbIs st (\<lambda>s'. s' = s\<lparr>certsTab := fold (insReplace ID) [] []\<rparr>) w"
    using assms(2,3) by (intro dbIsI) auto
next
  fix pre x v v'
  assume "sqlExec st (\<lambda>s. s\<lparr>certsTab := insReplace ID x (certsTab s)\<rparr>) v = (Inr (), v')"
    "dbIs st (\<lambda>s'. s' = s\<lparr>certsTab := fold (insReplace ID) pre []\<rparr>) v"
  then show "dbIs st (\<lambda>s'. s' = s\<lparr>certsTab := fold (insReplace ID) (pre @ [x]) []\<rparr>) v'"
    by (auto simp: dbIs_def elim!: sqlExec_Inr)
qed

text \<open>\<open>dated r r'\<close>: \<open>r'\<close> is the record \<open>r\<close> with a missing time filled in.\<close>

definition datedRev :: "RevokedRecord \<Rightarrow> RevokedRecord \<Rightarrow> bool" where
  "datedRev r r' \<longleftrightarrow> (\<exists>t. r' = r\<lparr>RevokedAt := t\<rparr> \<and> (RevokedAt r \<noteq> zeroTime \<longrightarrow> t = RevokedAt r))"

definition datedBlock :: "BlockRecord \<Rightarrow> BlockRecord \<Rightarrow> bool" where
  "datedBlock b b' \<longleftrightarrow> (\<exists>t. b' = b\<lparr>bIP := TrimSpace (bIP b), bAddedAt := t\<rparr> \<and> (bAddedAt b \<noteq> zeroTime \<longrightarrow> t = bAddedAt b))"

lemma restoreRevoked:
  assumes "forEach rs (\<lambda>r. bnd (orNow (RevokedAt r)) (\<lambda>ra.
       sqlExec st (\<lambda>s. s\<lparr>revokedTab := insReplace rvSerialHex (r\<lparr>RevokedAt := ra\<rparr>) (revokedTab s)\<rparr>))) w = (Inr u, w')"
    "dbs w st = Some s" "revokedTab s = []"
  shows "\<exists>rs'. list_all2 datedRev rs rs' \<and> dbIs st (\<lambda>s'. s' = s\<lparr>revokedTab := fold (insReplace rvSerialHex) rs' []\<rparr>) w'"
proof (rule forEach_prefix [OF assms(1)])
  show "\<exists>rs'. list_all2 datedRev [] rs' \<and> dbIs st (\<lambda>s'. s' = s\<lparr>revokedTab := fold (insReplace rvSerialHex) rs' []\<rparr>) w"
    using assms(2,3) by (auto simp: dbIs_def)
next
  fix pre r v v'
  assume run: "bnd (orNow (RevokedAt r)) (\<lambda>ra.
       sqlExec st (\<lambda>s. s\<lparr>revokedTab := insReplace rvSerialHex (r\<lparr>RevokedAt := ra\<rparr>) (revokedTab s)\<rparr>)) v = (Inr (), v')"
    and IH: "\<exists>rs'. list_all2 datedRev pre rs' \<and> dbIs st (\<lambda>s'. s' = s\<lparr>revokedTab := fold (insReplace rvSerialHex) rs' []\<rparr>) v"
  from run obtain ra v1 where o: "orNow (RevokedAt r) v = (Inr ra, v1)"
    and e: "sqlExec st (\<lambda>s. s\<lparr>revokedTab := insReplace rvSerialHex (r\<lparr>RevokedAt := ra\<rparr>) (revokedTab s)\<rparr>) v1 = (Inr (), v')"
    by auto
  from IH obtain rs' where rs': "list_all2 datedRev pre rs'" "dbs v st = Some (s\<lparr>revokedTab := fold (insReplace rvSerialHex) rs' []\<rparr>)"
    by (auto simp: dbIs_def)
  have "datedRev r (r\<lparr>RevokedAt := ra\<rparr>)" using orNow_dbs [OF o] by (auto simp: datedRev_def)
  with rs'(1) have "list_all2 datedRev (pre @ [r]) (rs' @ [r\<lparr>RevokedAt := ra\<rparr>])" by (simp add: list_all2_appendI)
  moreover have "dbIs st (\<lambda>s'. s' = s\<lparr>revokedTab := fold (insReplace rvSerialHex) (rs' @ [r\<lparr>RevokedAt := ra\<rparr>]) []\<rparr>) v'"
    using e orNow_dbs [OF o] rs'(2) by (auto simp: dbIs_def elim!: sqlExec_Inr)
  ultimately show "\<exists>rs'. list_all2 datedRev (pre @ [r]) rs'
      \<and> dbIs st (\<lambda>s'. s' = s\<lparr>revokedTab := fold (insReplace rvSerialHex) rs' []\<rparr>) v'" by blast
qed

lemma restoreBlacklist:
  assumes "forEach bs (\<lambda>b. bnd (orNow (bAddedAt b)) (\<lambda>ba.
       sqlExec st (\<lambda>s. s\<lparr>blacklistTab :=
         insReplace bIP (b\<lparr>bIP := TrimSpace (bIP b), bAddedAt := ba\<rparr>) (blacklistTab s)\<rparr>))) w = (Inr u, w')"
    "dbs w st = Some s" "blacklistTab s = []"
  shows "\<exists>bs'. list_all2 datedBlock bs bs' \<and> dbIs st (\<lambda>s'. s' = s\<lparr>blacklistTab := fold (insReplace bIP) bs' []\<rparr>) w'"
proof (rule forEach_prefix [OF assms(1)])
  show "\<exists>bs'. list_all2 datedBlock [] bs' \<and> dbIs st (\<lambda>s'. s' = s\<lparr>blacklistTab := fold (insReplace bIP) bs' []\<rparr>) w"
    using assms(2,3) by (auto simp: dbIs_def)
next
  fix pre v v' and b :: BlockRecord
  let ?b = "\<lambda>ba. b\<lparr>bIP := TrimSpace (bIP b), bAddedAt := ba\<rparr>"
  assume run: "bnd (orNow (bAddedAt b)) (\<lambda>ba.
       sqlExec st (\<lambda>s. s\<lparr>blacklistTab := insReplace bIP (?b ba) (blacklistTab s)\<rparr>)) v = (Inr (), v')"
    and IH: "\<exists>bs'. list_all2 datedBlock pre bs' \<and> dbIs st (\<lambda>s'. s' = s\<lparr>blacklistTab := fold (insReplace bIP) bs' []\<rparr>) v"
  from run obtain ba v1 where o: "orNow (bAddedAt b) v = (Inr ba, v1)"
    and e: "sqlExec st (\<lambda>s. s\<lparr>blacklistTab := insReplace bIP (?b ba) (blacklistTab s)\<rparr>) v1 = (Inr (), v')"
    by auto
  from IH obtain bs' where bs': "list_all2 datedBlock pre bs'" "dbs v st = Some (s\<lparr>blacklistTab := fold (insReplace bIP) bs' []\<rparr>)"
    by (auto simp: dbIs_def)
  have "datedBlock b (?b ba)" using orNow_dbs [OF o] by (auto simp: datedBlock_def)
  with bs'(1) have "list_all2 datedBlock (pre @ [b]) (bs' @ [?b ba])" by (simp add: list_all2_appendI)
  moreover have "dbIs st (\<lambda>s'. s' = s\<lparr>blacklistTab := fold (insReplace bIP) (bs' @ [?b ba]) []\<rparr>) v'"
    using e orNow_dbs [OF o] bs'(2) by (auto simp: dbIs_def elim!: sqlExec_Inr)
  ultimately show "\<exists>bs'. list_all2 datedBlock (pre @ [b]) bs'
      \<and> dbIs st (\<lambda>s'. s' = s\<lparr>blacklistTab := fold (insReplace bIP) bs' []\<rparr>) v'" by blast
qed

text \<open>The statements of a restore, one by one.\<close>

lemma restoreTables_steps:
  assumes "restoreTables st snap w0 = (Inr u, wn)"
  obtains w1 w2 w3 w4 w5 w6 w7 w8 w9 where
    "sqlExec st (\<lambda>s. s\<lparr>clientsTab := []\<rparr>) w0 = (Inr (), w1)"
    "forEach (snClients snap) (\<lambda>ip. bnd timeNow (\<lambda>t. sqlExec st (sqlInsertClient (TrimSpace ip) t))) w1 = (Inr (), w2)"
    "sqlExec st (\<lambda>s. s\<lparr>certsTab := []\<rparr>) w2 = (Inr (), w3)"
    "forEach (snCerts snap) (\<lambda>c. sqlExec st (\<lambda>s. s\<lparr>certsTab := insReplace ID c (certsTab s)\<rparr>)) w3 = (Inr (), w4)"
    "sqlExec st (\<lambda>s. s\<lparr>revokedTab := []\<rparr>) w4 = (Inr (), w5)"
    "forEach (snRevoked snap) (\<lambda>r. bnd (orNow (RevokedAt r)) (\<lambda>ra.
       sqlExec st (\<lambda>s. s\<lparr>revokedTab := insReplace rvSerialHex (r\<lparr>RevokedAt := ra\<rparr>) (revokedTab s)\<rparr>))) w5 = (Inr (), w6)"
    "sqlExec st (\<lambda>s. s\<lparr>blacklistTab := []\<rparr>) w6 = (Inr (), w7)"
    "forEach (snBlacklist snap) (\<lambda>b. bnd (orNow (bAddedAt b)) (\<lambda>ba. sqlExec st (\<lambda>s. s\<lparr>blacklistTab :=
         insReplace bIP (b\<lparr>bIP := TrimSpace (bIP b), bAddedAt := ba\<rparr>) (blacklistTab s)\<rparr>))) w7 = (Inr (), w8)"
    "sqlExec st (stateUpdate ''cache_sequence'' (\<lambda>v. max v (uint (snSequence snap)))) w8 = (Inr (), w9)"
    "sqlExec st (stateUpsert ''crl_number'' (\<lambda>v. max v (snCRLNumber snap)) (snCRLNumber snap)) w9 = (Inr u, wn)"
  using assms unfolding restoreTables_def
  by (elim bnd_InrE) (auto simp: sqlUint_def split: if_splits)

lemma RestoreSnapshot_Inr:
  assumes "RestoreSnapshot st snap w = (Inr u, w')" "dbs w st = Some s"
  obtains s' rs bs where "dbs w' st = Some s'" "clientKeys s' = TrimSpace ` set (snClients snap)"
    "certsTab s' = fold (insReplace ID) (snCerts snap) []"
    "list_all2 datedRev (snRevoked snap) rs" "revokedTab s' = fold (insReplace rvSerialHex) rs []"
    "list_all2 datedBlock (snBlacklist snap) bs" "blacklistTab s' = fold (insReplace bIP) bs []"
    "stateGet ''cache_sequence'' s' = map_option (\<lambda>v. max v (uint (snSequence snap))) (stateGet ''cache_sequence'' s)"
    "stateGet ''crl_number'' s' = Some (case stateGet ''crl_number'' s of None \<Rightarrow> snCRLNumber snap
       | Some v \<Rightarrow> max v (snCRLNumber snap))"
proof -
  from assms(1) have "transact st (restoreTables st snap) w = (Inr u, w')"
    by (auto simp: RestoreSnapshot_def split: if_splits)
  then obtain w0 wn where w0: "dbs w0 = dbs w" "dbs w' = dbs wn" and run: "restoreTables st snap w0 = (Inr u, wn)"
    by (auto elim!: transact_cases)
  from run show thesis
  proof (rule restoreTables_steps, goal_cases)
    case (1 w1 w2 w3 w4 w5 w6 w7 w8 w9)
    note r = 1
    from r(1) have s1: "dbs w1 st = Some (s\<lparr>clientsTab := []\<rparr>)"
      using assms(2) w0 by (auto elim!: sqlExec_Inr)
    from restoreClients [OF r(2) s1] obtain s2 where s2: "dbs w2 st = Some s2" "clientKeys s2 = TrimSpace ` set (snClients snap)"
      "s2\<lparr>clientsTab := []\<rparr> = s\<lparr>clientsTab := []\<rparr>" by (auto simp: dbIs_def)
    from r(3) s2(1) have s3: "dbs w3 st = Some (s2\<lparr>certsTab := []\<rparr>)" by (auto elim!: sqlExec_Inr)
    from restoreCerts [OF r(4) s3] have s4: "dbs w4 st = Some (s2\<lparr>certsTab := fold (insReplace ID) (snCerts snap) []\<rparr>)"
      (is "_ = Some ?s4") by (auto simp: dbIs_def)
    from r(5) s4 have s5: "dbs w5 st = Some (?s4\<lparr>revokedTab := []\<rparr>)" by (auto elim!: sqlExec_Inr)
    from restoreRevoked [OF r(6) s5] obtain rs where s6: "list_all2 datedRev (snRevoked snap) rs"
      "dbs w6 st = Some (?s4\<lparr>revokedTab := fold (insReplace rvSerialHex) rs []\<rparr>)"
      by (auto simp: dbIs_def)
    let ?s6 = "?s4\<lparr>revokedTab := fold (insReplace rvSerialHex) rs []\<rparr>"
    from r(7) s6(2) have s7: "dbs w7 st = Some (?s6\<lparr>blacklistTab := []\<rparr>)" by (auto elim!: sqlExec_Inr)
    from restoreBlacklist [OF r(8) s7] obtain bs where s8: "list_all2 datedBlock (snBlacklist snap) bs"
      "dbs w8 st = Some (?s6\<lparr>blacklistTab := fold (insReplace bIP) bs []\<rparr>)"
      by (auto simp: dbIs_def)
    let ?s8 = "?s6\<lparr>blacklistTab := fold (insReplace bIP) bs []\<rparr>"
    let ?sn = "stateUpsert ''crl_number'' (\<lambda>v. max v (snCRLNumber snap)) (snCRLNumber snap)
       (stateUpdate ''cache_sequence'' (\<lambda>v. max v (uint (snSequence snap))) ?s8)"
    from r(9) s8(2) have "dbs w9 st = Some (stateUpdate ''cache_sequence'' (\<lambda>v. max v (uint (snSequence snap))) ?s8)"
      by (auto elim!: sqlExec_Inr)
    with r(10) w0(2) have db: "dbs w' st = Some ?sn" by (auto elim!: sqlExec_Inr)
    have "stateTab s2 = stateTab s" using arg_cong [OF s2(3), of stateTab] by simp
    then have g: "stateGet k ?s8 = stateGet k s" for k by (simp add: stateGet_def)
    have ck: "clientKeys ?sn = TrimSpace ` set (snClients snap)"
      using s2(2) by (simp add: clientKeys_def stateUpsert_def stateUpdate_def)
    have tabs: "certsTab ?sn = fold (insReplace ID) (snCerts snap) []" "revokedTab ?sn = fold (insReplace rvSerialHex) rs []"
      "blacklistTab ?sn = fold (insReplace bIP) bs []" by (simp_all add: stateUpsert_def stateUpdate_def)
    show ?case
      by (rule that [OF db ck tabs(1) s6(1) tabs(2) s8(1) tabs(3)])
        (simp_all only: stateGet_stateUpsert stateGet_stateUpdate g, simp_all)
  qed
qed

text \<open>What a restore keeps of the snapshot.\<close>

lemma datedRev_keys: "list_all2 datedRev rs rs' \<Longrightarrow> map rvSerialHex rs' = map rvSerialHex rs"
  by (induction rule: list_all2_induct) (auto simp: datedRev_def)

lemma datedBlock_keys: "list_all2 datedBlock bs bs' \<Longrightarrow> map bIP bs' = map (TrimSpace \<circ> bIP) bs"
  by (induction rule: list_all2_induct) (auto simp: datedBlock_def)

lemma datedRev_same: "list_all2 datedRev rs rs' \<Longrightarrow> \<forall>r \<in> set rs. RevokedAt r \<noteq> zeroTime \<Longrightarrow> rs' = rs"
  by (induction rule: list_all2_induct) (auto simp: datedRev_def)

lemma datedBlock_same:
  "list_all2 datedBlock bs bs' \<Longrightarrow> \<forall>b \<in> set bs. bAddedAt b \<noteq> zeroTime \<and> TrimSpace (bIP b) = bIP b \<Longrightarrow> bs' = bs"
  by (induction rule: list_all2_induct) (auto simp: datedBlock_def)

lemma set_map_eq_image: "map f xs = map g ys \<Longrightarrow> f ` set xs = g ` set ys"
  by (metis list.set_map)

lemma RestoreSnapshot_keys:
  assumes "RestoreSnapshot st snap w = (Inr u, w')" "dbs w st = Some s"
  obtains s' where "dbs w' st = Some s'" "clientKeys s' = TrimSpace ` set (snClients snap)"
    "ID ` set (certsTab s') = ID ` set (snCerts snap)"
    "revokedKeys s' = rvSerialHex ` set (snRevoked snap)" "blockedKeys s' = (TrimSpace \<circ> bIP) ` set (snBlacklist snap)"
proof -
  from assms obtain s' rs bs where r: "dbs w' st = Some s'" "clientKeys s' = TrimSpace ` set (snClients snap)"
    "certsTab s' = fold (insReplace ID) (snCerts snap) []"
    "list_all2 datedRev (snRevoked snap) rs" "revokedTab s' = fold (insReplace rvSerialHex) rs []"
    "list_all2 datedBlock (snBlacklist snap) bs" "blacklistTab s' = fold (insReplace bIP) bs []"
    by (rule RestoreSnapshot_Inr)
  have "revokedKeys s' = rvSerialHex ` set rs" "blockedKeys s' = bIP ` set bs" "ID ` set (certsTab s') = ID ` set (snCerts snap)"
    using r(3,5,7) by (simp_all add: revokedKeys_def blockedKeys_def image_fold_insReplace)
  with r(1,2) set_map_eq_image [OF datedRev_keys [OF r(4)]] set_map_eq_image [OF datedBlock_keys [OF r(6)]] that
  show thesis by simp
qed

section \<open>The JSON form: lemmas\<close>

lemma decTime_text [simp]: "timeTextOk L \<Longrightarrow> decTime L (JStr (timeText L t)) = Some t"
  by (simp add: decTime_def timeTextOk_def)

lemma decInt64_enc: "- (2 ^ 63) \<le> n \<Longrightarrow> n < 2 ^ 63 \<Longrightarrow> decInt64 (JInt n) = Some n"
  by simp

lemma certOfJSON_certJSON: "timeTextOk L \<Longrightarrow> decObj (certOfJSON L) (certJSON L c) = Some c"
proof -
  assume t: "timeTextOk L"
  define kvs where "kvs = [(''id'', JStr (ID c)), (''subject'', JStr (crSubject c)), (''sans'', JStr (SANs c)),
     (''not_before'', JStr (timeText L (NotBefore c))), (''not_after'', JStr (timeText L (NotAfter c))),
     (''client_pub'', JStr (ClientPub c)), (''serial_hex'', JStr (SerialHex c)), (''cert_pem'', JStr (CertPEM c))]"
  have d: "distinctKeys kvs" by (simp add: kvs_def distinctKeys_def lowerChar_def)
  have m: "(''id'', JStr (ID c)) \<in> set kvs" "(''subject'', JStr (crSubject c)) \<in> set kvs"
     "(''sans'', JStr (SANs c)) \<in> set kvs" "(''not_before'', JStr (timeText L (NotBefore c))) \<in> set kvs"
     "(''not_after'', JStr (timeText L (NotAfter c))) \<in> set kvs" "(''client_pub'', JStr (ClientPub c)) \<in> set kvs"
     "(''serial_hex'', JStr (SerialHex c)) \<in> set kvs" "(''cert_pem'', JStr (CertPEM c)) \<in> set kvs"
    by (simp_all add: kvs_def)
  have "certOfJSON L kvs = Some c" using t by (simp add: certOfJSON_def decField_value [OF d] m [THEN decField_value [OF d]])
  then show ?thesis by (simp add: certJSON_def kvs_def)
qed

lemma revokedOfJSON_revokedJSON:
  assumes "timeTextOk L" "- (2 ^ 63) \<le> Reason r" "Reason r < 2 ^ 63"
  shows "decObj (revokedOfJSON L) (revokedJSON L r) = Some r"
proof -
  define kvs where "kvs = [(''serial_hex'', JStr (rvSerialHex r)), (''subject'', JStr (rvSubject r)),
     (''reason'', JInt (Reason r)), (''revoked_at'', JStr (timeText L (RevokedAt r)))]"
  have d: "distinctKeys kvs" by (simp add: kvs_def distinctKeys_def lowerChar_def)
  have m: "(''serial_hex'', JStr (rvSerialHex r)) \<in> set kvs" "(''subject'', JStr (rvSubject r)) \<in> set kvs"
     "(''reason'', JInt (Reason r)) \<in> set kvs" "(''revoked_at'', JStr (timeText L (RevokedAt r))) \<in> set kvs"
    by (simp_all add: kvs_def)
  have "revokedOfJSON L kvs = Some r"
    using assms by (simp add: revokedOfJSON_def m [THEN decField_value [OF d]])
  then show ?thesis by (simp add: revokedJSON_def kvs_def)
qed

lemma blockOfJSON_blockJSON: "timeTextOk L \<Longrightarrow> decObj (blockOfJSON L) (blockJSON L b) = Some b"
proof -
  assume t: "timeTextOk L"
  define kvs where "kvs = [(''ip'', JStr (bIP b)), (''reason'', JStr (bReason b)),
     (''added_at'', JStr (timeText L (bAddedAt b)))]"
  have d: "distinctKeys kvs" by (simp add: kvs_def distinctKeys_def lowerChar_def)
  have m: "(''ip'', JStr (bIP b)) \<in> set kvs" "(''reason'', JStr (bReason b)) \<in> set kvs"
     "(''added_at'', JStr (timeText L (bAddedAt b))) \<in> set kvs" by (simp_all add: kvs_def)
  have "blockOfJSON L kvs = Some b"
    using t by (simp add: blockOfJSON_def m [THEN decField_value [OF d]])
  then show ?thesis by (simp add: blockJSON_def kvs_def)
qed

text \<open>The numbers of a snapshot fit the fields of the Go structs.\<close>

definition snapshotFits :: "Snapshot \<Rightarrow> bool" where
  "snapshotFits s \<longleftrightarrow> - (2 ^ 63) \<le> snVersion s \<and> snVersion s < 2 ^ 63 \<and> - (2 ^ 63) \<le> snCRLNumber s
     \<and> snCRLNumber s < 2 ^ 63 \<and> (\<forall>r \<in> set (snRevoked s). - (2 ^ 63) \<le> Reason r \<and> Reason r < 2 ^ 63)"

lemma snapshotOfJSON_snapshotJSON:
  assumes t: "timeTextOk L" and f: "snapshotFits s"
  shows "decObj (snapshotOfJSON L) (snapshotJSON L s) = Some s"
proof -
  obtain kvs where kvs: "snapshotJSON L s = JObj kvs" and
    m: "(''version'', JInt (snVersion s)) \<in> set kvs" "(''enrollment_token'', JStr (snEnrollmentToken s)) \<in> set kvs"
     "(''crl_number'', JInt (snCRLNumber s)) \<in> set kvs" "(''sequence'', JInt (uint (snSequence s))) \<in> set kvs"
     "(''created_at'', JStr (timeText L (snCreatedAt s))) \<in> set kvs" "(''fingerprint'', JStr (snFingerprint s)) \<in> set kvs"
     "(''ca_cert_pem'', JStr (snCACertPEM s)) \<in> set kvs" "(''ca_key_pem'', JStr (snCAKeyPEM s)) \<in> set kvs" and
    l: "(''client_networks'', encList JStr (snClientNetworks s)) \<in> set kvs" "(''clients'', encList JStr (snClients s)) \<in> set kvs"
     "(''certs'', encList (certJSON L) (snCerts s)) \<in> set kvs" "(''revoked'', encList (revokedJSON L) (snRevoked s)) \<in> set kvs"
     "(''blacklist'', encList (blockJSON L) (snBlacklist s)) \<in> set kvs" and
    d: "distinctKeys kvs"
    by (simp add: snapshotJSON_def distinctKeys_def lowerChar_def)
  have "decSlice (decList decStr '''') ''client_networks'' kvs = Some (snClientNetworks s)"
    "decSlice (decList decStr '''') ''clients'' kvs = Some (snClients s)"
    by (rule decSlice_encList [OF d l(1)], simp_all, rule decSlice_encList [OF d l(2)], simp_all)
  moreover have "decSlice (decList (decObj (certOfJSON L)) zeroCertRecord) ''certs'' kvs = Some (snCerts s)"
    by (rule decSlice_encList [OF d l(3)]) (simp_all add: certOfJSON_certJSON t, simp add: certJSON_def)
  moreover have "decSlice (decList (decObj (revokedOfJSON L)) zeroRevoked) ''revoked'' kvs = Some (snRevoked s)"
    using f by (intro decSlice_encList [OF d l(4)] revokedOfJSON_revokedJSON t) (auto simp: revokedJSON_def snapshotFits_def)
  moreover have "decSlice (decList (decObj (blockOfJSON L)) zeroBlock) ''blacklist'' kvs = Some (snBlacklist s)"
    by (rule decSlice_encList [OF d l(5)]) (simp_all add: blockOfJSON_blockJSON t, simp add: blockJSON_def)
  ultimately have "snapshotOfJSON L kvs = Some s"
    using t f uint_bounded [of "snSequence s"]
    by (simp add: snapshotOfJSON_def m [THEN decField_value [OF d]] snapshotFits_def)
  then show ?thesis by (simp add: kvs)
qed

text \<open>The sequence is never negative.\<close>

definition seqOk :: "store \<Rightarrow> bool" where
  "seqOk s \<longleftrightarrow> (\<forall>v. stateGet ''cache_sequence'' s = Some v \<longrightarrow> 0 \<le> v)"

lemma seqOk_statements [simp]:
  "seqOk (sqlInsertClient ip t s) = seqOk s" "seqOk (sqlDeleteClient ip s) = seqOk s"
  "seqOk (sqlUpsertCert c s) = seqOk s" "seqOk (sqlInsertRevoked x y r t s) = seqOk s"
  "seqOk (sqlUpsertBlock ip why t s) = seqOk s" "seqOk (sqlDeleteBlock ip s) = seqOk s"
  "seqOk (sqlRevokeOthers x y r t s) = seqOk s" "seqOk (stateUpsert ''crl_number'' f v s) = seqOk s"
  "seqOk (s\<lparr>clientsTab := a\<rparr>) = seqOk s" "seqOk (s\<lparr>certsTab := b\<rparr>) = seqOk s"
  "seqOk (s\<lparr>revokedTab := c'\<rparr>) = seqOk s" "seqOk (s\<lparr>blacklistTab := d\<rparr>) = seqOk s"
  by (simp_all add: seqOk_def stateGet_stateUpsert) (simp_all add: stateGet_def)

lemma seqOk_update: "seqOk s \<Longrightarrow> (\<And>v. 0 \<le> v \<Longrightarrow> 0 \<le> f v) \<Longrightarrow> seqOk (stateUpdate ''cache_sequence'' f s)"
  by (auto simp: seqOk_def stateGet_stateUpdate)

lemma seqOk_migrate: "seqOk s \<Longrightarrow> seqOk (sqlMigrate s)"
  by (auto simp: seqOk_def stateGet_sqlMigrate split: option.splits)

lemma seqOk_empty: "seqOk emptyStore"
  by (simp add: seqOk_def emptyStore_def stateGet_def getKey_def)

lemma guar_OpenStore_seqOk [inv_intros]: "guar (keepsP (dbInv seqOk)) (OpenStore h)"
proof -
  have m: "guar (keepsP (dbInv seqOk)) (modify (\<lambda>w. w\<lparr>dbs := (dbs w)(h \<mapsto>
       sqlMigrate (case dbs w h of None \<Rightarrow> emptyStore | Some s \<Rightarrow> s))\<rparr>))"
    by (auto simp: guar_def keepsP_def dbInv_def seqOk_empty seqOk_migrate split: option.splits)
  show ?thesis unfolding OpenStore_def by (auto intro!: guar_intros m)
qed

lemma guar_methods_seqOk [inv_intros]:
  "guar (keepsP (dbInv seqOk)) (AddClient st ip)" "guar (keepsP (dbInv seqOk)) (RemoveClient st ip)"
  "guar (keepsP (dbInv seqOk)) (registerClient st ip)" "guar (keepsP (dbInv seqOk)) (AddCert st rec)"
  "guar (keepsP (dbInv seqOk)) (RevokeCert L st x y r)" "guar (keepsP (dbInv seqOk)) (BlockIP st ip why)"
  "guar (keepsP (dbInv seqOk)) (UnblockIP st ip)" "guar (keepsP (dbInv seqOk)) (nextCacheSequence st)"
  "guar (keepsP (dbInv seqOk)) (nextCRLNumber st n)" "guar (keepsP (dbInv seqOk)) (BuildSnapshot L st ca)"
  "guar (keepsP (dbInv seqOk)) (replaceCertificate st rec)" "guar (keepsP (dbInv seqOk)) (RestoreSnapshot st snap)"
  by (auto simp: write_method_defs BuildSnapshot_def replaceCertificate_def RestoreSnapshot_def restoreTables_def
      Let_def sqlSucc_def maxInteger_def le_max_iff_disj intro!: guar_intros inv_intros seqOk_update)


lemma int64_id: "- (2 ^ 63) \<le> x \<Longrightarrow> x < 2 ^ 63 \<Longrightarrow> int64 x = x"
  by (simp add: int64_def sint_sbintrunc' signed_take_bit_int_eq_self)

end
