(* ===== verification/NetTrust.thy ===== *)
theory NetTrust
  imports CertAuthority
begin

text \<open>
  \<^verbatim>\<open>netutil.go\<close>: what a client trusts. \<open>parseRootCA\<close> reads a self-signed authority, \<open>certFingerprint\<close> and
  \<open>normalizeFingerprint\<close> compare it with the configured pin, and \<open>verifyMasterPin\<close> decides whether the
  chain a server presents is the master's. A request to the master (\<open>masterDo\<close>) takes the next reply
  of the network and refuses it when the chain is not accepted.
\<close>

definition parseRootCA :: "lib \<Rightarrow> bytes \<Rightarrow> error + certificate" where
  "parseRootCA L data =
     (case pemDecode L data of
        None \<Rightarrow> Inl (Msg ''Root CA is not valid PEM'')
      | Some (ty, b) \<Rightarrow>
          if ty \<noteq> ''CERTIFICATE'' then Inl (Msg ''Root CA is not valid PEM'')
          else case parseCertificate L b of
            None \<Rightarrow> Inl (Msg ''x509: cannot parse certificate'')
          | Some cert \<Rightarrow>
              if \<not> IsCA cert \<or> \<not> checkSignatureFrom L cert cert then Inl (Msg ''not a self-signed Root CA'')
              else Inr cert)"

definition hexLower :: "char \<Rightarrow> string" where
  "hexLower c = (let n = (of_char c :: nat) in [hexChar (n div 16), hexChar (n mod 16)])"

definition certFingerprint :: "lib \<Rightarrow> bytes \<Rightarrow> string" where
  "certFingerprint L der = concat (map hexLower (sha256 L der))"

definition normalizeFingerprint :: "lib \<Rightarrow> string \<Rightarrow> string" where
  "normalizeFingerprint L s = removeChar CHR '' '' (removeChar CHR '':'' (ToLower (uniLower L) (TrimSpace s)))"

text \<open>The configured pin accepts the certificate: there is no pin, or it is the certificate's.\<close>

definition pinAccepts :: "lib \<Rightarrow> Config \<Rightarrow> certificate \<Rightarrow> bool" where
  "pinAccepts L cfg cert =
     (let want = normalizeFingerprint L (MasterFingerprint cfg) in
      want = '''' \<or> certFingerprint L (Raw cert) = want)"

fun parseChain :: "lib \<Rightarrow> bytes list \<Rightarrow> certificate list option" where
  "parseChain L [] = Some []"
| "parseChain L (der # ders) =
     (case parseCertificate L der of
        None \<Rightarrow> None
      | Some c \<Rightarrow> map_option ((#) c) (parseChain L ders))"

text \<open>The root of \<^verbatim>\<open>verifyMasterPin\<close>: the last authority of the chain with the pinned fingerprint, and in its
  place the local root when the pin allows it.\<close>

definition pinnedRoot :: "lib \<Rightarrow> Config \<Rightarrow> certificate list \<Rightarrow> error + bytes \<Rightarrow> certificate option" where
  "pinnedRoot L cfg certs localRoot =
     (let want = normalizeFingerprint L (MasterFingerprint cfg);
          pinned = (if want = '''' then None
                    else find (\<lambda>c. IsCA c \<and> certFingerprint L (Raw c) = want) (rev certs))
      in case localRoot of
           Inl _ \<Rightarrow> pinned
         | Inr data \<Rightarrow>
             (case parseRootCA L data of
                Inl _ \<Rightarrow> pinned
              | Inr cert \<Rightarrow> if want = '''' \<or> certFingerprint L (Raw cert) = want then Some cert else pinned))"

definition verifyMasterPin :: "lib \<Rightarrow> Config \<Rightarrow> bytes list \<Rightarrow> unit io" where
  "verifyMasterPin L cfg rawCerts =
     (if rawCerts = [] then throw (Msg ''master presented no certificate'')
      else case parseChain L rawCerts of
        None \<Rightarrow> throw (Msg ''parse master certificate'')
      | Some certs \<Rightarrow>
         if CommonName (Subject (hd certs)) \<noteq> ''natssl-master-api'' then
           throw (Msg ''master must present its dedicated server identity'')
         else if IsCA (hd certs) then
           throw (Msg ''master must serve a dedicated server leaf, not the Root CA'')
         else
         let want = normalizeFingerprint L (MasterFingerprint cfg) in
         if want \<noteq> '''' \<and> (length want \<noteq> 64 \<or> list_ex (\<lambda>c. hexVal c = None) want) then
           throw (Msg ''invalid master_fingerprint'')
         else
         bnd (attempt (osReadFile (caCertPath cfg))) (\<lambda>r.
         case pinnedRoot L cfg certs r of
           None \<Rightarrow> throw (Msg ''cannot verify master: set master_fingerprint or install the pinned Root CA'')
         | Some root \<Rightarrow>
             bnd timeNow (\<lambda>now.
             guardE (certVerify L (hd certs) [root] (tl certs) (host (MasterAddress cfg)) ServerAuth now)
               (Msg ''master certificate does not chain to pinned Root CA''))))"

text \<open>A request over the pinned client: the server presents its chain, and only when that is accepted does the
  request leave the node and a reply come back. \<open>newRequest\<close> is the request before a server answers.\<close>

definition newRequest :: "string \<Rightarrow> string \<Rightarrow> bytes \<Rightarrow> outRequest" where
  "newRequest m url body = \<lparr>outPeer = [], outMethod = m, outURL = url, outToken = [], outIdentity = [], outBody = body\<rparr>"

definition netReceive :: "netReply io" where
  "netReceive = bnd tick (\<lambda>n. gets (\<lambda>w. net w n))"

definition sendTo :: "bytes list \<Rightarrow> outRequest \<Rightarrow> unit io" where
  "sendTo chain req = modify (\<lambda>w. w\<lparr>sent := sent w @ [req\<lparr>outPeer := chain\<rparr>]\<rparr>)"

definition masterDo :: "lib \<Rightarrow> Config \<Rightarrow> outRequest \<Rightarrow> (nat \<times> bytes) io" where
  "masterDo L cfg req =
     (if \<not> urlParses L (outURL req) then throw (Msg ''parse URL'')
      else
      bnd netReceive (\<lambda>reply.
      case reply of
        NetFail \<Rightarrow> throw (Msg ''network'')
      | NetReply chain status body \<Rightarrow>
          bnd (verifyMasterPin L cfg chain) (\<lambda>_.
          bnd (sendTo chain req) (\<lambda>_.
          ret (status, body)))))"

text \<open>\<^verbatim>\<open>tls.LoadX509KeyPair\<close> on the client's identity, as \<^verbatim>\<open>mtlsClient\<close> does: the chain it presents.\<close>

definition LoadX509KeyPair :: "lib \<Rightarrow> string \<Rightarrow> string \<Rightarrow> bytes list io" where
  "LoadX509KeyPair L certPath keyPath =
     bnd (osReadFile certPath) (\<lambda>c.
     bnd (osReadFile keyPath) (\<lambda>k.
     need (Msg ''tls: key pair'') (x509KeyPair L c k)))"

definition mtlsClient :: "lib \<Rightarrow> Config \<Rightarrow> bytes list io" where
  "mtlsClient L cfg = LoadX509KeyPair L (identityCertPath cfg) (identityKeyPath cfg)"

section \<open>Lemmas\<close>

lemma parseRootCA_Inr:
  "parseRootCA L data = Inr cert \<Longrightarrow> IsCA cert \<and> checkSignatureFrom L cert cert
     \<and> (\<exists>b. pemDecode L data = Some (''CERTIFICATE'', b) \<and> parseCertificate L b = Some cert)"
  by (auto simp: parseRootCA_def split: option.splits prod.splits if_splits)

lemma parseChain_nonempty: "parseChain L ders = Some cs \<Longrightarrow> ders \<noteq> [] \<Longrightarrow> cs \<noteq> []"
  by (cases ders) (auto split: option.splits)

lemma guar_netReceive [guar_intros]: "quiet R \<Longrightarrow> guar R netReceive"
  unfolding netReceive_def by (auto intro!: guar_intros)

lemma guar_case_netReply [guar_intros]:
  "(x = NetFail \<Longrightarrow> guar R m) \<Longrightarrow> (\<And>a b c. x = NetReply a b c \<Longrightarrow> guar R (f a b c)) \<Longrightarrow>
   guar R (case x of NetFail \<Rightarrow> m | NetReply a b c \<Rightarrow> f a b c)"
  by (cases x) auto

lemma guar_verifyMasterPin [guar_intros]: "quiet R \<Longrightarrow> guar R (verifyMasterPin L cfg chain)"
  unfolding verifyMasterPin_def Let_def by (auto intro!: guar_intros)

text \<open>\<open>sendBlind R\<close>: \<open>R\<close> does not see what is sent. \<open>sendsOnly P\<close>: what is sent satisfies \<open>P\<close>.\<close>

definition sendBlind :: "(world \<Rightarrow> world \<Rightarrow> bool) \<Rightarrow> bool" where
  "sendBlind R \<longleftrightarrow> quiet R \<and> (\<forall>w l. R w (w\<lparr>sent := l\<rparr>))"

lemma sendBlindD [simp]: "sendBlind R \<Longrightarrow> quiet R"
  by (simp add: sendBlind_def)

lemma sendBlind_same [simp]:
  "sendBlind (same dbs)" "sendBlind (same fs)" "sendBlind (same (\<lambda>w. fs w p))" "sendBlind (untouched p)"
  by (simp_all add: sendBlind_def) (simp_all add: same_def untouched_def)

definition sendsOnly :: "(outRequest \<Rightarrow> bool) \<Rightarrow> world \<Rightarrow> world \<Rightarrow> bool" where
  "sendsOnly P w w' \<longleftrightarrow> (\<exists>new. sent w' = sent w @ new \<and> list_all P new)"

lemma preord_sendsOnly [simp]: "preord (sendsOnly P)"
  unfolding preord_def reflp_def transp_def sendsOnly_def
  by (intro conjI allI impI) (auto intro: exI [of _ "[]"])

lemma fileBlind_sendsOnly [simp]: "fileBlind (sendsOnly P)"
  by (simp add: fileBlind_def quiet_def) (auto simp: sendsOnly_def)

lemma guar_sendTo [guar_intros]: "sendBlind R \<Longrightarrow> guar R (sendTo chain req)"
  by (simp add: sendTo_def guar_def sendBlind_def)

lemma guar_masterDo: "sendBlind R \<Longrightarrow> guar R (masterDo L cfg req)"
  unfolding masterDo_def by (auto intro!: guar_intros)

lemma guar_LoadX509KeyPair [guar_intros]: "quiet R \<Longrightarrow> guar R (LoadX509KeyPair L c k)"
  unfolding LoadX509KeyPair_def by (auto intro!: guar_intros)

lemma guar_mtlsClient [guar_intros]: "quiet R \<Longrightarrow> guar R (mtlsClient L cfg)"
  unfolding mtlsClient_def by (auto intro!: guar_intros)

text \<open>The trust anchor of an accepted chain: a root the configuration pins. It is the locally stored
  root or a certificate of the chain with the configured fingerprint; the first certificate chains to it
  for the master's address, and it is the master's dedicated server identity.\<close>

definition trustAnchor :: "lib \<Rightarrow> Config \<Rightarrow> filesys \<Rightarrow> certificate list \<Rightarrow> certificate \<Rightarrow> bool" where
  "trustAnchor L cfg F chain root \<longleftrightarrow>
     (\<exists>data. fileBytes F (caCertPath cfg) = Some data \<and> parseRootCA L data = Inr root \<and> pinAccepts L cfg root)
     \<or> root \<in> set chain \<and> IsCA root \<and> normalizeFingerprint L (MasterFingerprint cfg) \<noteq> ''''
       \<and> certFingerprint L (Raw root) = normalizeFingerprint L (MasterFingerprint cfg)"

lemma pinnedRoot_anchor:
  assumes "osReadFile (caCertPath cfg) w = (r, w1)" "pinnedRoot L cfg certs r = Some root"
  shows "trustAnchor L cfg (fs w) certs root"
proof (cases r)
  case (Inl e)
  with assms(2) show ?thesis
    by (auto simp: pinnedRoot_def Let_def trustAnchor_def split: if_splits dest!: find_SomeD)
next
  case (Inr data)
  with assms(1) have "fileBytes (fs w) (caCertPath cfg) = Some data" by (auto dest: osReadFile_Inr)
  with assms(2) Inr show ?thesis
    by (auto simp: pinnedRoot_def pinAccepts_def Let_def trustAnchor_def split: sum.splits if_splits dest!: find_SomeD)
qed

lemma verifyMasterPin_sound:
  assumes "verifyMasterPin L cfg chain w = (Inr u, w')"
  obtains certs root now where "parseChain L chain = Some certs" "certs \<noteq> []"
    "CommonName (Subject (hd certs)) = ''natssl-master-api''" "\<not> IsCA (hd certs)"
    "trustAnchor L cfg (fs w) certs root"
    "certVerify L (hd certs) [root] (tl certs) (host (MasterAddress cfg)) ServerAuth now"
proof -
  from assms obtain certs r w1 root now where c: "chain \<noteq> []" "parseChain L chain = Some certs"
    "CommonName (Subject (hd certs)) = ''natssl-master-api''" "\<not> IsCA (hd certs)" and
    r: "osReadFile (caCertPath cfg) w = (r, w1)" "pinnedRoot L cfg certs r = Some root" and
    v: "certVerify L (hd certs) [root] (tl certs) (host (MasterAddress cfg)) ServerAuth now"
    unfolding verifyMasterPin_def Let_def
    by (auto simp del: run_guardE split: option.splits if_splits)
  with parseChain_nonempty [of L chain certs] pinnedRoot_anchor [OF r] show thesis by (intro that) auto
qed

text \<open>The server a request of the pinned client goes to: its chain parses, its first certificate is a master identity
  and chains to the root with the configured fingerprint.\<close>

definition pinnedPeer :: "lib \<Rightarrow> Config \<Rightarrow> bytes list \<Rightarrow> bool" where
  "pinnedPeer L cfg chain \<longleftrightarrow> (\<exists>certs root now. parseChain L chain = Some certs \<and> certs \<noteq> []
     \<and> CommonName (Subject (hd certs)) = ''natssl-master-api'' \<and> \<not> IsCA (hd certs) \<and> IsCA root
     \<and> pinAccepts L cfg root
     \<and> certVerify L (hd certs) [root] (tl certs) (host (MasterAddress cfg)) ServerAuth now)"

lemma trustAnchor_pin: "trustAnchor L cfg F chain root \<Longrightarrow> IsCA root \<and> pinAccepts L cfg root"
  by (auto simp: trustAnchor_def pinAccepts_def Let_def dest: parseRootCA_Inr)

lemma verifyMasterPin_pinned: "verifyMasterPin L cfg chain w = (Inr u, w') \<Longrightarrow> pinnedPeer L cfg chain"
  by (erule verifyMasterPin_sound) (auto simp: pinnedPeer_def dest!: trustAnchor_pin)

lemma masterDo_sends:
  assumes "\<And>chain. pinnedPeer L cfg chain \<Longrightarrow> P (req\<lparr>outPeer := chain\<rparr>)"
  shows "guar (sendsOnly P) (masterDo L cfg req)"
proof -
  have s: "guar (sendsOnly P) (bnd (verifyMasterPin L cfg chain) (\<lambda>_. bnd (sendTo chain req) (\<lambda>_. ret (n, body))))"
    for chain n and body :: bytes
  proof (rule guar_bnd_result)
    fix w u w' assume "verifyMasterPin L cfg chain w = (Inr u, w')"
    then have "P (req\<lparr>outPeer := chain\<rparr>)" by (intro assms verifyMasterPin_pinned)
    then show "guar (sendsOnly P) (bnd (sendTo chain req) (\<lambda>_. ret (n, body)))"
      by (auto simp: guar_def sendTo_def sendsOnly_def)
  qed (auto intro!: guar_intros)
  show ?thesis unfolding masterDo_def by (auto intro!: guar_intros s)
qed

end
