(* ===== verification/Cache.thy ===== *)
theory Cache
  imports Store NetTrust
begin

text \<open>
  \<^verbatim>\<open>cache.go\<close>, and \<open>RebuildEncryptedCache\<close> of \<^verbatim>\<open>server.go\<close>: the encrypted snapshot that the master publishes
  and the clients keep. The envelope (\<open>EncryptedCache\<close>) is encrypted for the recovery key, numbered by the
  cache sequence and signed by the Root CA. A client cannot read it; it authenticates the
  envelope and keeps the newest (\<open>acceptCache\<close>).

  The lemmas show the round trip of encryption, that a signed envelope verifies and survives its JSON
  form, that a rebuilt cache carries a larger sequence than the one before, and, through the locale
  \<open>acceptor\<close>, that what a client holds never goes back.
\<close>

section \<open>The envelope\<close>

record EncryptedCache =
  ecVersion :: int
  ecSequence :: "64 word"
  ecSignature :: bytes
  SealedKey :: bytes
  Nonce :: bytes
  Ciphertext :: bytes

definition zeroCache :: EncryptedCache where
  "zeroCache = \<lparr>ecVersion = 0, ecSequence = 0, ecSignature = [], SealedKey = [], Nonce = [], Ciphertext = []\<rparr>"

definition cacheJSON :: "lib \<Rightarrow> EncryptedCache \<Rightarrow> json" where
  "cacheJSON L ec = JObj [(''v'', JInt (ecVersion ec)), (''sequence'', JInt (uint (ecSequence ec))),
     (''signature'', encBytes L (ecSignature ec)), (''sealed_key'', encBytes L (SealedKey ec)),
     (''nonce'', encBytes L (Nonce ec)), (''ciphertext'', encBytes L (Ciphertext ec))]"

definition cacheOfJSON :: "lib \<Rightarrow> (string \<times> json) list \<Rightarrow> EncryptedCache option" where
  "cacheOfJSON L kvs =
     do { v \<leftarrow> decField decInt64 0 ''v'' kvs; sq \<leftarrow> decField decUint64 0 ''sequence'' kvs;
          sg \<leftarrow> decSlice (decBytes L) ''signature'' kvs; sk \<leftarrow> decSlice (decBytes L) ''sealed_key'' kvs;
          nn \<leftarrow> decSlice (decBytes L) ''nonce'' kvs; ct \<leftarrow> decSlice (decBytes L) ''ciphertext'' kvs;
          Some \<lparr>ecVersion = v, ecSequence = sq, ecSignature = sg, SealedKey = sk, Nonce = nn, Ciphertext = ct\<rparr> }"

definition gcmNonceSize :: nat where
  "gcmNonceSize = 12"

text \<open>\<^verbatim>\<open>aes.NewCipher\<close> accepts keys of 16, 24 and 32 bytes.\<close>

definition aesKeyOk :: "bytes \<Rightarrow> bool" where
  "aesKeyOk k \<longleftrightarrow> length k = 16 \<or> length k = 24 \<or> length k = 32"

definition EncryptCache :: "lib \<Rightarrow> bytes \<Rightarrow> bytes \<Rightarrow> EncryptedCache io" where
  "EncryptCache L plaintext recoveryPub =
     bnd (mayFail IOErr) (\<lambda>_.
     bnd random (\<lambda>r1.
     let aesKey = randomBytes L r1 32 in
     bnd (guardE (aesKeyOk aesKey) (Msg ''crypto/aes: invalid key size'')) (\<lambda>_.
     bnd (mayFail IOErr) (\<lambda>_.
     bnd random (\<lambda>r2.
     let nonce = randomBytes L r2 gcmNonceSize; ct = gcmSeal L aesKey nonce plaintext in
     bnd (SealKeyToRecovery L aesKey recoveryPub) (\<lambda>sealed.
     ret \<lparr>ecVersion = 1, ecSequence = 0, ecSignature = [], SealedKey = sealed, Nonce = nonce, Ciphertext = ct\<rparr>))))))"

definition DecryptCache :: "lib \<Rightarrow> EncryptedCache \<Rightarrow> RecoveryKey \<Rightarrow> error + bytes" where
  "DecryptCache L ec rk =
     (if ecVersion ec \<noteq> 1 then Inl (Msg ''unsupported cache version'')
      else case OpenKeyWithRecovery L (SealedKey ec) rk of
        Inl e \<Rightarrow> Inl e
      | Inr aesKey \<Rightarrow>
          if \<not> aesKeyOk aesKey then Inl (Msg ''crypto/aes: invalid key size'')
          else if length (Nonce ec) \<noteq> gcmNonceSize then Inl (Msg ''bad nonce'')
          else case gcmOpen L aesKey (Nonce ec) (Ciphertext ec) of
            None \<Rightarrow> Inl (Msg ''cipher: message authentication failed'')
          | Some p \<Rightarrow> Inr p)"

definition WriteFile :: "lib \<Rightarrow> EncryptedCache \<Rightarrow> string \<Rightarrow> unit io" where
  "WriteFile L ec path = atomicWriteFile path (jsonPrint L (cacheJSON L ec)) o600"

definition ReadEncryptedCache :: "lib \<Rightarrow> string \<Rightarrow> EncryptedCache io" where
  "ReadEncryptedCache L path =
     bnd (osReadFile path) (\<lambda>b. need (Msg ''json'') (jsonUnmarshal L zeroCache (cacheOfJSON L) b))"

definition digest :: "lib \<Rightarrow> EncryptedCache \<Rightarrow> bytes" where
  "digest L ec = sha256 L (''natssl-cache-v1|'' @ jsonPrint L (cacheJSON L (ec\<lparr>ecSignature := []\<rparr>)))"

definition Sign :: "lib \<Rightarrow> EncryptedCache \<Rightarrow> CA \<Rightarrow> EncryptedCache io" where
  "Sign L ec ca =
     bnd random (\<lambda>r.
     bnd (need (Msg ''ecdsa: cannot sign'') (signASN1 L r (Key ca) (digest L ec))) (\<lambda>sig.
     ret (ec\<lparr>ecSignature := sig\<rparr>)))"

definition Verify :: "lib \<Rightarrow> EncryptedCache \<Rightarrow> certificate \<Rightarrow> error option" where
  "Verify L ec ca =
     (if ecVersion ec \<noteq> 1 \<or> ecSequence ec = 0 \<or> length (Nonce ec) \<noteq> 12 \<or> length (SealedKey ec) \<noteq> 80
         \<or> length (Ciphertext ec) < 16
      then Some (Msg ''invalid signed cache envelope'')
      else case PublicKey ca of
        OtherKey _ \<Rightarrow> Some (Msg ''Root CA is not ECDSA'')
      | ECDSAKey pub \<Rightarrow>
          if \<not> verifyASN1 L pub (digest L ec) (ecSignature ec) then Some (Msg ''invalid cache signature'')
          else None)"

section \<open>The client's copy\<close>

text \<open>The part of \<^verbatim>\<open>acceptCache\<close> under the lock: the comparison with the copy that is there.\<close>

definition keepCache :: "lib \<Rightarrow> Config \<Rightarrow> certificate \<Rightarrow> EncryptedCache \<Rightarrow> bytes \<Rightarrow> unit io" where
  "keepCache L cfg root ec data =
     bnd (attempt (ReadEncryptedCache L (cachePath cfg))) (\<lambda>prev.
     case prev of
       Inl e \<Rightarrow>
         if e \<noteq> NotExist then throw e else atomicWriteFile (cachePath cfg) data o600
     | Inr previous \<Rightarrow>
         if Verify L previous root \<noteq> None \<and> \<not> (ecSequence previous = 0 \<and> ecSignature previous = []) then
           throw (Msg ''existing cache invalid'')
         else if ecSequence ec < ecSequence previous then throw (Msg ''stale cache sequence'')
         else if ecSequence ec = ecSequence previous then ret ()
         else atomicWriteFile (cachePath cfg) data o600)"

definition acceptCache :: "lib \<Rightarrow> Config \<Rightarrow> bytes \<Rightarrow> unit io" where
  "acceptCache L cfg data =
     bnd (osReadFile (caCertPath cfg)) (\<lambda>rootData.
     bnd (lift (parseRootCA L rootData)) (\<lambda>root.
     bnd (need (Msg ''json'') (jsonUnmarshal L zeroCache (cacheOfJSON L) data)) (\<lambda>ec.
     case Verify L ec root of
       Some e \<Rightarrow> throw e
     | None \<Rightarrow> withLock (cachePath cfg @ ''.lock'') (keepCache L cfg root ec data))))"

section \<open>The master's copy\<close>

text \<open>A verified cache on disk raises the counter of the database to its sequence.\<close>

definition raiseSequence :: "lib \<Rightarrow> CA \<Rightarrow> string \<Rightarrow> error + EncryptedCache \<Rightarrow> unit io" where
  "raiseSequence L ca st prev =
     (case prev of
        Inr previous \<Rightarrow>
          if Verify L previous (Cert ca) = None then
            bnd (sqlUint (ecSequence previous)) (\<lambda>n. sqlExec st (stateUpdate ''cache_sequence'' (\<lambda>v. max v n)))
          else ret ()
      | Inl _ \<Rightarrow> ret ())"

definition publishedSnapshot :: "Config \<Rightarrow> Snapshot \<Rightarrow> 64 word \<Rightarrow> Snapshot" where
  "publishedSnapshot cfg snap seq = snap\<lparr>snSequence := seq, snEnrollmentToken := EnrollmentToken cfg,
     snClientNetworks := ClientNetworks cfg\<rparr>"

definition RebuildEncryptedCache :: "lib \<Rightarrow> Config \<Rightarrow> CA \<Rightarrow> string \<Rightarrow> unit io" where
  "RebuildEncryptedCache L cfg ca st =
     withLock (cachePath cfg @ ''.lock'') (
     bnd (lift (RecoveryPublicFromBase64 L (RecoveryPublicKey cfg))) (\<lambda>pub.
     bnd (BuildSnapshot L st ca) (\<lambda>snap.
     bnd (attempt (ReadEncryptedCache L (cachePath cfg))) (\<lambda>prev.
     bnd (raiseSequence L ca st prev) (\<lambda>_.
     bnd (nextCacheSequence st) (\<lambda>seq.
     let raw = jsonPrint L (snapshotJSON L (publishedSnapshot cfg snap seq)) in
     bnd (EncryptCache L raw pub) (\<lambda>ec.
     bnd (Sign L (ec\<lparr>ecSequence := seq\<rparr>) ca) (\<lambda>ec.
     WriteFile L ec (cachePath cfg)))))))))"

section \<open>The envelope: lemmas\<close>

lemma cacheOfJSON_cacheJSON:
  assumes "base64Ok L" "- (2 ^ 63) \<le> ecVersion ec" "ecVersion ec < 2 ^ 63"
  shows "decObj (cacheOfJSON L) (cacheJSON L ec) = Some ec"
proof -
  define kvs where "kvs = [(''v'', JInt (ecVersion ec)), (''sequence'', JInt (uint (ecSequence ec))),
     (''signature'', encBytes L (ecSignature ec)), (''sealed_key'', encBytes L (SealedKey ec)),
     (''nonce'', encBytes L (Nonce ec)), (''ciphertext'', encBytes L (Ciphertext ec))]"
  have d: "distinctKeys kvs" by (simp add: kvs_def distinctKeys_def lowerChar_def)
  have m: "(''v'', JInt (ecVersion ec)) \<in> set kvs" "(''sequence'', JInt (uint (ecSequence ec))) \<in> set kvs" and
    l: "(''signature'', encBytes L (ecSignature ec)) \<in> set kvs" "(''sealed_key'', encBytes L (SealedKey ec)) \<in> set kvs"
     "(''nonce'', encBytes L (Nonce ec)) \<in> set kvs" "(''ciphertext'', encBytes L (Ciphertext ec)) \<in> set kvs"
    by (simp_all add: kvs_def)
  have "cacheOfJSON L kvs = Some ec"
    using assms uint_bounded [of "ecSequence ec"]
    by (simp add: cacheOfJSON_def m [THEN decField_value [OF d]] l [THEN decSlice_encBytes [OF d]])
  then show ?thesis by (simp add: cacheJSON_def kvs_def)
qed

lemma jsonASCII_cacheJSON: "base64Ok L \<Longrightarrow> jsonASCII (cacheJSON L ec)"
  by (simp add: cacheJSON_def encBytes_def base64Ok_def)

lemma cache_roundtrip:
  assumes "jsonOk L" "base64Ok L" "ecVersion ec = 1"
  shows "jsonUnmarshal L zeroCache (cacheOfJSON L) (jsonPrint L (cacheJSON L ec)) = Some ec"
proof -
  have "jsonParse L (jsonPrint L (cacheJSON L ec)) = Some (cacheJSON L ec)"
    using assms(1) jsonASCII_cacheJSON [OF assms(2)] by (simp add: jsonOk_def)
  moreover have "cacheJSON L ec \<noteq> JNull" by (simp add: cacheJSON_def)
  ultimately show ?thesis using cacheOfJSON_cacheJSON [of L ec] assms(2,3) by (simp add: jsonUnmarshal_def)
qed

lemma EncryptCache_decrypts:
  assumes run: "EncryptCache L plain (Public rk) w = (Inr ec, w')"
    and lib: "recoveryPair L rk" "boxOk L" "gcmOk L" "randomOk L"
  shows "DecryptCache L (ec\<lparr>ecSequence := n, ecSignature := sig\<rparr>) rk = Inr plain"
    and "ecVersion ec = 1" "length (Nonce ec) = 12" "length (SealedKey ec) = 80" "16 \<le> length (Ciphertext ec)"
proof -
  from run obtain r1 r2 sealed w1 where k: "aesKeyOk (randomBytes L r1 32)"
    and seal: "SealKeyToRecovery L (randomBytes L r1 32) (Public rk) w1 = (Inr sealed, w')"
    and ec: "ec = \<lparr>ecVersion = 1, ecSequence = 0, ecSignature = [], SealedKey = sealed, Nonce = randomBytes L r2 12,
         Ciphertext = gcmSeal L (randomBytes L r1 32) (randomBytes L r2 12) plain\<rparr>"
    by (auto simp: EncryptCache_def Let_def gcmNonceSize_def)
  note s = SealKey_opens [OF seal lib(1,2)]
  show "DecryptCache L (ec\<lparr>ecSequence := n, ecSignature := sig\<rparr>) rk = Inr plain"
    using k s(1) lib(3,4) by (simp add: ec DecryptCache_def gcmNonceSize_def randomOk_def gcmOk_def)
  show "ecVersion ec = 1" "length (Nonce ec) = 12" "length (SealedKey ec) = 80" "16 \<le> length (Ciphertext ec)"
    using s(2) lib(3,4) by (simp_all add: ec randomOk_def gcmOk_def)
qed

lemma digest_unsigned [simp]: "digest L (ec\<lparr>ecSignature := sig\<rparr>) = digest L ec"
  by (simp add: digest_def)

lemma Sign_verifies:
  assumes "Sign L ec ca w = (Inr ec', w')" "ecdsaOk L" "PublicKey (Cert ca) = ECDSAKey (publicOf L (Key ca))"
    "ecVersion ec = 1" "ecSequence ec \<noteq> 0" "length (Nonce ec) = 12" "length (SealedKey ec) = 80"
    "16 \<le> length (Ciphertext ec)"
  shows "\<exists>sig. ec' = ec\<lparr>ecSignature := sig\<rparr>" "Verify L ec' (Cert ca) = None"
proof -
  from assms(1) obtain r sig where s: "signASN1 L r (Key ca) (digest L ec) = Some sig" "ec' = ec\<lparr>ecSignature := sig\<rparr>"
    by (auto simp: Sign_def)
  then show "\<exists>sig. ec' = ec\<lparr>ecSignature := sig\<rparr>" by blast
  have "verifyASN1 L (publicOf L (Key ca)) (digest L ec) sig" using assms(2) s(1) by (auto simp: ecdsaOk_def)
  with s(2) assms(3-) show "Verify L ec' (Cert ca) = None" by (simp add: Verify_def)
qed

section \<open>What the operations leave alone\<close>

text \<open>Everything in a database except its counters.\<close>

definition sameTables :: "store \<Rightarrow> store \<Rightarrow> bool" where
  "sameTables s s' \<longleftrightarrow> s'\<lparr>stateTab := []\<rparr> = s\<lparr>stateTab := []\<rparr>"

lemma preord_sameTables [simp]: "preord sameTables"
  by (auto simp: preord_def reflp_def transp_def sameTables_def)

lemma sameTables_state [simp]: "sameTables s (stateUpdate k f s)" "sameTables s (stateUpsert k f v s)"
  by (simp_all add: sameTables_def stateUpdate_def stateUpsert_def)

lemma sameTablesD:
  assumes "sameTables s s'"
  shows "clientsTab s' = clientsTab s" "certsTab s' = certsTab s" "revokedTab s' = revokedTab s"
    "blacklistTab s' = blacklistTab s" "clientKeys s' = clientKeys s" "revokedKeys s' = revokedKeys s"
    "blockedKeys s' = blockedKeys s"
proof -
  from assms have e: "s'\<lparr>stateTab := []\<rparr> = s\<lparr>stateTab := []\<rparr>" by (simp add: sameTables_def)
  show "clientsTab s' = clientsTab s" "certsTab s' = certsTab s" "revokedTab s' = revokedTab s"
    "blacklistTab s' = blacklistTab s"
    using arg_cong [OF e, of clientsTab] arg_cong [OF e, of certsTab] arg_cong [OF e, of revokedTab]
      arg_cong [OF e, of blacklistTab] by simp_all
  then show "clientKeys s' = clientKeys s" "revokedKeys s' = revokedKeys s" "blockedKeys s' = blockedKeys s"
    by (simp_all add: key_defs)
qed

lemma guar_cache_quiet [guar_intros]:
  assumes "quiet R"
  shows "guar R (EncryptCache L p pub)" "guar R (ReadEncryptedCache L path)" "guar R (Sign L ec ca)"
  using assms by (auto simp: EncryptCache_def ReadEncryptedCache_def Sign_def Let_def intro!: guar_intros)

lemma guar_acceptCache_blind [blind_intros]: "fileBlind R \<Longrightarrow> guar R (acceptCache L cfg data)"
  unfolding acceptCache_def keepCache_def by (auto intro!: guar_intros blind_intros)

lemma guar_acceptCache_path [path_intros]:
  "\<not> isTempName p \<Longrightarrow> p \<noteq> cachePath cfg \<Longrightarrow> p \<noteq> cachePath cfg @ ''.lock'' \<Longrightarrow> guar (untouched p) (acceptCache L cfg data)"
  unfolding acceptCache_def keepCache_def by (auto intro!: guar_intros path_intros)

lemma guar_RebuildEncryptedCache:
  assumes "fileBlind R" "guar R (BuildSnapshot L st ca)" "guar R (nextCacheSequence st)"
    "\<And>n. guar R (sqlExec st (stateUpdate ''cache_sequence'' (\<lambda>v. max v n)))"
  shows "guar R (RebuildEncryptedCache L cfg ca st)"
  using assms unfolding RebuildEncryptedCache_def raiseSequence_def WriteFile_def Let_def
  by (auto intro!: guar_intros blind_intros)

lemma guar_Rebuild_grows [rel_intros]: "guar (storeRel grows) (RebuildEncryptedCache L cfg ca st)"
  by (rule guar_RebuildEncryptedCache) (auto simp: sqlExec_def intro!: rel_intros)

lemma guar_Rebuild_sameTables [rel_intros]: "guar (storeRel sameTables) (RebuildEncryptedCache L cfg ca st)"
  by (rule guar_RebuildEncryptedCache)
    (auto simp: sqlExec_def BuildSnapshot_def nextCacheSequence_def Let_def intro!: guar_intros rel_intros)

lemma guar_Rebuild_wf [inv_intros]: "guar (keepsP (dbInv wf_store)) (RebuildEncryptedCache L cfg ca st)"
  by (rule guar_RebuildEncryptedCache) (auto simp: sqlExec_def wf_statements intro!: inv_intros)

lemma guar_Rebuild_seqOk [inv_intros]: "guar (keepsP (dbInv seqOk)) (RebuildEncryptedCache L cfg ca st)"
  by (rule guar_RebuildEncryptedCache) (auto simp: sqlExec_def intro!: inv_intros seqOk_update)

lemma guar_Rebuild_path [path_intros]:
  "\<not> isTempName p \<Longrightarrow> p \<noteq> cachePath cfg \<Longrightarrow> p \<noteq> cachePath cfg @ ''.lock'' \<Longrightarrow>
   guar (untouched p) (RebuildEncryptedCache L cfg ca st)"
  unfolding RebuildEncryptedCache_def raiseSequence_def WriteFile_def Let_def sqlExec_def
  by (auto intro!: guar_intros path_intros db_intros)

section \<open>Copies that never go back\<close>

text \<open>
  The contract of a node that keeps the newest of what it is offered: \<open>version F d\<close> is the number of the
  authenticated data \<open>d\<close> under the trust anchor stored in the file system \<open>F\<close> (\<open>None\<close> when \<open>d\<close> is not
  authentic). Rejected data leaves the copy; accepted data is authentic, not older than the copy, and
  becomes the copy unless the copy has the same number; the anchor does not change. The client lemmas:
  no sequence of offers lowers the number of the copy.
\<close>

locale acceptor =
  fixes accept :: "bytes \<Rightarrow> unit io"
    and path :: string
    and version :: "filesys \<Rightarrow> bytes \<Rightarrow> int option"
  assumes rejected: "accept d w = (Inl e, w') \<Longrightarrow> fs w' path = fs w path"
    and accepted: "accept d w = (Inr u, w') \<Longrightarrow> \<exists>n. version (fs w) d = Some n
      \<and> (\<forall>b m. fileBytes (fs w) path = Some b \<longrightarrow> version (fs w) b = Some m \<longrightarrow> m \<le> n)
      \<and> (fileBytes (fs w') path = Some d
         \<or> fs w' path = fs w path \<and> (\<exists>b. fileBytes (fs w) path = Some b \<and> version (fs w) b = Some n))"
    and anchored: "accept d w = (r, w') \<Longrightarrow> version (fs w') = version (fs w)"
begin

definition copyVersion :: "filesys \<Rightarrow> int option" where
  "copyVersion F = Option.bind (fileBytes F path) (version F)"

lemma accepted_version:
  assumes "accept d w = (Inr u, w')"
  obtains n where "version (fs w) d = Some n" "copyVersion (fs w') = Some n"
    "\<And>m. copyVersion (fs w) = Some m \<Longrightarrow> m \<le> n"
proof -
  from accepted [OF assms] obtain n where n: "version (fs w) d = Some n"
    "\<forall>b m. fileBytes (fs w) path = Some b \<longrightarrow> version (fs w) b = Some m \<longrightarrow> m \<le> n"
    "fileBytes (fs w') path = Some d
       \<or> fs w' path = fs w path \<and> (\<exists>b. fileBytes (fs w) path = Some b \<and> version (fs w) b = Some n)" by blast
  then have "copyVersion (fs w') = Some n" using anchored [OF assms] by (auto simp: copyVersion_def fileBytes_def)
  with n(1,2) that show thesis by (auto simp: copyVersion_def bind_eq_Some_conv)
qed

lemma never_back:
  assumes "accept d w = (r, w')" "copyVersion (fs w) = Some m"
  shows "\<exists>n \<ge> m. copyVersion (fs w') = Some n"
proof (cases r)
  case (Inl e)
  with assms(1) rejected anchored have "copyVersion (fs w') = copyVersion (fs w)"
    by (auto simp: copyVersion_def fileBytes_def)
  with assms(2) show ?thesis by auto
next
  case (Inr u)
  with assms show ?thesis by (auto elim!: accepted_version)
qed

definition offers :: "bytes list \<Rightarrow> world \<Rightarrow> world" where
  "offers ds w = fold (\<lambda>d w. snd (accept d w)) ds w"

lemma offers_never_back:
  "copyVersion (fs w) = Some m \<Longrightarrow> \<exists>n \<ge> m. copyVersion (fs (offers ds w)) = Some n"
proof (induction ds arbitrary: w m)
  case (Cons d ds)
  obtain r w1 where "accept d w = (r, w1)" by (cases "accept d w")
  with never_back [OF this Cons.prems] obtain n where "m \<le> n" "copyVersion (fs (snd (accept d w))) = Some n" by auto
  with Cons.IH [of "snd (accept d w)" n] show ?case by (auto simp: offers_def intro: order_trans)
qed (auto simp: offers_def)

end

definition rootIn :: "lib \<Rightarrow> Config \<Rightarrow> filesys \<Rightarrow> certificate option" where
  "rootIn L cfg F =
     (case fileBytes F (caCertPath cfg) of
        None \<Rightarrow> None
      | Some data \<Rightarrow> (case parseRootCA L data of Inr root \<Rightarrow> Some root | Inl _ \<Rightarrow> None))"

definition cacheVersion :: "lib \<Rightarrow> Config \<Rightarrow> filesys \<Rightarrow> bytes \<Rightarrow> int option" where
  "cacheVersion L cfg F d =
     (case rootIn L cfg F of
        None \<Rightarrow> None
      | Some root \<Rightarrow>
         (case jsonUnmarshal L zeroCache (cacheOfJSON L) d of
            None \<Rightarrow> None
          | Some ec \<Rightarrow> if Verify L ec root = None then Some (uint (ecSequence ec)) else None))"

lemma rootIn_same: "fs w' (caCertPath cfg) = fs w (caCertPath cfg) \<Longrightarrow> rootIn L cfg (fs w') = rootIn L cfg (fs w)"
  by (simp add: rootIn_def fileBytes_def)

lemma ReadEncryptedCache_Inr:
  "ReadEncryptedCache L p w = (Inr ec, w') \<Longrightarrow> fs w' = fs w \<and>
     (\<exists>b. fileBytes (fs w) p = Some b \<and> jsonUnmarshal L zeroCache (cacheOfJSON L) b = Some ec)"
  by (auto simp: ReadEncryptedCache_def dest!: osReadFile_Inr)

lemma ReadEncryptedCache_NotExist:
  "ReadEncryptedCache L p w = (Inl NotExist, w') \<Longrightarrow> fs w p = None"
  by (auto simp: ReadEncryptedCache_def need_def split: option.splits elim!: bnd_InlE dest!: osReadFile_NotExist)

text \<open>The outcomes of \<open>acceptCache\<close>.\<close>

text \<open>What a cache that was taken did to the copy.\<close>

definition cacheTaken :: "lib \<Rightarrow> Config \<Rightarrow> certificate \<Rightarrow> EncryptedCache \<Rightarrow> bytes \<Rightarrow> filesys \<Rightarrow> filesys \<Rightarrow> bool" where
  "cacheTaken L cfg root ec d F F' \<longleftrightarrow> F (cachePath cfg) = None \<and> F' (cachePath cfg) = Some (File d o600)
     \<or> (\<exists>b prev. fileBytes F (cachePath cfg) = Some b \<and> jsonUnmarshal L zeroCache (cacheOfJSON L) b = Some prev
         \<and> (Verify L prev root = None \<or> ecSequence prev = 0 \<and> ecSignature prev = [])
         \<and> (ecSequence ec = ecSequence prev \<and> F' (cachePath cfg) = F (cachePath cfg)
            \<or> ecSequence prev < ecSequence ec \<and> F' (cachePath cfg) = Some (File d o600)))"

lemma keepCache_Inr:
  assumes "keepCache L cfg root ec d w = (Inr u, w')"
  shows "cacheTaken L cfg root ec d (fs w) (fs w')"
proof -
  let ?p = "cachePath cfg"
  from assms obtain r w1 where r: "ReadEncryptedCache L ?p w = (r, w1)"
    and k: "(case r of Inl e \<Rightarrow> if e \<noteq> NotExist then throw e else atomicWriteFile ?p d o600
        | Inr previous \<Rightarrow>
         if Verify L previous root \<noteq> None \<and> \<not> (ecSequence previous = 0 \<and> ecSignature previous = []) then
           throw (Msg ''existing cache invalid'')
         else if ecSequence ec < ecSequence previous then throw (Msg ''stale cache sequence'')
         else if ecSequence ec = ecSequence previous then ret ()
         else atomicWriteFile ?p d o600) w1 = (Inr u, w')" unfolding keepCache_def by (rule bnd_attemptE)
  show ?thesis
  proof (cases r)
    case (Inl e)
    with k r have "fs w' ?p = Some (File d o600)" "fs w ?p = None"
      by (auto split: if_splits dest: ReadEncryptedCache_NotExist intro: atomicWriteFile_Inr [rotated])
    then show ?thesis by (simp add: cacheTaken_def)
  next
    case (Inr prev)
    with r ReadEncryptedCache_Inr obtain b where b: "fs w1 = fs w" "fileBytes (fs w) ?p = Some b"
      "jsonUnmarshal L zeroCache (cacheOfJSON L) b = Some prev" by blast
    have "fs w' ?p = Some (File d o600)" if "ecSequence prev < ecSequence ec"
      using k Inr that by (auto split: if_splits intro: atomicWriteFile_Inr [rotated])
    moreover have "fs w' = fs w1" if "ecSequence prev = ecSequence ec"
      using k Inr that by (auto split: if_splits)
    moreover have "(Verify L prev root = None \<or> ecSequence prev = 0 \<and> ecSignature prev = [])
        \<and> (ecSequence prev < ecSequence ec \<or> ecSequence prev = ecSequence ec)"
      using k Inr by (auto split: if_splits)
    ultimately show ?thesis using b unfolding cacheTaken_def by (intro disjI2 exI [of _ b] exI [of _ prev]) auto
  qed
qed

lemma acceptCache_Inr:
  assumes "acceptCache L cfg d w = (Inr u, w')"
  obtains root ec where "rootIn L cfg (fs w) = Some root"
    "jsonUnmarshal L zeroCache (cacheOfJSON L) d = Some ec" "Verify L ec root = None" "cacheTaken L cfg root ec d (fs w) (fs w')"
proof -
  from assms obtain rd root ec w0 where rd: "osReadFile (caCertPath cfg) w = (Inr rd, w0)" "parseRootCA L rd = Inr root"
    and ec: "jsonUnmarshal L zeroCache (cacheOfJSON L) d = Some ec" "Verify L ec root = None"
    and body: "withLock (cachePath cfg @ ''.lock'') (keepCache L cfg root ec d) w0 = (Inr u, w')"
    by (auto simp: acceptCache_def split: option.splits)
  have f0: "fs w0 = fs w" and root: "rootIn L cfg (fs w) = Some root"
    using rd by (auto simp: rootIn_def dest!: osReadFile_Inr)
  have "cacheTaken L cfg root ec d (fs w) (fs w')"
    using body lock_paths_neq(3) [of cfg cfg]
  proof (cases rule: withLock_fs)
    case (ran w1 w2)
    with keepCache_Inr [OF ran(2)] f0 show ?thesis by (simp add: cacheTaken_def fileBytes_def)
  qed auto
  with that root ec show thesis by blast
qed

lemma acceptCache_Inl: "acceptCache L cfg d w = (Inl e, w') \<Longrightarrow> fs w' (cachePath cfg) = fs w (cachePath cfg)"
  by (rule guarF_untouchedD [of _ "acceptCache L cfg d"])
    (auto simp: acceptCache_def keepCache_def intro!: fail_intros guar_intros)

lemma acceptCache_root: "acceptCache L cfg d w = (r, w') \<Longrightarrow> rootIn L cfg (fs w') = rootIn L cfg (fs w)"
  using guar_acceptCache_path [of "caCertPath cfg" cfg L d, THEN untouched_same]
  by (intro rootIn_same) (auto dest: guar_sameD)

interpretation cacheCopy: acceptor "acceptCache L cfg" "cachePath cfg" "cacheVersion L cfg" for L cfg
proof
  fix d w e w'
  assume "acceptCache L cfg d w = (Inl e, w')"
  then show "fs w' (cachePath cfg) = fs w (cachePath cfg)" by (rule acceptCache_Inl)
next
  fix d w r w'
  assume "acceptCache L cfg d w = (r, w')"
  then show "cacheVersion L cfg (fs w') = cacheVersion L cfg (fs w)"
    using acceptCache_root by (simp add: cacheVersion_def fun_eq_iff)
next
  fix d w u w'
  assume "acceptCache L cfg d w = (Inr u, w')"
  then show "\<exists>n. cacheVersion L cfg (fs w) d = Some n
      \<and> (\<forall>b m. fileBytes (fs w) (cachePath cfg) = Some b \<longrightarrow> cacheVersion L cfg (fs w) b = Some m \<longrightarrow> m \<le> n)
      \<and> (fileBytes (fs w') (cachePath cfg) = Some d
         \<or> fs w' (cachePath cfg) = fs w (cachePath cfg)
           \<and> (\<exists>b. fileBytes (fs w) (cachePath cfg) = Some b \<and> cacheVersion L cfg (fs w) b = Some n))"
  proof (rule acceptCache_Inr, goal_cases)
    case (1 root ec)
    from 1(4) [unfolded cacheTaken_def] show ?case
    proof (elim disjE exE conjE)
      assume "fs w (cachePath cfg) = None" "fs w' (cachePath cfg) = Some (File d o600)"
      with 1(1-3) show ?thesis by (auto simp: cacheVersion_def fileBytes_def)
    next
      fix b prev
      assume "fileBytes (fs w) (cachePath cfg) = Some b" "jsonUnmarshal L zeroCache (cacheOfJSON L) b = Some prev"
        "ecSequence prev < ecSequence ec" "fs w' (cachePath cfg) = Some (File d o600)"
      with 1(1-3) show ?thesis by (auto simp: cacheVersion_def fileBytes_def word_less_def split: if_splits)
    next
      fix b prev
      assume "fileBytes (fs w) (cachePath cfg) = Some b" "jsonUnmarshal L zeroCache (cacheOfJSON L) b = Some prev"
        "ecSequence ec = ecSequence prev" "fs w' (cachePath cfg) = fs w (cachePath cfg)" "Verify L prev root = None"
      with 1(1-3) show ?thesis by (auto simp: cacheVersion_def)
    next
      fix b prev
      assume "ecSequence ec = ecSequence prev" "ecSequence prev = 0"
      with 1(3) show ?thesis by (simp add: Verify_def split: if_splits)
    qed (use 1(1-3) in \<open>auto simp: cacheVersion_def fileBytes_def word_less_def split: if_splits\<close>)
  qed
qed

section \<open>A rebuilt cache\<close>

text \<open>What a cache file holds: an envelope that verifies under the root, whose snapshot the recovery key
  opens.\<close>

lemma jsonASCII_encList: "(\<And>x. x \<in> set xs \<Longrightarrow> jsonASCII (enc x)) \<Longrightarrow> jsonASCII (encList enc xs)"
  by (auto simp: encList_def)

definition asciiCert :: "CertRecord \<Rightarrow> bool" where
  "asciiCert c \<longleftrightarrow> isASCII (ID c) \<and> isASCII (crSubject c) \<and> isASCII (SANs c) \<and> isASCII (ClientPub c)
     \<and> isASCII (SerialHex c) \<and> isASCII (CertPEM c)"

definition asciiSnapshot :: "Snapshot \<Rightarrow> bool" where
  "asciiSnapshot s \<longleftrightarrow> isASCII (snEnrollmentToken s) \<and> list_all isASCII (snClientNetworks s)
     \<and> isASCII (snFingerprint s) \<and> isASCII (snCACertPEM s) \<and> isASCII (snCAKeyPEM s) \<and> list_all isASCII (snClients s)
     \<and> list_all asciiCert (snCerts s) \<and> list_all (\<lambda>r. isASCII (rvSerialHex r) \<and> isASCII (rvSubject r)) (snRevoked s)
     \<and> list_all (\<lambda>b. isASCII (bIP b) \<and> isASCII (bReason b)) (snBlacklist s)"

lemma jsonASCII_snapshotJSON: "timeTextOk L \<Longrightarrow> asciiSnapshot s \<Longrightarrow> jsonASCII (snapshotJSON L s)"
  by (auto simp: snapshotJSON_def asciiSnapshot_def asciiCert_def certJSON_def revokedJSON_def blockJSON_def
      timeTextOk_def list_all_iff intro!: jsonASCII_encList)

definition zeroSnapshot :: Snapshot where
  "zeroSnapshot = \<lparr>snVersion = 0, snEnrollmentToken = '''', snClientNetworks = [], snCRLNumber = 0, snSequence = 0,
     snCreatedAt = zeroTime, snFingerprint = '''', snCACertPEM = '''', snCAKeyPEM = '''', snClients = [],
     snCerts = [], snRevoked = [], snBlacklist = []\<rparr>"

lemma snapshot_roundtrip:
  assumes "jsonOk L" "timeTextOk L" "snapshotFits s" "asciiSnapshot s"
  shows "jsonUnmarshal L zeroSnapshot (snapshotOfJSON L) (jsonPrint L (snapshotJSON L s)) = Some s"
proof -
  have "jsonParse L (jsonPrint L (snapshotJSON L s)) = Some (snapshotJSON L s)"
    using assms(1) jsonASCII_snapshotJSON [OF assms(2,4)] by (simp add: jsonOk_def)
  moreover have "snapshotJSON L s \<noteq> JNull" by (simp add: snapshotJSON_def)
  ultimately show ?thesis using snapshotOfJSON_snapshotJSON [OF assms(2,3)] by (simp add: jsonUnmarshal_def)
qed

lemma Rebuild_steps:
  assumes "RebuildEncryptedCache L cfg ca st w = (Inr u, w')"
  obtains pub snap prev seq ec ec' w1 w2 w2' w3 w4 w5 w6 wn where
    "RecoveryPublicFromBase64 L (RecoveryPublicKey cfg) = Inr pub"
    "lockFile (cachePath cfg @ ''.lock'') w = (Inr (), w1)" "BuildSnapshot L st ca w1 = (Inr snap, w2)"
    "ReadEncryptedCache L (cachePath cfg) w2 = (prev, w2')" "raiseSequence L ca st prev w2' = (Inr (), w3)"
    "nextCacheSequence st w3 = (Inr seq, w4)"
    "EncryptCache L (jsonPrint L (snapshotJSON L (publishedSnapshot cfg snap seq))) pub w4 = (Inr ec, w5)"
    "Sign L (ec\<lparr>ecSequence := seq\<rparr>) ca w5 = (Inr ec', w6)"
    "atomicWriteFile (cachePath cfg) (jsonPrint L (cacheJSON L ec')) o600 w6 = (Inr u, wn)"
    "fs w' = fs wn" "dbs w' = dbs wn"
  using assms unfolding RebuildEncryptedCache_def
proof (cases rule: withLock_cases)
  case (ran w1 wn)
  from ran(2) show thesis
  proof (elim bnd_InrE, unfold lift_Inr attempt_eq, elim conjE, hypsubst, goal_cases)
    case 1
    then show ?case using ran that
      by (auto simp: Let_def WriteFile_def)
  qed
qed auto

lemma guar_raiseSequence [rel_intros]: "guar (storeRel grows) (raiseSequence L ca st prev)"
  unfolding raiseSequence_def sqlExec_def by (auto intro!: guar_intros rel_intros)

lemma stateUpdate_id: "stateUpdate k (\<lambda>v. v) s = s"
proof -
  have "map (\<lambda>(x, y). if x = k then (x, y) else (x, y)) xs = xs" for xs :: "(string \<times> int) list"
    by (induction xs) auto
  then show ?thesis by (simp add: stateUpdate_def)
qed

lemma raiseSequence_Inr:
  assumes "raiseSequence L ca st prev w = (Inr u, w')" "dbs w st = Some s"
  obtains f where "dbs w' st = Some (stateUpdate ''cache_sequence'' f s)" "\<And>v. v \<le> f v"
    "\<And>previous v. prev = Inr previous \<Longrightarrow> Verify L previous (Cert ca) = None \<Longrightarrow> uint (ecSequence previous) \<le> f v"
proof (cases "\<exists>previous. prev = Inr previous \<and> Verify L previous (Cert ca) = None")
  case True
  then obtain previous where p: "prev = Inr previous" "Verify L previous (Cert ca) = None" by blast
  with assms(1) have "sqlExec st (stateUpdate ''cache_sequence'' (\<lambda>v. max v (uint (ecSequence previous)))) w = (Inr u, w')"
    by (auto simp: raiseSequence_def sqlUint_def split: if_splits)
  then have "dbs w' st = Some (stateUpdate ''cache_sequence'' (\<lambda>v. max v (uint (ecSequence previous))) s)"
    using assms(2) by (auto elim!: sqlExec_Inr)
  then show thesis by (rule that) (use p in auto)
next
  case False
  with assms have "w' = w" by (auto simp: raiseSequence_def split: sum.splits if_splits)
  then have "dbs w' st = Some (stateUpdate ''cache_sequence'' (\<lambda>v. v) s)" using assms(2) by (simp add: stateUpdate_id)
  then show thesis by (rule that) (use False in auto)
qed

lemma lockFile_dbs: "lockFile p w = (r, w') \<Longrightarrow> dbs w' = dbs w"
  using guar_file_ops_blind(7) [of "same dbs" p] by (auto dest: guar_sameD)

text \<open>The published cache: it verifies, its sequence is above the level of the counter, and the recovery
  key opens it to the snapshot of the database, stamped with the sequence.\<close>

definition snapshotOfStore :: "lib \<Rightarrow> CA \<Rightarrow> store \<Rightarrow> Snapshot \<Rightarrow> bool" where
  "snapshotOfStore L ca s snap \<longleftrightarrow> snVersion snap = 1 \<and> snClients snap = sort_key id (map ciIP (clientsTab s))
     \<and> snCerts snap = sort_key NotBefore (certsTab s) \<and> snRevoked snap = sort_key RevokedAt (revokedTab s)
     \<and> snBlacklist snap = sort_key bIP (blacklistTab s) \<and> snFingerprint snap = Fingerprint L ca
     \<and> caPEM L ca = Inr (snCACertPEM snap, snCAKeyPEM snap)
     \<and> snCRLNumber snap = (case stateGet ''crl_number'' s of None \<Rightarrow> 0 | Some v \<Rightarrow> v) \<and> snCRLNumber snap \<le> maxInteger"

lemma Rebuild_sequence:
  assumes "dbs w2' st = Some s" "seqOk s" "raiseSequence L ca st prev w2' = (Inr (), w3)"
    "nextCacheSequence st w3 = (Inr seq, w4)"
  obtains v where "stateGet ''cache_sequence'' s = Some v" "v < uint seq" "seq \<noteq> 0"
    "\<And>previous. prev = Inr previous \<Longrightarrow> Verify L previous (Cert ca) = None \<Longrightarrow> ecSequence previous < seq"
    "dbLevel ''cache_sequence'' st w4 = uint seq"
proof -
  from assms(3,1) obtain f where f: "dbs w3 st = Some (stateUpdate ''cache_sequence'' f s)" "\<And>v. v \<le> f v"
    "\<And>previous v. prev = Inr previous \<Longrightarrow> Verify L previous (Cert ca) = None \<Longrightarrow> uint (ecSequence previous) \<le> f v"
    by (rule raiseSequence_Inr) blast
  from assms(4) f(1) obtain x where x: "stateGet ''cache_sequence'' (stateUpdate ''cache_sequence'' f s) = Some x"
    "x < uint seq" by (auto elim!: nextCacheSequence_Inr)
  then obtain v where v: "stateGet ''cache_sequence'' s = Some v" "x = f v" by (auto simp: stateGet_stateUpdate)
  have "0 \<le> v" using assms(2) v(1) by (simp add: seqOk_def)
  have lt: "v < uint seq" using f(2) [of v] x(2) v(2) by simp
  moreover have "seq \<noteq> 0" using lt \<open>0 \<le> v\<close> by auto
  moreover have "ecSequence previous < seq" if "prev = Inr previous" "Verify L previous (Cert ca) = None" for previous
    using f(3) [OF that, of v] x(2) v(2) by (simp add: word_less_def)
  moreover have "dbLevel ''cache_sequence'' st w4 = uint seq"
    using cacheSequence.draw_Inr [OF assms(4)] by simp
  ultimately show thesis using that v(1) by blast
qed

lemma Rebuild_Inr:
  assumes run: "RebuildEncryptedCache L cfg ca st w = (Inr u, w')"
    and db: "dbs w st = Some s" "seqOk s"
    and ca: "validCA L ca" and rk: "recoveryPair L rk" "RecoveryPublicFromBase64 L (RecoveryPublicKey cfg) = Inr (Public rk)"
    and lib: "boxOk L" "gcmOk L" "randomOk L" "ecdsaOk L"
  obtains snap ec v where
    "fs w' (cachePath cfg) = Some (File (jsonPrint L (cacheJSON L ec)) o600)"
    "ecVersion ec = 1" "Verify L ec (Cert ca) = None"
    "stateGet ''cache_sequence'' s = Some v" "v < uint (ecSequence ec)"
    "DecryptCache L ec rk = Inr (jsonPrint L (snapshotJSON L (publishedSnapshot cfg snap (ecSequence ec))))"
    "snapshotOfStore L ca s snap" "dbLevel ''cache_sequence'' st w' = uint (ecSequence ec)"
proof -
  from run obtain pub snap prev seq ec ec' w1 w2 w2' w3 w4 w5 w6 wn where
    pub: "RecoveryPublicFromBase64 L (RecoveryPublicKey cfg) = Inr pub" and
    w1: "lockFile (cachePath cfg @ ''.lock'') w = (Inr (), w1)" and snap: "BuildSnapshot L st ca w1 = (Inr snap, w2)" and
    prev: "ReadEncryptedCache L (cachePath cfg) w2 = (prev, w2')" and w3: "raiseSequence L ca st prev w2' = (Inr (), w3)" and
    seq: "nextCacheSequence st w3 = (Inr seq, w4)" and
    enc: "EncryptCache L (jsonPrint L (snapshotJSON L (publishedSnapshot cfg snap seq))) pub w4 = (Inr ec, w5)" and
    sig: "Sign L (ec\<lparr>ecSequence := seq\<rparr>) ca w5 = (Inr ec', w6)" and
    wr: "atomicWriteFile (cachePath cfg) (jsonPrint L (cacheJSON L ec')) o600 w6 = (Inr u, wn)" and wn: "fs w' = fs wn" "dbs w' = dbs wn"
    by (rule Rebuild_steps)
  have db1: "dbs w1 st = Some s" using lockFile_dbs [OF w1] db(1) by simp
  have of_s: "snapshotOfStore L ca s snap" using BuildSnapshot_Inr [OF snap db1] by (simp add: snapshotOfStore_def)
  have "dbs w2' = dbs w2" using guar_cache_quiet(2) [of "same dbs" L "cachePath cfg"] prev by (auto dest: guar_sameD)
  then have "dbs w2' st = Some s" using BuildSnapshot_Inr(1) [OF snap db1] db1 by simp
  from Rebuild_sequence [OF this db(2) w3 seq] obtain v where v: "stateGet ''cache_sequence'' s = Some v" "v < uint seq" "seq \<noteq> 0"
    and level: "dbLevel ''cache_sequence'' st w4 = uint seq" by blast
  have quiet: "quiet (same dbs)" by simp
  have "dbs w5 = dbs w4" using guar_cache_quiet(1) [OF quiet] enc by (rule guar_sameD)
  moreover have "dbs w6 = dbs w5" using guar_cache_quiet(3) [OF quiet] sig by (rule guar_sameD)
  moreover have "guar (same dbs) (atomicWriteFile (cachePath cfg) (jsonPrint L (cacheJSON L ec')) o600)" by (auto intro: blind_intros)
  then have "dbs wn = dbs w6" using wr by (rule guar_sameD)
  ultimately have last: "dbLevel ''cache_sequence'' st w' = uint seq" using level wn(2) by (simp add: dbLevel_def)
  have "pub = Public rk" using pub rk(2) by simp
  note e = EncryptCache_decrypts [OF enc [unfolded this] rk(1) lib(1-3)]
  obtain sg where ec': "ec' = ec\<lparr>ecSequence := seq, ecSignature := sg\<rparr>" and ver: "Verify L ec' (Cert ca) = None"
    using Sign_verifies [OF sig lib(4)] ca e v(3) by (auto simp: validCA_def)
  have "fs w' (cachePath cfg) = Some (File (jsonPrint L (cacheJSON L ec')) o600)"
    using atomicWriteFile_Inr [OF _ wr] wn(1) by simp
  then show thesis
    using that [of ec' v snap] ver v e(1) [where n = seq and sig = sg] e(2) of_s last by (simp add: ec')
qed

end
