(* ===== verification/Crl.thy ===== *)
theory Crl
  imports Cache
begin

text \<open>
  \<^verbatim>\<open>crl.go\<close>: the certificate revocation list. The master signs a list of every revoked serial
  (\<open>BuildCRLDER\<close>, \<open>WriteCRL\<close>, \<open>refreshCRL\<close>); a client keeps the newest list that its root signed
  (\<open>acceptCRL\<close>).

  The lemmas show that the list has exactly the revoked serials, that numbers grow, and that a client's
  list never goes back (a second interpretation of \<open>acceptor\<close>).
\<close>

definition crlReasonUnspecified :: int where
  "crlReasonUnspecified = 0"

fun crlEntries :: "time \<Rightarrow> RevokedRecord list \<Rightarrow> revocationEntry list" where
  "crlEntries now [] = []"
| "crlEntries now (r # rs) =
     (case bigSetString16 (rvSerialHex r) of
        None \<Rightarrow> crlEntries now rs
      | Some serial \<Rightarrow>
          \<lparr>entrySerial = serial, RevocationTime = (if RevokedAt r = zeroTime then now else RevokedAt r),
           ReasonCode = Reason r\<rparr> # crlEntries now rs)"

definition BuildCRLDER :: "lib \<Rightarrow> CA \<Rightarrow> string \<Rightarrow> bytes io" where
  "BuildCRLDER L ca st =
     bnd (ListRevoked st) (\<lambda>revoked.
     bnd timeNow (\<lambda>now.
     bnd (nextCRLNumber st (int64 now)) (\<lambda>number.
     let tmpl = \<lparr>crlRaw = [], crlNumber = Some number, ThisUpdate = now - 5 * minute,
                 NextUpdate = addDate L 0 0 7 now, RevokedCertificateEntries = crlEntries now revoked\<rparr> in
     bnd random (\<lambda>r.
     need (Msg ''x509: cannot create CRL'') (createRevocationList L r tmpl (Cert ca) (Key ca))))))"

definition WriteCRL :: "lib \<Rightarrow> Config \<Rightarrow> CA \<Rightarrow> string \<Rightarrow> unit io" where
  "WriteCRL L cfg ca st =
     withLock (crlPath cfg @ ''.lock'') (
     bnd (onErr (Wrap ''build CRL'') (BuildCRLDER L ca st)) (\<lambda>der.
     onErr (Wrap ''write CRL'') (atomicWriteFile (crlPath cfg) (pemEncode L ''X509 CRL'' der) o644)))"

definition parseCRL :: "lib \<Rightarrow> bytes \<Rightarrow> error + revocationList" where
  "parseCRL L data =
     (case pemDecode L data of
        None \<Rightarrow> Inl (Msg ''invalid CRL PEM'')
      | Some (ty, b) \<Rightarrow>
          if ty \<noteq> ''X509 CRL'' then Inl (Msg ''invalid CRL PEM'')
          else case parseRevocationList L b of
            None \<Rightarrow> Inl (Msg ''x509: cannot parse CRL'')
          | Some crl \<Rightarrow> Inr crl)"

text \<open>The comparison of the client's list with a new one of number \<open>n\<close>.\<close>

definition staleCRL :: "int \<Rightarrow> revocationList \<Rightarrow> bool" where
  "staleCRL n old \<longleftrightarrow> (case crlNumber old of None \<Rightarrow> True | Some m \<Rightarrow> n < m)"

text \<open>The part of \<^verbatim>\<open>acceptCRL\<close> under the lock: the comparison of a list of number \<open>n\<close> with the one that is there.\<close>

definition keepCRL :: "lib \<Rightarrow> Config \<Rightarrow> certificate \<Rightarrow> int \<Rightarrow> bytes \<Rightarrow> unit io" where
  "keepCRL L cfg root n data =
     bnd (attempt (osReadFile (crlPath cfg))) (\<lambda>prev.
     case prev of
       Inl e \<Rightarrow> if e \<noteq> NotExist then throw e else atomicWriteFile (crlPath cfg) data o644
     | Inr previous \<Rightarrow>
         bnd (lift (parseCRL L previous)) (\<lambda>old.
         if \<not> crlCheckSignatureFrom L old root then throw (Msg ''x509: CRL signature'')
         else if staleCRL n old then throw (Msg ''stale CRL'')
         else atomicWriteFile (crlPath cfg) data o644))"

definition acceptCRL :: "lib \<Rightarrow> Config \<Rightarrow> bytes \<Rightarrow> unit io" where
  "acceptCRL L cfg data =
     bnd (osReadFile (caCertPath cfg)) (\<lambda>rootData.
     bnd (lift (parseRootCA L rootData)) (\<lambda>root.
     bnd (lift (parseCRL L data)) (\<lambda>crl.
     if \<not> crlCheckSignatureFrom L crl root then throw (Msg ''x509: CRL signature'')
     else
     bnd timeNow (\<lambda>now.
     case crlNumber crl of
       None \<Rightarrow> throw (Msg ''expired or invalid CRL'')
     | Some n \<Rightarrow>
     if now + minute < ThisUpdate crl \<or> \<not> now < NextUpdate crl then throw (Msg ''expired or invalid CRL'')
     else withLock (crlPath cfg @ ''.lock'') (keepCRL L cfg root n data)))))"

definition crlFresh :: "lib \<Rightarrow> time \<Rightarrow> bytes \<Rightarrow> bool" where
  "crlFresh L now data \<longleftrightarrow>
     (case pemDecode L data of
        None \<Rightarrow> False
      | Some (_, b) \<Rightarrow>
          (case parseRevocationList L b of
             None \<Rightarrow> False
           | Some crl \<Rightarrow> NextUpdate crl - now > 24 * hour))"

definition refreshCRL :: "lib \<Rightarrow> Config \<Rightarrow> CA \<Rightarrow> string \<Rightarrow> unit io" where
  "refreshCRL L cfg ca st =
     bnd (attempt (osReadFile (crlPath cfg))) (\<lambda>r.
     case r of
       Inl _ \<Rightarrow> WriteCRL L cfg ca st
     | Inr data \<Rightarrow>
         bnd timeNow (\<lambda>now. if crlFresh L now data then ret () else WriteCRL L cfg ca st))"

section \<open>What the operations leave alone\<close>

lemma guar_BuildCRLDER:
  assumes "quiet R" "\<And>n. - (2 ^ 63) \<le> n \<Longrightarrow> guar R (nextCRLNumber st n)"
  shows "guar R (BuildCRLDER L ca st)"
  using assms int64_range(1) unfolding BuildCRLDER_def Let_def by (auto intro!: guar_intros)

lemma guar_WriteCRL:
  assumes "fileBlind R" "\<And>n. - (2 ^ 63) \<le> n \<Longrightarrow> guar R (nextCRLNumber st n)"
  shows "guar R (WriteCRL L cfg ca st)"
  using assms unfolding WriteCRL_def by (auto intro!: guar_intros blind_intros guar_BuildCRLDER)

lemma guar_refreshCRL:
  assumes "fileBlind R" "\<And>n. - (2 ^ 63) \<le> n \<Longrightarrow> guar R (nextCRLNumber st n)"
  shows "guar R (refreshCRL L cfg ca st)"
  using assms unfolding refreshCRL_def by (auto intro!: guar_intros guar_WriteCRL)

lemma guar_crl_grows [rel_intros]:
  "guar (storeRel grows) (WriteCRL L cfg ca st)" "guar (storeRel grows) (refreshCRL L cfg ca st)"
  by (auto intro!: guar_WriteCRL guar_refreshCRL rel_intros)

lemma guar_crl_sameTables [rel_intros]:
  "guar (storeRel sameTables) (WriteCRL L cfg ca st)" "guar (storeRel sameTables) (refreshCRL L cfg ca st)"
  by (auto simp: nextCRLNumber_def Let_def intro!: guar_WriteCRL guar_refreshCRL guar_intros rel_intros)

lemma guar_crl_inv [inv_intros]:
  "guar (keepsP (dbInv wf_store)) (WriteCRL L cfg ca st)" "guar (keepsP (dbInv wf_store)) (refreshCRL L cfg ca st)"
  "guar (keepsP (dbInv seqOk)) (WriteCRL L cfg ca st)" "guar (keepsP (dbInv seqOk)) (refreshCRL L cfg ca st)"
  by (auto intro!: guar_WriteCRL guar_refreshCRL inv_intros)

lemma guar_BuildCRLDER_blind [db_intros]: "dbBlind R \<Longrightarrow> guar R (BuildCRLDER L ca st)"
  by (auto intro!: guar_BuildCRLDER db_intros)

lemma guar_crl_path [path_intros]:
  assumes "\<not> isTempName p" "p \<noteq> crlPath cfg" "p \<noteq> crlPath cfg @ ''.lock''"
  shows "guar (untouched p) (WriteCRL L cfg ca st)" "guar (untouched p) (refreshCRL L cfg ca st)"
    "guar (untouched p) (acceptCRL L cfg data)"
  using assms unfolding refreshCRL_def WriteCRL_def acceptCRL_def keepCRL_def by (auto intro!: guar_intros path_intros db_intros)

lemma guar_acceptCRL_blind [blind_intros]: "fileBlind R \<Longrightarrow> guar R (acceptCRL L cfg data)"
  unfolding acceptCRL_def keepCRL_def by (auto intro!: guar_intros blind_intros)

section \<open>The list: lemmas\<close>

lemma crlEntries_serials:
  "entrySerial ` set (crlEntries now rs) = {n. \<exists>r \<in> set rs. bigSetString16 (rvSerialHex r) = Some n}"
  by (induction now rs rule: crlEntries.induct) (auto split: option.splits)

lemma crlEntries_reasons: "e \<in> set (crlEntries now rs) \<Longrightarrow>
    \<exists>r \<in> set rs. bigSetString16 (rvSerialHex r) = Some (entrySerial e) \<and> ReasonCode e = Reason r"
  by (induction now rs rule: crlEntries.induct) (auto split: option.splits)

text \<open>A written list: it carries a new number, parses and verifies, and lists exactly the serials of the revoked
  table.\<close>

lemma BuildCRLDER_Inr:
  assumes run: "BuildCRLDER L ca st w = (Inr der, w')" and db: "dbs w st = Some s"
    and lib: "crlOk L" and ca: "PublicKey (Cert ca) = ECDSAKey (publicOf L (Key ca))"
  obtains crl n where "parseRevocationList L der = Some crl" "crlNumber crl = Some n"
    "dbLevel ''crl_number'' st w < n" "dbLevel ''crl_number'' st w' = n"
    "crlCheckSignatureFrom L crl (Cert ca)"
    "entrySerial ` set (RevokedCertificateEntries crl)
       = {m. \<exists>r \<in> set (revokedTab s). bigSetString16 (rvSerialHex r) = Some m}"
proof -
  from run obtain rs w1 now w2 n w3 sd where
    l: "ListRevoked st w = (Inr rs, w1)" and t: "(timeNow :: time io) w1 = (Inr now, w2)" and
    n: "nextCRLNumber st (int64 now) w2 = (Inr n, w3)" and sd: "(random :: nat io) w3 = (Inr sd, w')" and
    der: "createRevocationList L sd \<lparr>crlRaw = [], crlNumber = Some n, ThisUpdate = now - 5 * minute,
       NextUpdate = addDate L 0 0 7 now, RevokedCertificateEntries = crlEntries now rs\<rparr> (Cert ca) (Key ca) = Some der"
    by (auto simp: BuildCRLDER_def Let_def)
  have d2: "dbs w2 = dbs w" and rs: "rs = sort_key RevokedAt (revokedTab s)"
    using read_Inr(6) [OF db l] timeNow_dbs [OF t] by auto
  have d3: "dbs w' = dbs w3" using guar_random [of "same dbs"] sd by (auto dest: guar_sameD)
  from lib der obtain crl where c: "parseRevocationList L der = Some crl" "crlNumber crl = Some n"
    "map entrySerial (RevokedCertificateEntries crl) = map entrySerial (crlEntries now rs)"
    "crlCheckSignatureFrom L crl (Cert ca)"
    using ca unfolding crlOk_def by fastforce
  have "entrySerial ` set (RevokedCertificateEntries crl) = entrySerial ` set (crlEntries now rs)"
    using c(3) by (rule set_map_eq_image)
  also have "\<dots> = {m. \<exists>r \<in> set (revokedTab s). bigSetString16 (rvSerialHex r) = Some m}"
    by (simp add: crlEntries_serials rs)
  finally show thesis
    using that c crlNumbers.draw_Inr [OF n] d2 d3 by (simp add: dbLevel_def)
qed

lemma WriteCRL_Inr:
  assumes run: "WriteCRL L cfg ca st w = (Inr u, w')" and db: "dbs w st = Some s"
    and lib: "crlOk L" "pemOk L" and ca: "PublicKey (Cert ca) = ECDSAKey (publicOf L (Key ca))"
  obtains data crl n where "fs w' (crlPath cfg) = Some (File data o644)" "parseCRL L data = Inr crl"
    "crlNumber crl = Some n" "dbLevel ''crl_number'' st w < n" "dbLevel ''crl_number'' st w' = n"
    "crlCheckSignatureFrom L crl (Cert ca)"
    "entrySerial ` set (RevokedCertificateEntries crl)
       = {m. \<exists>r \<in> set (revokedTab s). bigSetString16 (rvSerialHex r) = Some m}"
  using run unfolding WriteCRL_def
proof (cases rule: withLock_cases)
  case (ran w1 w2)
  from ran(2) obtain der w3 where b: "BuildCRLDER L ca st w1 = (Inr der, w3)" and
    a: "atomicWriteFile (crlPath cfg) (pemEncode L ''X509 CRL'' der) o644 w3 = (Inr u, w2)" by auto
  have d1: "dbs w1 = dbs w" using ran(1) by (rule lockFile_dbs)
  have d2: "dbs w' = dbs w3"
    using guar_atomicWriteFile_blind [of "same dbs"] a ran(3) by (auto dest: guar_sameD)
  have "dbs w1 st = Some s" using d1 db by simp
  from BuildCRLDER_Inr [OF b this lib(1) ca] obtain crl n where c: "parseRevocationList L der = Some crl"
    "crlNumber crl = Some n" "dbLevel ''crl_number'' st w1 < n" "dbLevel ''crl_number'' st w3 = n"
    "crlCheckSignatureFrom L crl (Cert ca)" "entrySerial ` set (RevokedCertificateEntries crl)
       = {m. \<exists>r \<in> set (revokedTab s). bigSetString16 (rvSerialHex r) = Some m}" by blast
  have "parseCRL L (pemEncode L ''X509 CRL'' der) = Inr crl"
    using lib(2) c(1) by (simp add: parseCRL_def pemOk_def)
  moreover have "fs w' (crlPath cfg) = Some (File (pemEncode L ''X509 CRL'' der) o644)"
    using atomicWriteFile_Inr [OF _ a] ran(3) by simp
  ultimately show thesis using that c d1 d2 by (simp add: dbLevel_def)
qed auto

section \<open>The client's copy\<close>

definition crlVersion :: "lib \<Rightarrow> Config \<Rightarrow> filesys \<Rightarrow> bytes \<Rightarrow> int option" where
  "crlVersion L cfg F d =
     (case rootIn L cfg F of
        None \<Rightarrow> None
      | Some root \<Rightarrow>
         (case parseCRL L d of
            Inl _ \<Rightarrow> None
          | Inr crl \<Rightarrow> if crlCheckSignatureFrom L crl root then crlNumber crl else None))"

lemma keepCRL_Inr:
  assumes "keepCRL L cfg root n d w = (Inr u, w')"
  shows "fs w' (crlPath cfg) = Some (File d o644) \<and> (fs w (crlPath cfg) = None \<or> (\<exists>b old m. fileBytes (fs w) (crlPath cfg) = Some b
    \<and> parseCRL L b = Inr old \<and> crlCheckSignatureFrom L old root \<and> crlNumber old = Some m \<and> m \<le> n))"
proof -
  let ?p = "crlPath cfg"
  from assms obtain r w1 where r: "osReadFile ?p w = (r, w1)" and k: "(case r of
       Inl e \<Rightarrow> if e \<noteq> NotExist then throw e else atomicWriteFile ?p d o644
     | Inr previous \<Rightarrow>
         bnd (lift (parseCRL L previous)) (\<lambda>old.
         if \<not> crlCheckSignatureFrom L old root then throw (Msg ''x509: CRL signature'')
         else if staleCRL n old then throw (Msg ''stale CRL'')
         else atomicWriteFile ?p d o644)) w1 = (Inr u, w')" unfolding keepCRL_def by (rule bnd_attemptE)
  show ?thesis
  proof (cases r)
    case (Inl e)
    with k r show ?thesis
      by (auto split: if_splits dest: osReadFile_NotExist intro: atomicWriteFile_Inr [rotated])
  next
    case (Inr b)
    with k obtain old where old: "parseCRL L b = Inr old" "crlCheckSignatureFrom L old root" "\<not> staleCRL n old"
      and wr: "atomicWriteFile ?p d o644 w1 = (Inr u, w')" by (auto split: if_splits)
    have "fileBytes (fs w) ?p = Some b" using Inr r by (auto dest: osReadFile_Inr)
    moreover obtain m where "crlNumber old = Some m" "m \<le> n" using old(3) by (auto simp: staleCRL_def split: option.splits)
    moreover have "fs w' ?p = Some (File d o644)" using wr by (intro atomicWriteFile_Inr [rotated]) simp_all
    ultimately show ?thesis using old by auto
  qed
qed

lemma acceptCRL_Inr:
  assumes "acceptCRL L cfg d w = (Inr u, w')"
  obtains root crl n now where "rootIn L cfg (fs w) = Some root" "parseCRL L d = Inr crl"
    "crlCheckSignatureFrom L crl root" "crlNumber crl = Some n"
    "ThisUpdate crl \<le> now + minute" "now < NextUpdate crl" "fs w' (crlPath cfg) = Some (File d o644)"
    "fs w (crlPath cfg) = None \<or> (\<exists>b old m. fileBytes (fs w) (crlPath cfg) = Some b \<and> parseCRL L b = Inr old
       \<and> crlCheckSignatureFrom L old root \<and> crlNumber old = Some m \<and> m \<le> n)"
proof -
  from assms obtain rd root crl n now w0 w1 where rd: "osReadFile (caCertPath cfg) w = (Inr rd, w0)" "parseRootCA L rd = Inr root"
    and crl: "parseCRL L d = Inr crl" "crlCheckSignatureFrom L crl root" "crlNumber crl = Some n"
      "ThisUpdate crl \<le> now + minute" "now < NextUpdate crl"
    and t: "(timeNow :: time io) w0 = (Inr now, w1)" and body: "withLock (crlPath cfg @ ''.lock'') (keepCRL L cfg root n d) w1 = (Inr u, w')"
    by (auto simp: acceptCRL_def not_less split: option.splits if_splits)
  have "fs w1 = fs w0" using t guar_timeNow [of "same fs"] by (auto dest: guar_sameD)
  then have f0: "fs w1 = fs w" and root: "rootIn L cfg (fs w) = Some root"
    using rd by (auto simp: rootIn_def dest!: osReadFile_Inr)
  have "fs w' (crlPath cfg) = Some (File d o644) \<and> (fs w (crlPath cfg) = None \<or> (\<exists>b old m. fileBytes (fs w) (crlPath cfg) = Some b
      \<and> parseCRL L b = Inr old \<and> crlCheckSignatureFrom L old root \<and> crlNumber old = Some m \<and> m \<le> n))"
    using body lock_paths_neq(6) [of cfg cfg]
  proof (cases rule: withLock_fs)
    case (ran v v2)
    with keepCRL_Inr [OF ran(2)] f0 show ?thesis by (simp add: fileBytes_def)
  qed auto
  with that root crl show thesis by blast
qed

lemma acceptCRL_Inl: "acceptCRL L cfg d w = (Inl e, w') \<Longrightarrow> fs w' (crlPath cfg) = fs w (crlPath cfg)"
  by (rule guarF_untouchedD [of _ "acceptCRL L cfg d"])
    (auto simp: acceptCRL_def keepCRL_def intro!: fail_intros guar_intros)

lemma acceptCRL_root: "acceptCRL L cfg d w = (r, w') \<Longrightarrow> rootIn L cfg (fs w') = rootIn L cfg (fs w)"
  using guar_crl_path(3) [of "caCertPath cfg" cfg L d, THEN untouched_same]
  by (intro rootIn_same) (auto dest: guar_sameD)

interpretation crlCopy: acceptor "acceptCRL L cfg" "crlPath cfg" "crlVersion L cfg" for L cfg
proof
  fix d w e w'
  assume "acceptCRL L cfg d w = (Inl e, w')"
  then show "fs w' (crlPath cfg) = fs w (crlPath cfg)" by (rule acceptCRL_Inl)
next
  fix d w r w'
  assume "acceptCRL L cfg d w = (r, w')"
  then show "crlVersion L cfg (fs w') = crlVersion L cfg (fs w)"
    using acceptCRL_root by (simp add: crlVersion_def fun_eq_iff)
next
  fix d w u w'
  assume "acceptCRL L cfg d w = (Inr u, w')"
  then show "\<exists>n. crlVersion L cfg (fs w) d = Some n
      \<and> (\<forall>b m. fileBytes (fs w) (crlPath cfg) = Some b \<longrightarrow> crlVersion L cfg (fs w) b = Some m \<longrightarrow> m \<le> n)
      \<and> (fileBytes (fs w') (crlPath cfg) = Some d
         \<or> fs w' (crlPath cfg) = fs w (crlPath cfg)
           \<and> (\<exists>b. fileBytes (fs w) (crlPath cfg) = Some b \<and> crlVersion L cfg (fs w) b = Some n))"
    by (rule acceptCRL_Inr) (auto simp: crlVersion_def fileBytes_def)
qed

end
