(* ===== verification/Server.thy ===== *)
theory Server
  imports Crl
begin

text \<open>
  \<^verbatim>\<open>server.go\<close>: the master. The HTTP handlers of the public listener (\<open>bootstrapHandler\<close>: health, the
  root certificate, enrolment) and of the control plane (\<open>controlHandler\<close>: cache, CRL, signing of loopback
  requests) behind the check of the client's identity (\<open>authorizeClient\<close>), the creation of a network
  (\<open>RunBootstrap\<close>) and the start of the master (\<open>RunMaster\<close>, up to the listeners).

  A handler is a program whose failure is the early response. What it must not do is shown per handler:
  which requests change the database, what certificates can come out, and exactly which clients reach the
  control plane.
\<close>

section \<open>HTTP\<close>

record tlsState =
  VerifiedChains :: "certificate list list"
  PeerCertificates :: "certificate list"

record httpRequest =
  Method :: string
  URLPath :: string
  RemoteAddr :: string
  TokenHeader :: string
  Body :: bytes
  TLS :: "tlsState option"

datatype httpResponse =
    Reply nat "(string \<times> string) list" bytes
  | Aborted

fun status :: "httpResponse \<Rightarrow> nat" where
  "status (Reply n _ _) = n"
| "status Aborted = 0"

type_synonym handler = "httpRequest \<Rightarrow> (world, httpResponse, httpResponse) prog"

definition httpError :: "string \<Rightarrow> nat \<Rightarrow> httpResponse" where
  "httpError msg n = Reply n [(''Content-Type'', ''text/plain; charset=utf-8'')] (msg @ [char_of (10 :: nat)])"

definition ok :: "(string \<times> string) list \<Rightarrow> bytes \<Rightarrow> httpResponse" where
  "ok hs b = Reply 200 hs b"

text \<open>Running a handler: the response, early or not.\<close>

definition serve :: "handler \<Rightarrow> httpRequest \<Rightarrow> world \<Rightarrow> httpResponse \<times> world" where
  "serve h r w = (case h r w of (Inl x, w') \<Rightarrow> (x, w') | (Inr x, w') \<Rightarrow> (x, w'))"

text \<open>An operation whose error becomes a response.\<close>

definition orReply :: "httpResponse \<Rightarrow> 'a io \<Rightarrow> (world, httpResponse, 'a) prog" where
  "orReply x m = onErr (\<lambda>_. x) m"

definition requireMethod :: "string \<Rightarrow> httpRequest \<Rightarrow> (world, httpResponse, unit) prog" where
  "requireMethod m r =
     guardE (Method r = m) (Reply 405 [(''Allow'', m), (''Content-Type'', ''text/plain; charset=utf-8'')]
       (''method not allowed'' @ [char_of (10 :: nat)]))"

definition jsonSpace :: "char \<Rightarrow> bool" where
  "jsonSpace c \<longleftrightarrow> c = CHR '' '' \<or> c = CHR 0x09 \<or> c = CHR 0x0A \<or> c = CHR 0x0D"

text \<open>\<^verbatim>\<open>decodeRequest\<close>: the decoder sees at most \<^verbatim>\<open>maxBody\<close> bytes. It reads one value; a body that has no complete
  value within the limit is too large if more was sent and it is not malformed already; anything after the
  value but white space and the end of the body is refused.\<close>

definition decodeRequest :: "lib \<Rightarrow> 'a \<Rightarrow> ((string \<times> json) list \<Rightarrow> 'a option) \<Rightarrow> httpRequest \<Rightarrow> (world, httpResponse, 'a) prog" where
  "decodeRequest L zero dec r =
     (let visible = take maxBody (Body r); more = length (Body r) > maxBody in
      case jsonScan L visible of
        None \<Rightarrow>
          if more \<and> \<not> jsonBroken L visible then throw (httpError ''http: request body too large'' 413)
          else throw (httpError ''invalid JSON'' 400)
      | Some (v, rest) \<Rightarrow>
          (case jsonUnmarshal L zero dec v of
             None \<Rightarrow> throw (httpError ''invalid JSON'' 400)
           | Some x \<Rightarrow>
               if list_all jsonSpace rest \<and> \<not> more then ret x
               else throw (httpError ''expected a single JSON object'' 400)))"

text \<open>\<^verbatim>\<open>http.ServeFile\<close> for a request without conditional headers.\<close>

definition serveFile :: "(string \<times> string) list \<Rightarrow> string \<Rightarrow> (world, httpResponse, httpResponse) prog" where
  "serveFile hs path =
     bnd (attempt (osReadFile path)) (\<lambda>r.
     case r of
       Inr b \<Rightarrow> ret (ok hs b)
     | Inl NotExist \<Rightarrow> ret (httpError ''404 page not found'' 404)
     | Inl _ \<Rightarrow> ret (httpError ''500 Internal Server Error'' 500))"

text \<open>\<^verbatim>\<open>http.ServeMux\<close> with exact patterns: an unclean path is redirected.\<close>

definition cleanPath :: "string \<Rightarrow> string" where
  "cleanPath p0 =
     (if p0 = '''' then ''/''
      else let p = (if hd p0 = CHR ''/'' then p0 else ''/'' @ p0); np = filepathClean p
           in if last p = CHR ''/'' \<and> np \<noteq> ''/'' then np @ ''/'' else np)"

definition mux :: "(string \<times> handler) list \<Rightarrow> handler" where
  "mux routes r =
     (if Method r \<noteq> ''CONNECT'' \<and> cleanPath (URLPath r) \<noteq> URLPath r then
        ret (Reply 301 [(''Location'', cleanPath (URLPath r))] '''')
      else case map_of routes (URLPath r) of
        None \<Rightarrow> ret (httpError ''404 page not found'' 404)
      | Some h \<Rightarrow> h r)"

section \<open>Enrolment\<close>

definition identityPrefix :: string where
  "identityPrefix = ''natssl-client:''"

definition checkEnrollment :: "Config \<Rightarrow> httpRequest \<Rightarrow> bool" where
  "checkEnrollment cfg r \<longleftrightarrow> EnrollmentToken cfg \<noteq> ''REPLACE_ME'' \<and> EnrollmentToken cfg \<noteq> ''''
     \<and> TokenHeader r = EnrollmentToken cfg"

definition certRecord :: "certificate \<Rightarrow> string \<Rightarrow> CertRecord" where
  "certRecord cert certPEM =
     (let serial = bigText16 (SerialNumber cert) in
      \<lparr>ID = serial, crSubject = CommonName (Subject cert),
       SANs = joinWith '','' (DNSNames cert @ ipsToStr (IPAddresses cert)),
       NotBefore = cNotBefore cert, NotAfter = cNotAfter cert, ClientPub = '''', SerialHex = serial,
       CertPEM = certPEM\<rparr>)"

text \<open>The request for an identity: its CSR as text.\<close>

definition csrField :: "(string \<times> json) list \<Rightarrow> string option" where
  "csrField kvs = decField decStr '''' ''csr'' kvs"

definition parseCSR :: "lib \<Rightarrow> string \<Rightarrow> (world, httpResponse, certRequest) prog" where
  "parseCSR L text =
     (case pemDecode L text of
        None \<Rightarrow> throw (httpError ''bad CSR PEM'' 400)
      | Some (ty, b) \<Rightarrow>
          if ty \<noteq> ''CERTIFICATE REQUEST'' then throw (httpError ''bad CSR PEM'' 400)
          else case parseCertificateRequest L b of
            None \<Rightarrow> throw (httpError ''invalid CSR'' 400)
          | Some csr \<Rightarrow>
              if \<not> csrCheckSignature L csr then throw (httpError ''invalid CSR'' 400) else ret csr)"

definition saveIdentity :: "lib \<Rightarrow> string \<Rightarrow> string \<Rightarrow> (world, httpResponse, string) prog" where
  "saveIdentity L st certPEM =
     (case pemDecode L certPEM of
        None \<Rightarrow> throw Aborted
      | Some (_, der) \<Rightarrow>
          bnd (need (httpError ''invalid identity'' 500) (parseCertificate L der)) (\<lambda>cert.
          bnd (orReply (httpError ''cannot save identity'' 500) (AddCert st (certRecord cert certPEM))) (\<lambda>_.
          ret certPEM)))"

definition issueIdentity :: "lib \<Rightarrow> CA \<Rightarrow> string \<Rightarrow> string \<Rightarrow> string \<Rightarrow> (world, httpResponse, string) prog" where
  "issueIdentity L ca st ip csrText =
     bnd (parseCSR L csrText) (\<lambda>csr.
     bnd (orReply (httpError ''cannot issue client identity'' 500) (IssueClientCert L ca csr (identityPrefix @ ip)))
       (saveIdentity L st))"

definition registerReply :: "lib \<Rightarrow> string \<Rightarrow> string \<Rightarrow> httpResponse" where
  "registerReply L ip certPEM =
     ok [(''Content-Type'', ''application/json'')]
       (jsonPrint L (JObj [(''certificate'', JStr certPEM), (''ip'', JStr ip), (''status'', JStr ''ok'')])
         @ [char_of (10 :: nat)])"

definition registerHandler :: "lib \<Rightarrow> Config \<Rightarrow> CA \<Rightarrow> string \<Rightarrow> handler" where
  "registerHandler L cfg ca st r =
     bnd (requireMethod ''POST'' r) (\<lambda>_.
     let ip = host (RemoteAddr r) in
     bnd (orReply (httpError ''database unavailable'' 500) (IsBlocked st ip)) (\<lambda>blocked.
     if blocked \<or> \<not> checkEnrollment cfg r \<or> \<not> ClientAllowed cfg ip then
       bnd (logPrint (''AUDIT enrollment denied ip='' @ ip)) (\<lambda>_.
       throw (httpError ''enrollment denied: token, network or blacklist'' 403))
     else
     bnd (decodeRequest L '''' csrField r) (\<lambda>csrText.
     bnd (if csrText = '''' then ret '''' else issueIdentity L ca st ip csrText) (\<lambda>certPEM.
     bnd (orReply (httpError ''cannot register client'' 500) (registerClient st ip)) (\<lambda>_.
     bnd (orReply (httpError ''cannot rebuild cache'' 500) (RebuildEncryptedCache L cfg ca st)) (\<lambda>_.
     bnd (logPrint (''AUDIT client '' @ ip @ '' enrolled'')) (\<lambda>_.
     ret (registerReply L ip certPEM))))))))"

definition healthHandler :: handler where
  "healthHandler r = bnd (requireMethod ''GET'' r) (\<lambda>_. ret (ok [] ''ok''))"

definition caHandler :: "lib \<Rightarrow> CA \<Rightarrow> handler" where
  "caHandler L ca r = bnd (requireMethod ''GET'' r) (\<lambda>_.
     ret (ok [(''Content-Type'', ''application/x-pem-file'')] (certPEMBytes L ca)))"

definition bootstrapHandler :: "lib \<Rightarrow> Config \<Rightarrow> CA \<Rightarrow> string \<Rightarrow> handler" where
  "bootstrapHandler L cfg ca st =
     mux [(''/health'', healthHandler), (''/ca'', caHandler L ca), (''/acme/register'', registerHandler L cfg ca st)]"

section \<open>The control plane\<close>

definition cacheHandler :: "Config \<Rightarrow> handler" where
  "cacheHandler cfg r = bnd (requireMethod ''GET'' r) (\<lambda>_.
     serveFile [(''Content-Type'', ''application/json'')] (cachePath cfg))"

definition crlHandler :: "lib \<Rightarrow> Config \<Rightarrow> CA \<Rightarrow> string \<Rightarrow> handler" where
  "crlHandler L cfg ca st r = bnd (requireMethod ''GET'' r) (\<lambda>_.
     bnd (orReply (httpError ''cannot refresh CRL'' 500) (refreshCRL L cfg ca st)) (\<lambda>_.
     serveFile [(''Content-Type'', ''application/pkix-crl'')] (crlPath cfg)))"

text \<open>The request for a signature: the CSR and the flag \<^verbatim>\<open>localhost\<close>.\<close>

definition signFields :: "(string \<times> json) list \<Rightarrow> (string \<times> bool) option" where
  "signFields kvs = Option.bind (decField decStr '''' ''csr'' kvs) (\<lambda>c.
     map_option (\<lambda>l. (c, l)) (decField decBool False ''localhost'' kvs))"

definition errText :: "error \<Rightarrow> string" where
  "errText e = (case e of Msg m \<Rightarrow> m | _ \<Rightarrow> '''')"

definition signReply :: "lib \<Rightarrow> string \<Rightarrow> httpResponse" where
  "signReply L certPEM =
     ok [(''Content-Type'', ''application/json'')]
       (jsonPrint L (JObj [(''certificate'', JStr certPEM)]) @ [char_of (10 :: nat)])"

definition issueLoopback :: "lib \<Rightarrow> Config \<Rightarrow> CA \<Rightarrow> string \<Rightarrow> string \<Rightarrow> certRequest \<Rightarrow> (world, httpResponse, httpResponse) prog" where
  "issueLoopback L cfg ca st ip csr =
     bnd (onErr (\<lambda>e. httpError (errText e) 400) (SignCSR L ca csr True)) (\<lambda>res.
     bnd (need Aborted (resCert res)) (\<lambda>cert.
     bnd (orReply (httpError ''cannot save certificate'' 500) (AddCert st (certRecord cert (resCertPEM res)))) (\<lambda>_.
     bnd (orReply (httpError ''cannot rebuild cache'' 500) (RebuildEncryptedCache L cfg ca st)) (\<lambda>_.
     bnd (logPrint (''AUDIT signed loopback CSR ip='' @ ip @ '' serial='' @ bigText16 (SerialNumber cert))) (\<lambda>_.
     ret (signReply L (resCertPEM res)))))))"

definition signHandler :: "lib \<Rightarrow> Config \<Rightarrow> CA \<Rightarrow> string \<Rightarrow> handler" where
  "signHandler L cfg ca st r =
     bnd (requireMethod ''POST'' r) (\<lambda>_.
     bnd (decodeRequest L ([], False) signFields r) (\<lambda>(csrText, localhost).
     bnd (parseCSR L csrText) (\<lambda>csr.
     case enforceLoopbackOnly L csr localhost of
       Some e \<Rightarrow>
         bnd (logPrint (''AUDIT CSR denied ip='' @ host (RemoteAddr r))) (\<lambda>_. throw (httpError (errText e) 403))
     | None \<Rightarrow> issueLoopback L cfg ca st (host (RemoteAddr r)) csr)))"

definition controlRoutes :: "lib \<Rightarrow> Config \<Rightarrow> CA \<Rightarrow> string \<Rightarrow> handler" where
  "controlRoutes L cfg ca st =
     mux [(''/sync/health'', healthHandler), (''/sync/cache'', cacheHandler cfg),
          (''/sync/crl'', crlHandler L cfg ca st), (''/acme/sign-csr'', signHandler L cfg ca st)]"

definition dbUnavailable :: httpResponse where
  "dbUnavailable = httpError ''database unavailable'' 500"

text \<open>What the database says about a client: blocked, its serial revoked, the record of the serial,
  registered.\<close>

definition clientStanding :: "string \<Rightarrow> string \<Rightarrow> string \<Rightarrow>
    (world, httpResponse, bool \<times> bool \<times> CertRecord option \<times> bool) prog" where
  "clientStanding st ip serial =
     bnd (orReply dbUnavailable (IsBlocked st ip)) (\<lambda>blocked.
     bnd (orReply dbUnavailable (IsRevoked st serial)) (\<lambda>revoked.
     bnd (orReply dbUnavailable (CertBySerial st serial)) (\<lambda>rec.
     bnd (orReply dbUnavailable (hasClient st ip)) (\<lambda>registered.
     ret (blocked, revoked, rec, registered)))))"

definition authorizeClient :: "lib \<Rightarrow> string \<Rightarrow> handler \<Rightarrow> handler" where
  "authorizeClient L st next r =
     (case TLS r of
        None \<Rightarrow> throw (httpError ''client identity required'' 403)
      | Some tls \<Rightarrow>
         if VerifiedChains tls = [] \<or> PeerCertificates tls = [] then throw (httpError ''client identity required'' 403)
         else
         let cert = hd (PeerCertificates tls);
             cn = CommonName (Subject cert);
             ip = TrimPrefix cn identityPrefix;
             serial = bigText16 (SerialNumber cert) in
         if ip = cn \<or> ParseIP ip = None then throw (httpError ''enrollment identity required'' 403)
         else
         bnd (clientStanding st ip serial) (\<lambda>(blocked, revoked, rec, registered).
         if blocked \<or> revoked \<or> \<not> registered
            \<or> (case rec of None \<Rightarrow> True
               | Some c \<Rightarrow> crSubject c \<noteq> cn \<or> CertPEM c \<noteq> pemEncode L ''CERTIFICATE'' (Raw cert))
         then throw (httpError ''client is blocked, revoked or not registered'' 403)
         else next r))"

definition controlHandler :: "lib \<Rightarrow> Config \<Rightarrow> CA \<Rightarrow> string \<Rightarrow> handler" where
  "controlHandler L cfg ca st = authorizeClient L st (controlRoutes L cfg ca st)"

section \<open>Starting a network and a master\<close>

text \<open>What bootstrap prints: the fingerprint of the root and the recovery words.\<close>

definition createNetwork :: "lib \<Rightarrow> Config \<Rightarrow> (Config \<times> string \<times> string) io" where
  "createNetwork L cfg =
     bnd (osMkdirAll (DataDir cfg) o700) (\<lambda>_.
     bnd (BootstrapCA L) (\<lambda>ca.
     bnd (SaveToFiles L ca (caCertPath cfg) (caKeyPath cfg)) (\<lambda>_.
     bnd (GenerateRecovery L) (\<lambda>(rk, mnemonic).
     bnd (Save L (cfg\<lparr>Mode := ''master'', RecoveryPublicKey := PublicBase64 L rk\<rparr>)) (\<lambda>cfg.
     bnd (OpenStore (dbPath cfg)) (\<lambda>st.
     bnd (forEach (Clients cfg) (\<lambda>c. bnd (AddClient st c) (\<lambda>_. ret ()))) (\<lambda>_.
     bnd (WriteCRL L cfg ca st) (\<lambda>_.
     bnd (RebuildEncryptedCache L cfg ca st) (\<lambda>_.
     ret (cfg, Fingerprint L ca, mnemonic))))))))))"

definition RunBootstrap :: "lib \<Rightarrow> Config \<Rightarrow> (Config \<times> string \<times> string) io" where
  "RunBootstrap L cfg =
     bnd (osMkdirAll (DataDir cfg) o700) (\<lambda>_.
     withLock (caKeyPath cfg @ ''.bootstrap.lock'') (
     bnd (attempt (osStat (caKeyPath cfg))) (\<lambda>k.
     case k of
       Inr _ \<Rightarrow> throw (Msg ''Root CA key already exists'')
     | Inl e \<Rightarrow>
     if e \<noteq> NotExist then throw e
     else
     bnd (attempt (osStat (caCertPath cfg))) (\<lambda>c.
     case c of
       Inr _ \<Rightarrow> throw (Msg ''Root CA already exists'')
     | Inl _ \<Rightarrow> createNetwork L cfg))))"

text \<open>\<^verbatim>\<open>RunMaster\<close> up to its listeners: the handlers and the chain and key they are served with. The name of the
  host and its addresses come from the system.\<close>

definition RunMaster :: "lib \<Rightarrow> (error + string) \<Rightarrow> (error + string list) \<Rightarrow> Config \<Rightarrow> (handler \<times> handler \<times> bytes list) io" where
  "RunMaster L hostname localIPv4s cfg =
     (if ClientNetworks cfg \<noteq> [] \<and> (EnrollmentToken cfg = '''' \<or> EnrollmentToken cfg = ''REPLACE_ME'') then
        throw (Msg ''enrollment_token is required when client_networks is set'')
      else
      bnd (onErr (Wrap ''no Root CA (run --bootstrap)'') (LoadCA L (caCertPath cfg) (caKeyPath cfg))) (\<lambda>ca.
      bnd (OpenStore (dbPath cfg)) (\<lambda>st.
      bnd (WriteCRL L cfg ca st) (\<lambda>_.
      bnd (RebuildEncryptedCache L cfg ca st) (\<lambda>_.
      let hosts = [''localhost'', host (ACME (Listen cfg)), host (Mgmt (Listen cfg))] @ ServerNames cfg
                  @ (case hostname of Inr n \<Rightarrow> [n] | Inl _ \<Rightarrow> [])
                  @ (case localIPv4s of Inr ips \<Rightarrow> ips | Inl _ \<Rightarrow> []) in
      bnd (IssueServerCert L ca hosts) (\<lambda>(chain, key).
      bnd (need (Msg ''tls: key pair'') (x509KeyPair L chain key)) (\<lambda>pair.
      ret (bootstrapHandler L cfg ca st, controlHandler L cfg ca st, pair))))))))"

section \<open>What the handlers leave alone\<close>

lemma guar_case_response [guar_intros]:
  "(\<And>e. x = NotExist \<Longrightarrow> guar R a) \<Longrightarrow> guar R b \<Longrightarrow> guar R (case x of NotExist \<Rightarrow> a | _ \<Rightarrow> b)"
  by (cases x) auto

lemma guar_orReply [guar_intros]: "guar R m \<Longrightarrow> guar R (orReply x m)"
  by (simp add: orReply_def guar_onErr)

lemma guar_http [guar_intros]:
  assumes "quiet R"
  shows "guar R (requireMethod m r)" "guar R (decodeRequest L zero dec r)" "guar R (serveFile hs path)"
    "guar R (parseCSR L text)" "guar R (healthHandler r)" "guar R (caHandler L ca r)" "guar R (cacheHandler cfg r)"
  using assms
  by (auto simp: requireMethod_def decodeRequest_def serveFile_def parseCSR_def healthHandler_def caHandler_def
      cacheHandler_def Let_def intro!: guar_intros)

lemma guar_mux:
  assumes "quiet R" "\<And>p h. (p, h) \<in> set routes \<Longrightarrow> guar R (h r)"
  shows "guar R (mux routes r)"
proof (cases "map_of routes (URLPath r)")
  case None
  with assms(1) show ?thesis by (auto simp: mux_def intro!: guar_intros)
next
  case (Some h)
  then have "guar R (h r)" using assms(2) by (auto dest: map_of_SomeD)
  with Some assms(1) show ?thesis by (auto simp: mux_def intro!: guar_intros)
qed

lemma certRecord_fields [simp]:
  "ID (certRecord c p) = bigText16 (SerialNumber c)" "SerialHex (certRecord c p) = bigText16 (SerialNumber c)"
  "crSubject (certRecord c p) = CommonName (Subject c)" "CertPEM (certRecord c p) = p"
  by (simp_all add: certRecord_def Let_def)

text \<open>The operations a handler uses, collected: a relation they all keep is kept by the handlers.\<close>

definition masterRel :: "lib \<Rightarrow> Config \<Rightarrow> CA \<Rightarrow> string \<Rightarrow> (world \<Rightarrow> world \<Rightarrow> bool) \<Rightarrow> bool" where
  "masterRel L cfg ca st R \<longleftrightarrow> fileBlind R \<and> (\<forall>rec. SerialHex rec = ID rec \<longrightarrow> guar R (AddCert st rec))
     \<and> (\<forall>ip. guar R (registerClient st ip))
     \<and> guar R (RebuildEncryptedCache L cfg ca st) \<and> guar R (refreshCRL L cfg ca st)"

lemma guar_clientStanding [guar_intros]: "quiet R \<Longrightarrow> guar R (clientStanding st ip serial)"
  unfolding clientStanding_def by (auto intro!: guar_intros)

lemma guar_authorizeClient:
  assumes "quiet R" "guar R (next r)"
  shows "guar R (authorizeClient L st next r)"
  using assms unfolding authorizeClient_def Let_def by (auto intro!: guar_intros)

lemma guar_handlers:
  assumes "masterRel L cfg ca st R"
  shows "guar R (registerHandler L cfg ca st r)" "guar R (signHandler L cfg ca st r)" "guar R (crlHandler L cfg ca st r)"
    "guar R (bootstrapHandler L cfg ca st r)" "guar R (controlHandler L cfg ca st r)"
proof -
  have R: "fileBlind R" "quiet R" "preord R" "\<And>c p. guar R (AddCert st (certRecord c p))" "\<And>ip. guar R (registerClient st ip)"
    "guar R (RebuildEncryptedCache L cfg ca st)" "guar R (refreshCRL L cfg ca st)"
    using assms by (auto simp: masterRel_def)
  show reg: "guar R (registerHandler L cfg ca st r)"
    unfolding registerHandler_def issueIdentity_def saveIdentity_def Let_def using R by (auto intro!: guar_intros)
  show sign: "guar R (signHandler L cfg ca st r)" unfolding signHandler_def issueLoopback_def using R by (auto intro!: guar_intros)
  show crl: "guar R (crlHandler L cfg ca st r)" unfolding crlHandler_def using R by (auto intro!: guar_intros)
  show "guar R (bootstrapHandler L cfg ca st r)"
    unfolding bootstrapHandler_def using R reg by (auto intro!: guar_mux guar_intros)
  show "guar R (controlHandler L cfg ca st r)"
    unfolding controlHandler_def controlRoutes_def using R sign crl
    by (auto intro!: guar_authorizeClient guar_mux guar_intros)
qed

lemma masterRel_grows: "masterRel L cfg ca st (storeRel grows)"
  by (auto simp: masterRel_def intro!: rel_intros)

lemma masterRel_wf: "masterRel L cfg ca st (keepsP (dbInv wf_store))"
  by (auto simp: masterRel_def intro!: inv_intros)

lemma masterRel_seqOk: "masterRel L cfg ca st (keepsP (dbInv seqOk))"
  by (auto simp: masterRel_def intro!: inv_intros)

text \<open>Every certificate row is filed under its serial. All writers of the table keep this, because they take
  identifier and serial from the same certificate (\<open>certRecord\<close>).\<close>

definition serialKeyed :: "store \<Rightarrow> bool" where
  "serialKeyed s \<longleftrightarrow> (\<forall>c \<in> set (certsTab s). SerialHex c = ID c)"

lemma serialKeyed_upsert: "serialKeyed s \<Longrightarrow> SerialHex rec = ID rec \<Longrightarrow> serialKeyed (sqlUpsertCert rec s)"
  by (auto simp: serialKeyed_def sqlUpsertCert_def upsert_def)

lemma serialKeyed_frames [simp]:
  "serialKeyed (stateUpdate k f s) = serialKeyed s" "serialKeyed (stateUpsert k f v s) = serialKeyed s"
  "serialKeyed (sqlInsertClient ip t s) = serialKeyed s" "serialKeyed (sqlDeleteClient ip s) = serialKeyed s"
  "serialKeyed (sqlInsertRevoked x y r t s) = serialKeyed s" "serialKeyed (sqlUpsertBlock ip why t s) = serialKeyed s"
  "serialKeyed (sqlDeleteBlock ip s) = serialKeyed s" "serialKeyed (sqlRevokeOthers x y r t s) = serialKeyed s"
  "serialKeyed (sqlMigrate s) = serialKeyed s" "serialKeyed emptyStore"
  by (simp_all add: serialKeyed_def) (simp_all add: sql_defs emptyStore_def)

lemma guar_methods_serialKeyed [inv_intros]:
  "guar (keepsP (dbInv serialKeyed)) (RemoveClient st ip)" "guar (keepsP (dbInv serialKeyed)) (registerClient st ip)"
  "guar (keepsP (dbInv serialKeyed)) (RevokeCert L st x y r)" "guar (keepsP (dbInv serialKeyed)) (BlockIP st ip why)"
  "guar (keepsP (dbInv serialKeyed)) (UnblockIP st ip)" "guar (keepsP (dbInv serialKeyed)) (nextCacheSequence st)"
  "guar (keepsP (dbInv serialKeyed)) (nextCRLNumber st n)" "guar (keepsP (dbInv serialKeyed)) (BuildSnapshot L st ca)"
  "guar (keepsP (dbInv serialKeyed)) (AddClient st ip)"
  "SerialHex rec = ID rec \<Longrightarrow> guar (keepsP (dbInv serialKeyed)) (AddCert st rec)"
  "SerialHex rec = ID rec \<Longrightarrow> guar (keepsP (dbInv serialKeyed)) (replaceCertificate st rec)"
  by (auto simp: write_method_defs BuildSnapshot_def replaceCertificate_def Let_def serialKeyed_upsert
      intro!: guar_intros inv_intros)

lemma guar_publish_serialKeyed [inv_intros]:
  "guar (keepsP (dbInv serialKeyed)) (RebuildEncryptedCache L cfg ca st)"
  "guar (keepsP (dbInv serialKeyed)) (WriteCRL L cfg ca st)" "guar (keepsP (dbInv serialKeyed)) (refreshCRL L cfg ca st)"
proof -
  show "guar (keepsP (dbInv serialKeyed)) (RebuildEncryptedCache L cfg ca st)"
    by (rule guar_RebuildEncryptedCache) (auto simp: sqlExec_def intro!: inv_intros)
  show "guar (keepsP (dbInv serialKeyed)) (WriteCRL L cfg ca st)" by (rule guar_WriteCRL) (auto intro!: inv_intros)
  show "guar (keepsP (dbInv serialKeyed)) (refreshCRL L cfg ca st)" by (rule guar_refreshCRL) (auto intro!: inv_intros)
qed

lemma guar_OpenStore_serialKeyed [inv_intros]: "guar (keepsP (dbInv serialKeyed)) (OpenStore h)"
proof -
  have m: "guar (keepsP (dbInv serialKeyed)) (modify (\<lambda>w. w\<lparr>dbs := (dbs w)(h \<mapsto>
       sqlMigrate (case dbs w h of None \<Rightarrow> emptyStore | Some s \<Rightarrow> s))\<rparr>))"
    by (auto simp: guar_def keepsP_def dbInv_def split: option.splits)
  show ?thesis unfolding OpenStore_def by (auto intro!: guar_intros m)
qed

lemma masterRel_serialKeyed: "masterRel L cfg ca st (keepsP (dbInv serialKeyed))"
  by (auto simp: masterRel_def intro!: inv_intros)

section \<open>Who reaches the control plane\<close>

lemma sqlQuery_noFaults:
  assumes "noFaults w" "dbs w st = Some s"
  shows "sqlQuery st f w = (Inr (f s), w\<lparr>step := Suc (step w)\<rparr>)"
proof -
  have "(dbs w)(st \<mapsto> s) = dbs w" using assms(2) by (rule fun_upd_idem)
  then show ?thesis using assms by (simp add: sqlQuery_def sqlRun_def mayFail_def tick_def run_guardE noFaults_def bnd_def)
qed

lemma TrimPrefix_id: "TrimPrefix s p = s \<longleftrightarrow> \<not> startsWith p s \<or> p = []"
  by (auto simp: TrimPrefix_def startsWith_iff)

lemma orReply_Inr [simp]: "orReply x m w = (Inr y, w') \<longleftrightarrow> m w = (Inr y, w')"
  by (simp add: orReply_def)

lemma orReply_Inl: "orReply x m w = (Inl y, w') \<longleftrightarrow> y = x \<and> (\<exists>e. m w = (Inl e, w'))"
  by (auto simp: orReply_def onErr_def split: prod.splits sum.splits)

lemma clientStanding_Inr:
  assumes "clientStanding st ip serial w = (Inr (blocked, revoked, rec, registered), w')" "dbs w st = Some s"
  shows "blocked = (TrimSpace ip \<in> blockedKeys s)" "revoked = (serial \<in> revokedKeys s)"
    "rec = find (\<lambda>c. SerialHex c = serial) (certsTab s)" "registered = (ip \<in> clientKeys s)"
proof -
  from assms(1) obtain w1 w2 w3 where r: "IsBlocked st ip w = (Inr blocked, w1)" "IsRevoked st serial w1 = (Inr revoked, w2)"
    "CertBySerial st serial w2 = (Inr rec, w3)" "hasClient st ip w3 = (Inr registered, w')"
    by (auto simp: clientStanding_def)
  note 1 = read_Inr(1) [OF assms(2) r(1)]
  then have db1: "dbs w1 st = Some s" using assms(2) by simp
  note 2 = read_Inr(2) [OF db1 r(2)]
  then have db2: "dbs w2 st = Some s" using db1 by simp
  note 3 = read_Inr(4) [OF db2 r(3)]
  then have db3: "dbs w3 st = Some s" using db2 by simp
  show "blocked = (TrimSpace ip \<in> blockedKeys s)" "revoked = (serial \<in> revokedKeys s)"
    "rec = find (\<lambda>c. SerialHex c = serial) (certsTab s)" "registered = (ip \<in> clientKeys s)"
    using 1 2 3 read_Inr(3) [OF db3 r(4)] by simp_all
qed

lemma clientStanding_Inl: "clientStanding st ip serial w = (Inl x, w') \<Longrightarrow> x = dbUnavailable"
  by (auto simp: clientStanding_def orReply_Inl elim!: bnd_InlE)

lemma clientStanding_noFaults:
  assumes "noFaults w" "dbs w st = Some s"
  shows "\<exists>v. clientStanding st ip serial w = (Inr v, w\<lparr>step := step w + 4\<rparr>)"
proof -
  have 1: "noFaults (w\<lparr>step := n\<rparr>)" "dbs (w\<lparr>step := n\<rparr>) st = Some s" for n
    using assms by (simp_all add: noFaults_def)
  show ?thesis
    unfolding clientStanding_def read_method_defs orReply_def
    by (simp add: onErr_def bnd_def sqlQuery_noFaults [OF assms] sqlQuery_noFaults [OF 1])
qed

text \<open>The client certificate of a request, with the address it names.\<close>

definition presentedIdentity :: "httpRequest \<Rightarrow> (certificate \<times> string) option" where
  "presentedIdentity r =
     (case TLS r of
        None \<Rightarrow> None
      | Some tls \<Rightarrow>
          if VerifiedChains tls = [] \<or> PeerCertificates tls = [] then None
          else let cert = hd (PeerCertificates tls); cn = CommonName (Subject cert); ip = TrimPrefix cn identityPrefix
               in if ip = cn \<or> ParseIP ip = None then None else Some (cert, ip))"

definition goodStanding :: "lib \<Rightarrow> certificate \<Rightarrow> bool \<times> bool \<times> CertRecord option \<times> bool \<Rightarrow> bool" where
  "goodStanding L cert v \<longleftrightarrow> (case v of (blocked, revoked, rec, registered) \<Rightarrow>
     \<not> blocked \<and> \<not> revoked \<and> registered \<and> (\<exists>c. rec = Some c \<and> crSubject c = CommonName (Subject cert)
       \<and> CertPEM c = pemEncode L ''CERTIFICATE'' (Raw cert)))"

lemma authorizeClient_alt:
  "authorizeClient L st next r =
     (case presentedIdentity r of
        None \<Rightarrow> throw (httpError (if (\<exists>tls. TLS r = Some tls \<and> VerifiedChains tls \<noteq> [] \<and> PeerCertificates tls \<noteq> [])
                  then ''enrollment identity required'' else ''client identity required'') 403)
      | Some (cert, ip) \<Rightarrow> bnd (clientStanding st ip (bigText16 (SerialNumber cert))) (\<lambda>v.
          if goodStanding L cert v then next r
          else throw (httpError ''client is blocked, revoked or not registered'' 403)))"
proof -
  have "(\<lambda>(blocked, revoked, rec, registered). if blocked \<or> revoked \<or> \<not> registered
            \<or> (case rec of None \<Rightarrow> True
               | Some c \<Rightarrow> crSubject c \<noteq> CommonName (Subject cert) \<or> CertPEM c \<noteq> pemEncode L ''CERTIFICATE'' (Raw cert))
         then throw (httpError ''client is blocked, revoked or not registered'' 403) else next r)
      = (\<lambda>v. if goodStanding L cert v then next r
          else throw (httpError ''client is blocked, revoked or not registered'' 403))" for cert
    by (auto simp: goodStanding_def fun_eq_iff split: option.splits)
  then show ?thesis by (auto simp: authorizeClient_def presentedIdentity_def Let_def split: option.splits)
qed

lemma presentedIdentity_name: "presentedIdentity r = Some (cert, ip) \<Longrightarrow> CommonName (Subject cert) = identityPrefix @ ip"
  by (auto simp: presentedIdentity_def Let_def TrimPrefix_id startsWith_iff split: option.splits if_splits)

text \<open>The clients the control plane is for: a verified certificate, recorded byte for byte under its serial with its
  subject, which names an enrolled address that is not blocked, and whose serial is not revoked.\<close>

definition authorized :: "lib \<Rightarrow> store \<Rightarrow> httpRequest \<Rightarrow> bool" where
  "authorized L s r \<longleftrightarrow> (\<exists>cert ip. presentedIdentity r = Some (cert, ip)
     \<and> ip \<in> clientKeys s \<and> TrimSpace ip \<notin> blockedKeys s \<and> bigText16 (SerialNumber cert) \<notin> revokedKeys s
     \<and> (\<exists>c. find (\<lambda>c. SerialHex c = bigText16 (SerialNumber cert)) (certsTab s) = Some c
          \<and> crSubject c = CommonName (Subject cert) \<and> CertPEM c = pemEncode L ''CERTIFICATE'' (Raw cert)))"

lemma authorizeClient_cases:
  assumes db: "dbs w st = Some s" and run: "authorizeClient L st next r w = (res, w')"
  obtains (refused) x where "res = Inl x" "status x = 403 \<or> status x = 500" "dbs w' = dbs w" "fs w' = fs w"
    | (passed) w1 where "authorized L s r" "dbs w1 = dbs w" "fs w1 = fs w" "next r w1 = (res, w')"
proof (cases "presentedIdentity r")
  case None
  with run refused show thesis by (auto simp: authorizeClient_alt httpError_def)
next
  case (Some ci)
  obtain cert ip where ci: "ci = (cert, ip)" by (cases ci)
  obtain res1 w1 where st: "clientStanding st ip (bigText16 (SerialNumber cert)) w = (res1, w1)"
    by (cases "clientStanding st ip (bigText16 (SerialNumber cert)) w")
  have same: "dbs w1 = dbs w" "fs w1 = fs w"
    using guar_sameD [OF guar_clientStanding, of dbs, OF _ st] guar_sameD [OF guar_clientStanding, of fs, OF _ st]
    by simp_all
  show thesis
  proof (cases res1)
    case (Inl x)
    with Some ci st run have "res = Inl dbUnavailable" "w' = w1"
      by (auto simp: authorizeClient_alt dest: clientStanding_Inl)
    with same refused show thesis by (simp add: dbUnavailable_def httpError_def)
  next
    case (Inr v)
    obtain b rv rec reg where v: "v = (b, rv, rec, reg)" by (cases v)
    note facts = clientStanding_Inr [OF st [unfolded Inr v] db]
    show thesis
    proof (cases "goodStanding L cert v")
      case True
      with facts Some ci v have "authorized L s r" by (auto simp: authorized_def goodStanding_def)
      moreover have "next r w1 = (res, w')" using Some ci st run Inr True by (simp add: authorizeClient_alt)
      ultimately show thesis using same passed by blast
    next
      case False
      with Some ci st run Inr have "res = Inl (httpError ''client is blocked, revoked or not registered'' 403)" "w' = w1"
        by (auto simp: authorizeClient_alt)
      with same refused show thesis by (simp add: httpError_def)
    qed
  qed
qed

lemma authorizeClient_passes:
  assumes "noFaults w" "dbs w st = Some s" "authorized L s r"
  shows "authorizeClient L st next r w = next r (w\<lparr>step := step w + 4\<rparr>)"
proof -
  from assms(3) obtain cert ip where ci: "presentedIdentity r = Some (cert, ip)" by (auto simp: authorized_def)
  from clientStanding_noFaults [OF assms(1,2)] obtain v where
    v: "clientStanding st ip (bigText16 (SerialNumber cert)) w = (Inr v, w\<lparr>step := step w + 4\<rparr>)" by blast
  obtain b rv rec reg where v': "v = (b, rv, rec, reg)" by (cases v)
  have "goodStanding L cert v"
    using assms(3) ci clientStanding_Inr [OF v [unfolded v'] assms(2)] v' by (auto simp: authorized_def goodStanding_def)
  with ci v show ?thesis by (simp add: authorizeClient_alt)
qed

section \<open>What the handlers may add\<close>

text \<open>\<open>mayAdd P C\<close>: certificates recorded since satisfy \<open>P\<close>, clients registered since are in \<open>C\<close>, and nothing
  was revoked, blocked or unblocked.\<close>

definition mayAdd :: "(CertRecord \<Rightarrow> bool) \<Rightarrow> string set \<Rightarrow> store \<Rightarrow> store \<Rightarrow> bool" where
  "mayAdd P C s s' \<longleftrightarrow> (\<forall>c \<in> set (certsTab s'). c \<in> set (certsTab s) \<or> P c)
     \<and> clientKeys s \<subseteq> clientKeys s' \<and> clientKeys s' \<subseteq> clientKeys s \<union> C
     \<and> revokedTab s' = revokedTab s \<and> blacklistTab s' = blacklistTab s"

lemma preord_mayAdd [simp]: "preord (mayAdd P C)"
  by (auto simp: preord_def reflp_def transp_def mayAdd_def)

lemma storeRel_mono: "storeRel Q w w' \<Longrightarrow> (\<And>s s'. Q s s' \<Longrightarrow> Q' s s') \<Longrightarrow> storeRel Q' w w'"
  unfolding storeRel_def by blast

lemma sameTables_mayAdd: "sameTables s s' \<Longrightarrow> mayAdd P C s s'"
  by (simp add: mayAdd_def sameTablesD)

lemma guar_sameTables_mayAdd: "guar (storeRel sameTables) m \<Longrightarrow> guar (storeRel (mayAdd P C)) m"
  by (erule guar_mono) (erule storeRel_mono, erule sameTables_mayAdd)

lemmas guar_publish_mayAdd = guar_Rebuild_sameTables [THEN guar_sameTables_mayAdd]
  guar_crl_sameTables [THEN guar_sameTables_mayAdd]

lemma guar_AddCert_mayAdd: "P rec \<Longrightarrow> guar (storeRel (mayAdd P C)) (AddCert st rec)"
  unfolding AddCert_def sqlExec_def
  by (rule guar_sqlRun_rel) (auto simp: mayAdd_def sqlUpsertCert_def upsert_def clientKeys_def)

lemma guar_registerClient_mayAdd: "ip \<in> C \<Longrightarrow> guar (storeRel (mayAdd P C)) (registerClient st ip)"
  unfolding registerClient_def
  by (auto intro!: guar_intros guar_sqlRun_rel simp: mayAdd_def) (auto simp: sqlInsertClient_def)

text \<open>An enrolment records identities of the caller's address only.\<close>

definition identityRecord :: "string \<Rightarrow> CertRecord \<Rightarrow> bool" where
  "identityRecord ip c \<longleftrightarrow> (\<exists>cert. c = certRecord cert (CertPEM c) \<and> CommonName (Subject cert) = identityPrefix @ ip
     \<and> \<not> IsCA cert \<and> ExtKeyUsage cert = [ClientAuth] \<and> DNSNames cert = [] \<and> IPAddresses cert = [])"

lemma guar_issueIdentity:
  assumes "x509Ok L" "pemOk L" and R: "quiet R" "\<And>rec. identityRecord ip rec \<Longrightarrow> guar R (AddCert st rec)"
  shows "guar R (issueIdentity L ca st ip csrText)"
proof -
  have k: "guar R (bnd (orReply (httpError m n) (IssueClientCert L ca csr (identityPrefix @ ip))) (saveIdentity L st))" for csr m n
  proof (rule guar_bnd_result)
    fix pem w w'
    assume "orReply (httpError m n) (IssueClientCert L ca csr (identityPrefix @ ip)) w = (Inr pem, w')"
    then have "IssueClientCert L ca csr (identityPrefix @ ip) w = (Inr pem, w')" by simp
    from this assms(1) obtain c where c: "pem = pemEncode L ''CERTIFICATE'' (Raw c)" "parseCertificate L (Raw c) = Some c"
      "CommonName (Subject c) = identityPrefix @ ip" "\<not> IsCA c" "ExtKeyUsage c = [ClientAuth]"
      "DNSNames c = []" "IPAddresses c = []" by (rule IssueClientCert_shape) blast
    then have "identityRecord ip (certRecord c pem)" by (auto simp: identityRecord_def)
    then have "guar R (AddCert st (certRecord c pem))" by (rule R(2))
    then show "guar R (saveIdentity L st pem)"
      using assms(2) R(1) by (auto simp: saveIdentity_def c(1,2) pemOk_def intro!: guar_intros)
  qed (use R(1) in \<open>auto intro!: guar_intros\<close>)
  have p: "guar R (parseCSR L csrText)" using R(1) by (auto intro!: guar_intros)
  show ?thesis unfolding issueIdentity_def by (rule guar_bnd) (simp_all add: k p R(1))
qed

lemma guar_registers:
  assumes "x509Ok L" "pemOk L" "quiet R" "\<And>rec. identityRecord (host (RemoteAddr r)) rec \<Longrightarrow> guar R (AddCert st rec)"
    "guar R (registerClient st (host (RemoteAddr r)))" "guar R (RebuildEncryptedCache L cfg ca st)"
  shows "guar R (registerHandler L cfg ca st r)"
  unfolding registerHandler_def Let_def using assms by (auto intro!: guar_intros guar_issueIdentity)

lemma guar_register_mayAdd:
  assumes "x509Ok L" "pemOk L"
  shows "guar (storeRel (mayAdd (identityRecord (host (RemoteAddr r))) {host (RemoteAddr r)})) (registerHandler L cfg ca st r)"
  by (rule guar_registers [OF assms]) (auto intro!: guar_AddCert_mayAdd guar_registerClient_mayAdd guar_publish_mayAdd)

text \<open>The control plane records loopback certificates only.\<close>

definition loopbackRecord :: "lib \<Rightarrow> CertRecord \<Rightarrow> bool" where
  "loopbackRecord L c \<longleftrightarrow> (\<exists>cert. c = certRecord cert (CertPEM c) \<and> loopbackCert L cert)"

lemma guar_issueLoopback:
  assumes "x509Ok L" "pemOk L" and R: "quiet R" "\<And>rec. loopbackRecord L rec \<Longrightarrow> guar R (AddCert st rec)"
    "guar R (RebuildEncryptedCache L cfg ca st)"
  shows "guar R (issueLoopback L cfg ca st ip csr)"
  unfolding issueLoopback_def
proof (rule guar_bnd_result)
  fix res w w'
  assume "onErr (\<lambda>e. httpError (errText e) 400) (SignCSR L ca csr True) w = (Inr res, w')"
  then have "SignCSR L ca csr True w = (Inr res, w')" by simp
  from this assms(1,2) obtain c where c: "resCert res = Some c" "loopbackCert L c" by (rule SignCSR_loopback)
  then have "loopbackRecord L (certRecord c (resCertPEM res))" by (auto simp: loopbackRecord_def)
  then show "guar R (bnd (need Aborted (resCert res)) (\<lambda>cert.
     bnd (orReply (httpError ''cannot save certificate'' 500) (AddCert st (certRecord cert (resCertPEM res)))) (\<lambda>_.
     bnd (orReply (httpError ''cannot rebuild cache'' 500) (RebuildEncryptedCache L cfg ca st)) (\<lambda>_.
     bnd (logPrint (''AUDIT signed loopback CSR ip='' @ ip @ '' serial='' @ bigText16 (SerialNumber cert))) (\<lambda>_.
     ret (signReply L (resCertPEM res)))))))"
    using c(1) R by (auto intro!: guar_intros)
qed (use R(1) in \<open>auto intro!: guar_intros\<close>)

lemma guar_controls:
  assumes "x509Ok L" "pemOk L" "quiet R" "\<And>rec. loopbackRecord L rec \<Longrightarrow> guar R (AddCert st rec)"
    "guar R (RebuildEncryptedCache L cfg ca st)" "guar R (refreshCRL L cfg ca st)"
  shows "guar R (controlHandler L cfg ca st r)"
proof -
  have "guar R (signHandler L cfg ca st r)" "guar R (crlHandler L cfg ca st r)"
    unfolding signHandler_def crlHandler_def using assms by (auto intro!: guar_intros guar_issueLoopback)
  then show ?thesis
    unfolding controlHandler_def controlRoutes_def using assms(3) by (auto intro!: guar_authorizeClient guar_mux guar_intros)
qed

lemma guar_control_mayAdd:
  assumes "x509Ok L" "pemOk L"
  shows "guar (storeRel (mayAdd (loopbackRecord L) {})) (controlHandler L cfg ca st r)"
  by (rule guar_controls [OF assms]) (auto intro!: guar_AddCert_mayAdd guar_publish_mayAdd)


text \<open>A client that is not authorized never reaches the handler: the response does not depend on it.\<close>

lemma authorizeClient_refused:
  assumes db: "dbs w st = Some s" and no: "\<not> authorized L s r"
  obtains x w' where "\<forall>next. authorizeClient L st next r w = (Inl x, w')" "status x = 403 \<or> status x = 500"
    "dbs w' = dbs w" "fs w' = fs w"
proof -
  define stop :: handler where "stop = (\<lambda>_. throw Aborted)"
  obtain res w' where run: "authorizeClient L st stop r w = (res, w')" by (cases "authorizeClient L st stop r w")
  have indep: "authorizeClient L st next r w = authorizeClient L st stop r w" for "next"
  proof (cases "presentedIdentity r")
    case (Some ci)
    obtain cert ip where ci: "ci = (cert, ip)" by (cases ci)
    obtain res1 w1 where cs: "clientStanding st ip (bigText16 (SerialNumber cert)) w = (res1, w1)"
      by (cases "clientStanding st ip (bigText16 (SerialNumber cert)) w")
    have "\<not> goodStanding L cert v" if "res1 = Inr v" for v
    proof -
      obtain b rv rec reg where v: "v = (b, rv, rec, reg)" by (cases v)
      from clientStanding_Inr [OF cs [unfolded that v] db] no Some ci v show ?thesis
        by (auto simp: authorized_def goodStanding_def)
    qed
    with Some ci cs show ?thesis by (cases res1) (simp_all add: authorizeClient_alt)
  qed (simp add: authorizeClient_alt)
  from db run show thesis
  proof (cases rule: authorizeClient_cases)
    case (refused x)
    with run indep that [of x w'] show thesis by simp
  next
    case (passed w1)
    with no show thesis by simp
  qed
qed


section \<open>Enrolment: outcomes\<close>

text \<open>The request has the enrolment token, and there is one.\<close>

definition hasToken :: "Config \<Rightarrow> httpRequest \<Rightarrow> bool" where
  "hasToken cfg r \<longleftrightarrow> TokenHeader r = EnrollmentToken cfg \<and> EnrollmentToken cfg \<notin> {[], ''REPLACE_ME''}"

lemma checkEnrollment_token: "checkEnrollment cfg r \<longleftrightarrow> hasToken cfg r"
  by (auto simp: checkEnrollment_def hasToken_def)

text \<open>The requests enrolment is for.\<close>

definition mayEnrol :: "Config \<Rightarrow> store \<Rightarrow> httpRequest \<Rightarrow> bool" where
  "mayEnrol cfg s r \<longleftrightarrow> Method r = ''POST'' \<and> TrimSpace (host (RemoteAddr r)) \<notin> blockedKeys s
     \<and> hasToken cfg r \<and> ClientAllowed cfg (host (RemoteAddr r))"

lemma requireMethod_Inr [simp]: "requireMethod m r w = (Inr u, w') \<longleftrightarrow> Method r = m \<and> w' = w"
  by (auto simp: requireMethod_def)

lemma requireMethod_Inl: "requireMethod m r w = (Inl x, w') \<Longrightarrow> status x = 405 \<and> Method r \<noteq> m \<and> w' = w"
  by (auto simp: requireMethod_def run_guardE split: if_splits)

lemma requireMethod_eq:
  "requireMethod m r = (if Method r = m then ret ()
     else throw (Reply 405 [(''Allow'', m), (''Content-Type'', ''text/plain; charset=utf-8'')]
       (''method not allowed'' @ [char_of (10 :: nat)])))"
  by (simp add: requireMethod_def guardE_def)

lemma IsBlocked_quiet: "IsBlocked st ip w = (x, w') \<Longrightarrow> dbs w' = dbs w \<and> fs w' = fs w"
  by (rule conjI; erule guar_sameD [rotated]; rule guar_read_methods; simp)

lemma registerHandler_refused:
  assumes db: "dbs w st = Some s" and no: "\<not> mayEnrol cfg s r"
  obtains x w' where "registerHandler L cfg ca st r w = (Inl x, w')" "status x \<in> {403, 405, 500}"
    "dbs w' = dbs w" "fs w' = fs w"
proof (cases "Method r = ''POST''")
  case False
  then show thesis by (auto simp: registerHandler_def requireMethod_eq intro: that)
next
  case True
  let ?ip = "host (RemoteAddr r)"
  obtain b w1 where b: "IsBlocked st ?ip w = (b, w1)" by (cases "IsBlocked st ?ip w")
  note same = IsBlocked_quiet [OF b]
  show thesis
  proof (cases b)
    case (Inl e)
    have "orReply (httpError ''database unavailable'' 500) (IsBlocked st ?ip) w = (Inl (httpError ''database unavailable'' 500), w1)"
      using b Inl by (simp add: orReply_Inl)
    then show thesis
      using True same by (intro that [of "httpError ''database unavailable'' 500" w1])
        (simp_all add: registerHandler_def requireMethod_eq Let_def httpError_def)
  next
    case (Inr blocked)
    with read_Inr(1) [OF db] b no True
    have deny: "blocked \<or> \<not> checkEnrollment cfg r \<or> \<not> ClientAllowed cfg ?ip" by (auto simp: mayEnrol_def checkEnrollment_token)
    have "orReply (httpError ''database unavailable'' 500) (IsBlocked st ?ip) w = (Inr blocked, w1)"
      using b Inr by simp
    then show thesis
      using True same deny
      by (intro that [of "httpError ''enrollment denied: token, network or blacklist'' 403"
            "w1\<lparr>logs := logs w1 @ [''AUDIT enrollment denied ip='' @ ?ip]\<rparr>"])
        (simp_all add: registerHandler_def requireMethod_eq Let_def httpError_def logPrint_def)
  qed
qed



lemma find_upserted:
  assumes "serialKeyed s" "SerialHex rec = ID rec"
  shows "find (\<lambda>c. SerialHex c = ID rec) (certsTab (sqlUpsertCert rec s)) = Some rec"
proof -
  have upd: "find (\<lambda>c. SerialHex c = ID rec) (map (\<lambda>x. if ID x = ID rec then rec else x) rs) = Some rec"
    if "ID rec \<in> ID ` set rs" "\<forall>c \<in> set rs. SerialHex c = ID c" for rs
    using that assms(2) by (induction rs) auto
  have new: "find (\<lambda>c. SerialHex c = ID rec) (rs @ [rec]) = Some rec"
    if "ID rec \<notin> ID ` set rs" "\<forall>c \<in> set rs. SerialHex c = ID c" for rs
    using that assms(2) by (induction rs) auto
  from assms(1) upd [of "certsTab s"] new [of "certsTab s"] show ?thesis
    by (auto simp: sqlUpsertCert_def upsert_def serialKeyed_def)
qed

lemma issueIdentity_Inr:
  assumes "issueIdentity L ca st ip csrText w = (Inr pem, w')" "x509Ok L" "pemOk L" "dbs w st = Some s"
  obtains cert where "pem = pemEncode L ''CERTIFICATE'' (Raw cert)" "parseCertificate L (Raw cert) = Some cert"
    "CommonName (Subject cert) = identityPrefix @ ip" "ExtKeyUsage cert = [ClientAuth]" "\<not> IsCA cert"
    "dbs w' st = Some (sqlUpsertCert (certRecord cert pem) s)"
proof -
  from assms(1) obtain csr w1 w2 where p: "parseCSR L csrText w = (Inr csr, w1)"
    and i: "IssueClientCert L ca csr (identityPrefix @ ip) w1 = (Inr pem, w2)" and sv: "saveIdentity L st pem w2 = (Inr pem, w')"
    by (auto simp: issueIdentity_def saveIdentity_def split: option.splits)
  from i assms(2) obtain c where c: "pem = pemEncode L ''CERTIFICATE'' (Raw c)" "parseCertificate L (Raw c) = Some c"
    "CommonName (Subject c) = identityPrefix @ ip" "\<not> IsCA c" "ExtKeyUsage c = [ClientAuth]"
    by (rule IssueClientCert_shape)
  have "dbs w1 = dbs w" using p by (rule guar_sameD [rotated]) (rule guar_http, simp)
  moreover have "dbs w2 = dbs w1" using i by (rule guar_sameD [rotated]) (auto intro!: guar_intros)
  ultimately have db2: "dbs w2 st = Some s" using assms(4) by simp
  from sv c(1,2) assms(3) have "AddCert st (certRecord c pem) w2 = (Inr (), w')"
    by (auto simp: saveIdentity_def pemOk_def)
  then have "dbs w' st = Some (sqlUpsertCert (certRecord c pem) s)"
    using db2 by (elim AddCert_Inr) simp
  with c that show thesis by blast
qed

text \<open>An enrolment that succeeds: the request was allowed, the caller's address is registered, and the identity
  it returns, presented over verified TLS, passes the check of the control plane.\<close>

lemma enrolled_authorized:
  assumes id: "parseCertificate L (Raw cert) = Some cert" "CommonName (Subject cert) = identityPrefix @ ip"
    and pres: "TLS r' = Some tls" "VerifiedChains tls \<noteq> []" "PeerCertificates tls = cert # rest"
    and ip: "ParseIP ip \<noteq> None" "ip \<in> clientKeys s'" "TrimSpace ip \<notin> blockedKeys s'"
    and serial: "bigText16 (SerialNumber cert) \<notin> revokedKeys s'"
    and filed: "find (\<lambda>c. SerialHex c = bigText16 (SerialNumber cert)) (certsTab s') =
      Some (certRecord cert (pemEncode L ''CERTIFICATE'' (Raw cert)))"
  shows "authorized L s' r'"
proof -
  have "TrimPrefix (identityPrefix @ ip) identityPrefix = ip" by (simp add: TrimPrefix_def startsWith_iff)
  moreover have "ip \<noteq> identityPrefix @ ip" by (simp add: identityPrefix_def)
  ultimately have "presentedIdentity r' = Some (cert, ip)"
    using id(2) pres ip(1) by (simp add: presentedIdentity_def Let_def)
  with ip serial filed show ?thesis unfolding authorized_def by (intro exI [of _ cert] exI [of _ ip]) simp
qed


lemma registerHandler_Inr:
  assumes run: "registerHandler L cfg ca st r w = (Inr resp, w')" and db: "dbs w st = Some s"
    and lib: "x509Ok L" "pemOk L"
  obtains pem s' where "mayEnrol cfg s r" "resp = registerReply L (host (RemoteAddr r)) pem" "dbs w' st = Some s'"
    "clientKeys s' = insert (host (RemoteAddr r)) (clientKeys s)" "revokedKeys s' = revokedKeys s" "blockedKeys s' = blockedKeys s"
    "pem = '''' \<and> certsTab s' = certsTab s \<or>
     (\<exists>cert. pem = pemEncode L ''CERTIFICATE'' (Raw cert) \<and> parseCertificate L (Raw cert) = Some cert
        \<and> CommonName (Subject cert) = identityPrefix @ host (RemoteAddr r)
        \<and> certsTab s' = certsTab (sqlUpsertCert (certRecord cert pem) s))"
proof -
  let ?ip = "host (RemoteAddr r)"
  from run obtain blocked w1 csrText w2 pem w3 b w4 u w5 where
    m: "Method r = ''POST''" and b: "IsBlocked st ?ip w = (Inr blocked, w1)"
    and ok: "\<not> blocked" "checkEnrollment cfg r" "ClientAllowed cfg ?ip"
    and d: "decodeRequest L '''' csrField r w1 = (Inr csrText, w2)"
    and i: "(if csrText = '''' then ret '''' else issueIdentity L ca st ?ip csrText) w2 = (Inr pem, w3)"
    and reg: "registerClient st ?ip w3 = (Inr b, w4)"
    and pub: "RebuildEncryptedCache L cfg ca st w4 = (Inr u, w5)"
    and fin: "logPrint (''AUDIT client '' @ ?ip @ '' enrolled'') w5 = (Inr () :: httpResponse + unit, w')"
    and resp: "resp = registerReply L ?ip pem"
    by (auto simp: registerHandler_def Let_def logPrint_def split: if_splits)
  from read_Inr(1) [OF db b] have blocked: "blocked = (TrimSpace ?ip \<in> blockedKeys s)" "dbs w1 = dbs w" by simp_all
  have "dbs w2 = dbs w1" using d by (rule guar_sameD [rotated]) (rule guar_http, simp)
  with blocked db have db2: "dbs w2 st = Some s" by simp
  obtain s3 where s3: "dbs w3 st = Some s3" "clientKeys s3 = clientKeys s" "revokedKeys s3 = revokedKeys s"
      "blockedKeys s3 = blockedKeys s" and
    cert: "pem = '''' \<and> certsTab s3 = certsTab s \<or>
     (\<exists>cert. pem = pemEncode L ''CERTIFICATE'' (Raw cert) \<and> parseCertificate L (Raw cert) = Some cert
        \<and> CommonName (Subject cert) = identityPrefix @ ?ip
        \<and> certsTab s3 = certsTab (sqlUpsertCert (certRecord cert pem) s))"
  proof (cases "csrText = ''''")
    case True
    with i db2 that [of s] show thesis by simp
  next
    case False
    with i have "issueIdentity L ca st ?ip csrText w2 = (Inr pem, w3)" by simp
    from issueIdentity_Inr [OF this lib db2] obtain c where c: "pem = pemEncode L ''CERTIFICATE'' (Raw c)"
      "parseCertificate L (Raw c) = Some c" "CommonName (Subject c) = identityPrefix @ ?ip"
      "dbs w3 st = Some (sqlUpsertCert (certRecord c pem) s)" by blast
    from that [OF c(4)] c show thesis by auto
  qed
  from reg s3(1) obtain t where s4: "dbs w4 st = Some (sqlInsertClient ?ip t s3)" by (elim registerClient_Inr) auto
  from guarD [OF guar_Rebuild_sameTables pub] s4 obtain s5 where s5: "dbs w5 st = Some s5"
    "sameTables (sqlInsertClient ?ip t s3) s5" by (auto simp: storeRel_def)
  note same = sameTablesD [OF s5(2)]
  have "dbs w' st = Some s5" using fin s5(1) by (auto simp: logPrint_def)
  moreover have "mayEnrol cfg s r" using m ok blocked by (simp add: mayEnrol_def checkEnrollment_token)
  moreover have "certsTab s5 = certsTab s3" using same(2) by (simp add: sqlInsertClient_def)
  ultimately show thesis using that [of pem s5] resp s3 cert same by simp
qed

lemma ClientAllowed_IP: "ClientAllowed cfg ip \<Longrightarrow> ParseIP ip \<noteq> None"
  by (auto simp: ClientAllowed_def split: option.splits)

end
