(* ===== verification/Samples.thy ===== *)
theory Samples
  imports Server "HOL-Library.Countable" "HOL-Library.Code_Target_Numeral"
begin

text \<open>
  A concrete instance of the libraries and concrete nodes, on which the properties are tried.

  \<open>sampleLib\<close> satisfies every contract of theory \<open>GoLib\<close>. It is no cryptography: what matters is that
  the contracts hold together. A value is written as a text whose length is its number (\<open>encode\<close>), which
  \<open>decode\<close> reads back; short texts are free, and three tables give them a meaning as JSON, as certificates and
  as requests, so that a sample can hold a short file or message with a chosen content.
\<close>

section \<open>Numbering the data\<close>

instance json :: countable
  by countable_datatype

instance pubkey :: countable
  by countable_datatype

instance extKeyUsage :: countable
  by countable_datatype

instance keyUsage :: finite
proof
  have "(UNIV :: keyUsage set) \<subseteq> {DigitalSignature, KeyEncipherment, CertSign, CRLSign, OtherKeyUsage}"
    by (auto intro: keyUsage.exhaust)
  then show "finite (UNIV :: keyUsage set)" by (rule finite_subset) simp
qed

instance pkixName_ext :: (countable) countable
  by (rule countable_classI [of "\<lambda>x. to_nat (CommonName x, Organization x, otherAttributes x, pkixName.more x)"]) simp

instance certificate_ext :: (countable) countable
  by (rule countable_classI [of "\<lambda>x. to_nat ((Raw x, SerialNumber x, Subject x, cNotBefore x, cNotAfter x, IsCA x,
     MaxPathLen x), (KeyUsage x, ExtKeyUsage x, DNSNames x, IPAddresses x, EmailAddresses x, URIs x, PublicKey x,
     certificate.more x))"]) simp

instance certRequest_ext :: (countable) countable
  by (rule countable_classI [of "\<lambda>x. to_nat (csrRaw x, csrSubject x, csrDNSNames x, csrIPAddresses x,
     csrEmailAddresses x, csrURIs x, csrPublicKey x, certRequest.more x)"]) simp

instance revocationEntry_ext :: (countable) countable
  by (rule countable_classI [of "\<lambda>x. to_nat (entrySerial x, RevocationTime x, ReasonCode x, revocationEntry.more x)"]) simp

instance revocationList_ext :: (countable) countable
  by (rule countable_classI [of "\<lambda>x. to_nat (crlRaw x, crlNumber x, ThisUpdate x, NextUpdate x,
     RevokedCertificateEntries x, revocationList.more x)"]) simp

section \<open>Texts\<close>

definition encode :: "'a::countable \<Rightarrow> string" where
  "encode x = replicate (64 + to_nat x) CHR ''1''"

definition decode :: "string \<Rightarrow> ('a::countable) option" where
  "decode s = (if length s < 64 then None else Some (from_nat (length s - 64)))"

declare encode_def [code del]

lemma decode_encode [simp]: "decode (encode x) = Some x"
  by (simp add: encode_def decode_def)

lemma isASCII_encode [simp]: "isASCII (encode x)"
  by (simp add: isASCII_def encode_def)

definition short :: "(string \<times> 'a) list \<Rightarrow> string \<Rightarrow> 'a option" where
  "short tab s = (if length s < 64 then map_of tab s else None)"

lemma short_encode [simp]: "short tab (encode x) = None"
  by (simp add: short_def encode_def)

lemma short_single [simp]: "short tab [c] = map_of tab [c]" "short tab [] = map_of tab []"
  by (simp_all add: short_def)

fun hexText :: "bytes \<Rightarrow> string" where
  "hexText [] = []"
| "hexText (c # s) = hexChar (of_char c div 16) # hexChar (of_char c mod 16) # hexText s"

fun unhexText :: "string \<Rightarrow> bytes option" where
  "unhexText [] = Some []"
| "unhexText [c] = None"
| "unhexText (c # d # s) =
     (case (hexVal c, hexVal d, unhexText s) of
        (Some h, Some l, Some t) \<Rightarrow> Some (char_of (16 * h + l) # t)
      | _ \<Rightarrow> None)"

lemma of_char_nibbles: "of_char c div 16 < (16 :: nat)" "of_char c mod 16 < (16 :: nat)"
proof -
  have "(of_char c :: nat) < 16 * 16" using nat_of_char_less_256 [of c] by simp
  then show "of_char c div 16 < (16 :: nat)" by (rule less_mult_imp_div_less)
qed simp

lemma unhexText_hexText [simp]: "unhexText (hexText s) = Some s"
  by (induction s) (simp_all add: of_char_nibbles)

lemma isASCII_hexText [simp]: "isASCII (hexText s)"
proof -
  have "isASCII [hexChar n]" if "n < 16" for n
    using that by (simp add: hexChar_def)
  then show ?thesis by (induction s) (simp_all add: of_char_nibbles del: isASCII_simps, simp_all add: of_char_nibbles)
qed

section \<open>The libraries\<close>

definition samplePemDecode :: "bytes \<Rightarrow> (string \<times> bytes) option" where
  "samplePemDecode s =
     (let n = length (takeWhile (\<lambda>c. c = CHR ''1'') s) in
      case drop n s of
        [] \<Rightarrow> None
      | c # r \<Rightarrow> if length r < n then None else Some (take n r, drop n r))"

definition sampleCert :: "certificate \<Rightarrow> pubkey \<Rightarrow> certificate" where
  "sampleCert t pub = t\<lparr>Raw := '''', cNotBefore := wholeSeconds (cNotBefore t), cNotAfter := wholeSeconds (cNotAfter t),
     IPAddresses := map shortIP (IPAddresses t), PublicKey := pub\<rparr>"

definition sampleLib :: "(string \<times> json) list \<Rightarrow> (bytes \<times> certificate) list \<Rightarrow> (bytes \<times> certRequest) list
    \<Rightarrow> (bytes \<times> revocationList) list \<Rightarrow> lib" where
  "sampleLib jsons certs csrs crls =
     \<lparr>uniLower = (\<lambda>s. s), addDate = (\<lambda>y m d t. t + (365 * y + 30 * m + d) * 24 * hour),
      timeText = bigText16, timeOfText = bigSetString16,
      pemEncode = (\<lambda>ty b. replicate (length ty) CHR ''1'' @ ''|'' @ ty @ b), pemDecode = samplePemDecode,
      base64Encode = hexText, base64Decode = unhexText,
      jsonPrint = encode, jsonParse = (\<lambda>s. case short jsons s of Some j \<Rightarrow> Some j | None \<Rightarrow> decode s),
      jsonScan = (\<lambda>s. Some (s, [])), jsonBroken = (\<lambda>s. False), urlParses = (\<lambda>s. True),
      yamlMarshal = (\<lambda>c. Some ''yaml''), yamlUnmarshal = (\<lambda>b c. Some c),
      createCertificate = (\<lambda>r t p pub k. Some (encode (sampleCert t pub))),
      parseCertificate = (\<lambda>s. map_option (\<lambda>c. c\<lparr>Raw := s\<rparr>) (case short certs s of Some c \<Rightarrow> Some c | None \<Rightarrow> decode s)),
      checkSignatureFrom = (\<lambda>c p. IsCA p), certVerify = (\<lambda>c roots inter name usage now. usage \<in> set (ExtKeyUsage c)),
      createCertificateRequest = (\<lambda>r t k. Some (encode (t\<lparr>csrPublicKey := ECDSAKey k\<rparr>))),
      parseCertificateRequest = (\<lambda>s. map_option (\<lambda>c. c\<lparr>csrRaw := s\<rparr>) (case short csrs s of Some c \<Rightarrow> Some c | None \<Rightarrow> decode s)),
      csrCheckSignature = (\<lambda>c. True),
      createRevocationList = (\<lambda>r t p k. Some (encode (t\<lparr>ThisUpdate := wholeSeconds (ThisUpdate t),
        NextUpdate := wholeSeconds (NextUpdate t)\<rparr>))),
      parseRevocationList = (\<lambda>s. map_option (\<lambda>c. c\<lparr>crlRaw := s\<rparr>) (case short crls s of Some c \<Rightarrow> Some c | None \<Rightarrow> decode s)),
      crlCheckSignatureFrom = (\<lambda>c p. True), x509KeyPair = (\<lambda>c k. map_option (\<lambda>(ty, b). [b]) (samplePemDecode c)),
      marshalPKCS8 = (\<lambda>k. Some k), parsePKCS8 = (\<lambda>b. Some (ECDSAPriv b)),
      generateKey = (\<lambda>r. [char_of r]), publicOf = (\<lambda>k. k), marshalPKIX = Some,
      signASN1 = (\<lambda>r k d. Some (k @ d)), verifyASN1 = (\<lambda>p d s. s = p @ d),
      sha256 = (\<lambda>b. take 32 (b @ replicate 32 CHR ''0'')), randomBytes = (\<lambda>r n. replicate n (char_of r)),
      gcmSeal = (\<lambda>k n p. p @ replicate 16 CHR ''0''),
      gcmOpen = (\<lambda>k n c. if length c < 16 then None else Some (take (length c - 16) c)),
      scryptKey = (\<lambda>pw salt n r p len. Some (replicate len CHR ''s'')),
      sealAnonymous = (\<lambda>r m pub. Some (m @ replicate 48 CHR ''0'')),
      openAnonymous = (\<lambda>c pub priv. if length c < 48 then None else Some (take (length c - 48) c)),
      x25519Base = (\<lambda>k. Some k), newMnemonic = (\<lambda>e. Some e), entropyFromMnemonic = (\<lambda>m. Some m)\<rparr>"

lemma samplePem: "samplePemDecode (replicate (length ty) CHR ''1'' @ ''|'' @ ty @ b) = Some (ty, b)"
proof -
  have "takeWhile (\<lambda>c. c = CHR ''1'') (replicate (length ty) CHR ''1'' @ ''|'' @ ty @ b) = replicate (length ty) CHR ''1''"
    by (subst takeWhile_append2) auto
  then show ?thesis by (simp add: samplePemDecode_def Let_def)
qed

lemma sample_codecs [simp]:
  "pemOk (sampleLib js cs rs ls)" "jsonOk (sampleLib js cs rs ls)" "base64Ok (sampleLib js cs rs ls)"
  "timeTextOk (sampleLib js cs rs ls)"
proof -
  have "isASCII (bigText16 t)" for t
  proof -
    have "isASCII (hexOfNat n)" for n
      using hexOfNat_chars [of _ n] by (fastforce simp: isASCII_def hexChar_def)
    then show ?thesis by (simp add: bigText16_def)
  qed
  then show "timeTextOk (sampleLib js cs rs ls)" by (simp add: timeTextOk_def sampleLib_def)
  show "pemOk (sampleLib js cs rs ls)" using samplePem by (simp add: pemOk_def sampleLib_def)
qed (simp_all add: jsonOk_def base64Ok_def sampleLib_def)

lemma sample_crypto [simp]:
  "gcmOk (sampleLib js cs rs ls)" "boxOk (sampleLib js cs rs ls)" "ecdsaOk (sampleLib js cs rs ls)"
  "pkcs8Ok (sampleLib js cs rs ls)" "bip39Ok (sampleLib js cs rs ls)" "randomOk (sampleLib js cs rs ls)"
  by (simp_all add: gcmOk_def boxOk_def ecdsaOk_def pkcs8Ok_def bip39Ok_def randomOk_def sampleLib_def)

lemma sample_x509 [simp]: "x509Ok (sampleLib js cs rs ls)"
proof -
  have "certOf t der pub (sampleCert t pub\<lparr>Raw := der\<rparr>)" for t der pub
    unfolding certOf_def sampleCert_def by (intro exI [of _ "otherAttributes (Subject t)"]) simp
  then show ?thesis by (simp add: x509Ok_def sampleLib_def)
qed

lemma sample_crl [simp]: "crlOk (sampleLib js cs rs ls)"
  by (simp add: crlOk_def sampleLib_def)


section \<open>A network\<close>

text \<open>A master with its root certificate and key, one enrolled client, and a quiet environment: nothing fails, a second
  passes with every call, the random source counts.\<close>

definition sampleRoot :: certificate where
  "sampleRoot = blankCert\<lparr>Raw := ''R'', SerialNumber := 1, Subject := plainName ''NATSSL Private Root CA'', IsCA := True,
     MaxPathLen := 1, KeyUsage := {CertSign, CRLSign, DigitalSignature}, PublicKey := ECDSAKey ''k''\<rparr>"

definition sampleCA :: CA where
  "sampleCA = \<lparr>Cert = sampleRoot, CertDER = ''R'', Key = ''k''\<rparr>"

definition sampleId :: certificate where
  "sampleId = blankCert\<lparr>Raw := ''I'', SerialNumber := 171, Subject := plainName ''natssl-client:10.0.0.7'',
     KeyUsage := {DigitalSignature}, ExtKeyUsage := [ClientAuth], PublicKey := ECDSAKey ''i''\<rparr>"

text \<open>The leaf of the master's listeners, and a certificate for \<^verbatim>\<open>localhost\<close> and the key a client draws with its first
  random number.\<close>

definition masterLeaf :: certificate where
  "masterLeaf = blankCert\<lparr>Raw := ''M'', SerialNumber := 172, Subject := plainName ''natssl-master-api'', ExtKeyUsage := [ServerAuth]\<rparr>"

definition sampleLocal :: certificate where
  "sampleLocal = blankCert\<lparr>Raw := ''K'', SerialNumber := 173, Subject := plainName ''localhost'', ExtKeyUsage := [ServerAuth],
     DNSNames := [''localhost''], PublicKey := ECDSAKey [char_of (1 :: nat)]\<rparr>"

definition sampleCerts :: "(bytes \<times> certificate) list" where
  "sampleCerts = [(''R'', sampleRoot), (''I'', sampleId), (''M'', masterLeaf), (''K'', sampleLocal)]"

definition sampleCSR :: certRequest where
  "sampleCSR = \<lparr>csrRaw = ''Q'', csrSubject = plainName ''localhost'', csrDNSNames = [''localhost''], csrIPAddresses = [],
     csrEmailAddresses = [], csrURIs = [], csrPublicKey = ECDSAKey ''q''\<rparr>"

definition sampleJsons :: "(string \<times> json) list" where
  "sampleJsons = [(''E'', JObj [(''csr'', JStr ''1111111111111111111|CERTIFICATE REQUESTQ'')]),
     (''S'', JObj [(''csr'', JStr ''1111111111111111111|CERTIFICATE REQUESTQ''), (''localhost'', JBool True)]),
     (''C'', JObj [(''certificate'', JStr ''11111111111|CERTIFICATEI'')]),
     (''L'', JObj [(''certificate'', JStr ''11111111111|CERTIFICATEK'')])]"

definition SL :: lib where
  "SL = sampleLib sampleJsons sampleCerts [(''Q'', sampleCSR)] []"

lemma SL_contracts [simp]:
  "pemOk SL" "jsonOk SL" "base64Ok SL" "timeTextOk SL" "gcmOk SL" "boxOk SL" "ecdsaOk SL" "pkcs8Ok SL" "bip39Ok SL"
  "randomOk SL" "x509Ok SL" "crlOk SL"
  by (simp_all add: SL_def)

definition recoveryKeyBytes :: bytes where
  "recoveryKeyBytes = replicate 32 CHR ''r''"

definition sampleConfig :: Config where
  "sampleConfig = DefaultConfig\<lparr>DataDir := ''/d'', RecoveryPublicKey := hexText recoveryKeyBytes,
     EnrollmentToken := ''secret'', ClientNetworks := [''10.0.0.0/8''], cfgPath := ''/d/config.yaml''\<rparr>"

definition sampleStore :: store where
  "sampleStore = \<lparr>stateTab = [(''cache_sequence'', 4)], clientsTab = [\<lparr>ciIP = ''10.0.0.7'', ciAddedAt = 0\<rparr>],
     certsTab = [certRecord sampleId (pemEncode SL ''CERTIFICATE'' ''I'')],
     revokedTab = [\<lparr>rvSerialHex = ''cd'', rvSubject = ''old'', Reason = 0, RevokedAt = 7 * second\<rparr>],
     blacklistTab = [\<lparr>bIP = ''10.0.0.9'', bReason = '''', bAddedAt = 0\<rparr>]\<rparr>"

definition sampleFs :: filesys where
  "sampleFs = [''/d'' \<mapsto> Dir o700, ''/d/root-ca.crt'' \<mapsto> File (pemEncode SL ''CERTIFICATE'' ''R'') o644,
     ''/d/root-ca.key'' \<mapsto> File (pemEncode SL ''PRIVATE KEY'' ''k'') o600]"

definition sampleWorld :: "filesys \<Rightarrow> store \<Rightarrow> world" where
  "sampleWorld F s = \<lparr>fs = F, fsTrace = [], dbs = [''/d/natssl.db'' \<mapsto> s], held = [], logs = [], sent = [], step = 0,
     faults = (\<lambda>_. False), clock = (\<lambda>n. (1000000 + int n) * second), rnd = (\<lambda>n. n), net = (\<lambda>_. NetFail)\<rparr>"

definition SW :: world where
  "SW = sampleWorld sampleFs sampleStore"

definition sampleRequest :: "string \<Rightarrow> string \<Rightarrow> string \<Rightarrow> string \<Rightarrow> bytes \<Rightarrow> tlsState option \<Rightarrow> httpRequest" where
  "sampleRequest meth path addr token body tls =
     \<lparr>Method = meth, URLPath = path, RemoteAddr = addr, TokenHeader = token, Body = body, TLS = tls\<rparr>"

definition sampleTLS :: tlsState where
  "sampleTLS = \<lparr>VerifiedChains = [[sampleId, sampleRoot]], PeerCertificates = [sampleId]\<rparr>"

definition isInr :: "('e + 'a) \<times> 's \<Rightarrow> bool" where
  "isInr x = (case x of (Inr _, _) \<Rightarrow> True | _ \<Rightarrow> False)"

lemma isInrE: "isInr x \<Longrightarrow> (\<And>y s. x = (Inr y, s) \<Longrightarrow> P) \<Longrightarrow> P"
  by (auto simp: isInr_def split: prod.splits sum.splits)


section \<open>Running the samples\<close>

text \<open>
  A run is evaluated by rewriting from the front: a sequence steps when its first part has run, and what is not
  reached is not touched (the congruence rules \<open>run_blocks\<close>).
\<close>

lemma run_first:
  "m s = r \<Longrightarrow> bnd m k s = (case r of (Inl e, s') \<Rightarrow> (Inl e, s') | (Inr x, s') \<Rightarrow> k x s')"
  "m s = r \<Longrightarrow> deferred c m s = (case r of (y, s') \<Rightarrow> (y, snd (c s')))"
  "m s = r \<Longrightarrow> onErr f m s = (case r of (Inl e, s') \<Rightarrow> (Inl (f e), s') | (Inr x, s') \<Rightarrow> (Inr x, s'))"
  "m s = r \<Longrightarrow> attempt m s = (case r of (y, s') \<Rightarrow> (Inr y, s'))"
  by (simp_all add: bnd_def deferred_def onErr_def attempt_def)

lemmas run_off = run_bnd_Inr run_bnd_Inl run_deferred

text \<open>The record of past file systems is never looked at in a run.\<close>

definition traced :: "(filesys \<Rightarrow> filesys) \<Rightarrow> world \<Rightarrow> filesys list" where
  "traced f w = fsTrace w @ [f (fs w)]"

lemma run_setFs: "setFs f w = (Inr (), w\<lparr>fs := f (fs w), fsTrace := traced f w\<rparr>)"
  by (simp add: setFs_def traced_def)

lemma run_blocks:
  "bnd m k s = bnd m k s" "deferred c m s = deferred c m s" "onErr f m s = onErr f m s" "attempt m s = attempt m s"
  "traced g w = traced g w"
  by (rule refl)+

lemma SL_ops:
  "uniLower SL = (\<lambda>s. s)" "addDate SL y mo d tm = tm + (365 * y + 30 * mo + d) * 24 * hour"
  "timeText SL = bigText16" "timeOfText SL = bigSetString16"
  "pemDecode SL (pemEncode SL ty b) = Some (ty, b)"
  "pemDecode SL ''1111111111111111111|CERTIFICATE REQUESTQ'' = Some (''CERTIFICATE REQUEST'', ''Q'')"
  "base64Encode SL = hexText" "base64Decode SL = unhexText" "jsonPrint SL = encode"
  "jsonParse SL s = (case short sampleJsons s of Some j \<Rightarrow> Some j | None \<Rightarrow> decode s)"
  "jsonScan SL s = Some (s, [])" "jsonBroken SL s = False" "urlParses SL s" "yamlMarshal SL cf = Some ''yaml''" "yamlUnmarshal SL b cf = Some cf"
  "createCertificate SL r t p pub k = Some (encode (sampleCert t pub))"
  "parseCertificate SL s = map_option (\<lambda>c. c\<lparr>Raw := s\<rparr>)
     (case short sampleCerts s of Some c \<Rightarrow> Some c | None \<Rightarrow> decode s)"
  "checkSignatureFrom SL c p = IsCA p" "certVerify SL c roots ints name usage now = (usage \<in> set (ExtKeyUsage c))"
  "createCertificateRequest SL r q k = Some (encode (q\<lparr>csrPublicKey := ECDSAKey k\<rparr>))"
  "parseCertificateRequest SL s = map_option (\<lambda>c. c\<lparr>csrRaw := s\<rparr>)
     (case short [(''Q'', sampleCSR)] s of Some c \<Rightarrow> Some c | None \<Rightarrow> decode s)"
  "csrCheckSignature SL q = True"
  "createRevocationList SL r l p k = Some (encode (l\<lparr>ThisUpdate := wholeSeconds (ThisUpdate l),
     NextUpdate := wholeSeconds (NextUpdate l)\<rparr>))"
  "parseRevocationList SL s = map_option (\<lambda>c. c\<lparr>crlRaw := s\<rparr>) (decode s)"
  "crlCheckSignatureFrom SL l p = True" "x509KeyPair SL b kp = map_option (\<lambda>(ty, b). [b]) (samplePemDecode b)" "marshalPKCS8 SL k = Some k"
  "parsePKCS8 SL b = Some (ECDSAPriv b)" "generateKey SL r = [char_of r]" "publicOf SL k = k" "marshalPKIX SL k = Some k"
  "signASN1 SL r k d' = Some (k @ d')" "verifyASN1 SL k d' s = (s = k @ d')"
  "sha256 SL b = take 32 (b @ replicate 32 CHR ''0'')" "randomBytes SL r n = replicate n (char_of r)"
  "gcmSeal SL k n' b = b @ replicate 16 CHR ''0''"
  "gcmOpen SL k n' b = (if length b < 16 then None else Some (take (length b - 16) b))"
  "scryptKey SL k n' n1 n2 n3 len = Some (replicate len CHR ''s'')"
  "sealAnonymous SL r b k = Some (b @ replicate 48 CHR ''0'')"
  "openAnonymous SL b k k' = (if length b < 48 then None else Some (take (length b - 48) b))"
  "x25519Base SL k = Some k" "newMnemonic SL b = Some b" "entropyFromMnemonic SL b = Some b"
proof -
  have "samplePemDecode ''1111111111111111111|CERTIFICATE REQUESTQ'' = Some (''CERTIFICATE REQUEST'', ''Q'')" by code_simp
  then show "pemDecode SL ''1111111111111111111|CERTIFICATE REQUESTQ'' = Some (''CERTIFICATE REQUEST'', ''Q'')"
    by (simp add: SL_def sampleLib_def)
  show "pemDecode SL (pemEncode SL ty b) = Some (ty, b)" using SL_contracts(1) by (simp add: pemOk_def)
qed (simp_all add: SL_def sampleLib_def short_def)

lemma sampleConfig_ops:
  "caCertPath sampleConfig = ''/d/root-ca.crt''" "caKeyPath sampleConfig = ''/d/root-ca.key''" "dbPath sampleConfig = ''/d/natssl.db''"
  "cachePath sampleConfig = ''/d/network-cache.enc''" "crlPath sampleConfig = ''/d/root-ca.crl''" "issuedDir sampleConfig = ''/d/issued''"
  "identityCertPath sampleConfig = ''/d/client-identity.crt''" "identityKeyPath sampleConfig = ''/d/client-identity.key''"
  "RecoveryPublicKey sampleConfig = hexText recoveryKeyBytes" "EnrollmentToken sampleConfig = ''secret''"
  "ClientNetworks sampleConfig = [''10.0.0.0/8'']" "DataDir sampleConfig = ''/d''" "cfgPath sampleConfig = ''/d/config.yaml''"
  by (simp_all add: sampleConfig_def node_path_defs filepathJoin_def filepathClean_def)

lemma sampleCA_ops:
  "Cert sampleCA = sampleRoot" "CertDER sampleCA = ''R''" "Key sampleCA = ''k''" "PublicKey sampleRoot = ECDSAKey ''k''"
  "IsCA sampleRoot" "Raw sampleRoot = ''R''" "sampleRoot\<lparr>Raw := ''R''\<rparr> = sampleRoot"
  "SerialNumber sampleId = 171" "CommonName (Subject sampleId) = ''natssl-client:10.0.0.7''" "Raw sampleId = ''I''"
  "DNSNames sampleId = []" "IPAddresses sampleId = []" "cNotBefore sampleId = zeroTime" "cNotAfter sampleId = zeroTime"
  "csrPublicKey sampleCSR = ECDSAKey ''q''" "CommonName (csrSubject sampleCSR) = ''localhost''" "csrDNSNames sampleCSR = [''localhost'']"
  "csrIPAddresses sampleCSR = []" "csrEmailAddresses sampleCSR = []" "csrURIs sampleCSR = []"
  by (simp_all add: sampleCA_def sampleRoot_def sampleId_def sampleCSR_def plainName_def blankCert_def)

lemma sample_texts:
  "ClientAllowed sampleConfig ''10.0.0.8''" "host ''10.0.0.8:5000'' = ''10.0.0.8''" "TrimSpace ''10.0.0.8'' = ''10.0.0.8''"
  "bigText16 171 = ''ab''" "ParseIP ''10.0.0.7'' \<noteq> None" "TrimSpace ''10.0.0.7'' = ''10.0.0.7''"
  by code_simp+

lemma hexChars:
  "hexChar 0 = CHR ''0''" "hexChar 1 = CHR ''1''" "hexChar (Suc 0) = CHR ''1''" "hexChar 2 = CHR ''2''" "hexChar 3 = CHR ''3''"
  "hexChar 4 = CHR ''4''" "hexChar 5 = CHR ''5''" "hexChar 6 = CHR ''6''" "hexChar 7 = CHR ''7''" "hexChar 8 = CHR ''8''"
  "hexChar 9 = CHR ''9''" "hexChar 10 = CHR ''a''" "hexChar 11 = CHR ''b''" "hexChar 12 = CHR ''c''" "hexChar 13 = CHR ''d''"
  "hexChar 14 = CHR ''e''" "hexChar 15 = CHR ''f''"
  by (code_simp+)

lemmas world_ops = mayFail_def tick_def timeNow_def random_def logPrint_def osReadFile_def osCreateTemp_def fileChmod_def
  fileWrite_alt osRename_def osRemove_def lockFile_def unlockFile_def run_setFs isDir_code atomicWriteFile_def
  withLock_def osStat_def osMkdirAll_def readBounded_def tempName_def filepathDir_def filepathClean_def filepathJoin_def
  node_path_defs decOfNat.simps run_guardE run_first

lemmas store_ops = sqlRun_def sqlExec_def sqlQuery_def transact_def OpenStore_def read_method_defs write_method_defs
  BuildSnapshot_def buildSnapshot_def caPEM_def scanInt_def scanUint_def nextCacheSequence_def nextCRLNumber_def
  sql_defs insIgnore_def upsert_def delKey_def getKey_def stateGet_def key_defs sqlSucc_def maxInteger_def

lemmas sample_defs = SW_def sampleWorld_def sampleFs_def sampleStore_def sampleRequest_def sampleTLS_def sampleJsons_def sampleCerts_def
  recoveryKeyBytes_def sampleConfig_ops sampleCA_ops sample_texts SL_ops isInr_def Let_def

lemmas number_ops = hexOfNat.simps hexChars bigText16_def duration_defs zeroTime_def wholeSeconds_def

lemmas cache_ops = RebuildEncryptedCache_def EncryptCache_def RecoveryPublicFromBase64_def ReadEncryptedCache_def
  raiseSequence_def Sign_def WriteFile_def SealKeyToRecovery_def aesKeyOk_def gcmNonceSize_def

lemmas server_ops = registerHandler_def requireMethod_def decodeRequest_def csrField_def decField_def jfields_def lowerChar_def
  jsonUnmarshal_def checkEnrollment_def hasToken_def issueIdentity_def parseCSR_def saveIdentity_def IssueClientCert_def
  orReply_def newSerial_def x509CreateCertificate_def registerReply_def jsonSpace_def maxBody_def
  identityPrefix_def certRecord_def ipsToStr_def sampleCert_def

lemmas run_ops = world_ops store_ops cache_ops server_ops number_ops sample_defs

end
