(* ===== verification/Admin.thy ===== *)
theory Admin
  imports Server
begin

text \<open>
  \<^verbatim>\<open>admin.go\<close> and the command-line issuance of \<^verbatim>\<open>ca.go\<close>: what the administrator does on the master, each a program
  that loads the root key pair, opens the database, changes it and publishes the result. A listing returns its
  rows; the layout of the printed table and the format of dates are left out, and so are the fixed sentences printed
  after a change.

  The lemmas say what each command does to the database when it succeeds and what it may have done when it fails
  on the way, and that the names it takes are brought into one form first (serials, targets, addresses), so that
  every spelling of a serial or address means the same row.
\<close>

section \<open>Texts\<close>

definition parenIf :: "string \<Rightarrow> string" where
  "parenIf s0 = (let s = TrimSpace s0 in if s = '''' then '''' else '' ('' @ s @ '')'')"

section \<open>Listings\<close>

datatype certState = REVOKED | EXPIRED | NotYetValid | Valid time

text \<open>The column STATUS: a valid certificate shows the time that is left, by a second look at the clock.\<close>

definition certStatus :: "string set \<Rightarrow> time \<Rightarrow> CertRecord \<Rightarrow> certState io" where
  "certStatus revoked now c =
     (if SerialHex c \<in> revoked then ret REVOKED
      else if now > NotAfter c then ret EXPIRED
      else if now < NotBefore c then ret NotYetValid
      else bnd timeNow (\<lambda>t. ret (Valid (NotAfter c - t))))"

definition orDash :: "string \<Rightarrow> string" where
  "orDash s = (if s = '''' then ''-'' else s)"

fun certRows :: "string set \<Rightarrow> time \<Rightarrow> CertRecord list \<Rightarrow> (string \<times> string \<times> string \<times> time \<times> certState) list io" where
  "certRows revoked now [] = ret []"
| "certRows revoked now (c # cs) =
     bnd (certStatus revoked now c) (\<lambda>s.
     bnd (certRows revoked now cs) (\<lambda>rows.
     ret ((SerialHex c, crSubject c, orDash (SANs c), NotAfter c, s) # rows)))"

text \<open>The rows, and the two totals under them.\<close>

definition RunListCerts :: "Config \<Rightarrow> ((string \<times> string \<times> string \<times> time \<times> certState) list \<times> nat \<times> nat) io" where
  "RunListCerts cfg =
     bnd (OpenStore (dbPath cfg)) (\<lambda>st.
     bnd (ListCerts st) (\<lambda>certs.
     if certs = [] then ret ([], 0, 0)
     else
     bnd (RevokedSet st) (\<lambda>revoked.
     bnd timeNow (\<lambda>now.
     bnd (certRows revoked now certs) (\<lambda>rows.
     ret (rows, length certs, card revoked))))))"

definition RunListRevoked :: "Config \<Rightarrow> (string \<times> string \<times> int \<times> time) list io" where
  "RunListRevoked cfg =
     bnd (OpenStore (dbPath cfg)) (\<lambda>st.
     bnd (ListRevoked st) (\<lambda>revoked.
     ret (map (\<lambda>r. (rvSerialHex r, orDash (rvSubject r), Reason r, RevokedAt r)) revoked)))"

definition RunListClients :: "Config \<Rightarrow> (string \<times> time) list io" where
  "RunListClients cfg =
     bnd (OpenStore (dbPath cfg)) (\<lambda>st.
     bnd (ListClientsInfo st) (\<lambda>clients.
     ret (map (\<lambda>c. (ciIP c, ciAddedAt c)) clients)))"

definition RunListBlocked :: "Config \<Rightarrow> (string \<times> string \<times> time) list io" where
  "RunListBlocked cfg =
     bnd (OpenStore (dbPath cfg)) (\<lambda>st.
     bnd (ListBlocked st) (\<lambda>blocked.
     ret (map (\<lambda>b. (bIP b, orDash (bReason b), bAddedAt b)) blocked)))"

section \<open>Certificates\<close>

definition noRootCA :: "error \<Rightarrow> error" where
  "noRootCA e = Wrap ''no Root CA found (run --bootstrap first)'' e"

definition RunRevokeCert :: "lib \<Rightarrow> Config \<Rightarrow> string \<Rightarrow> unit io" where
  "RunRevokeCert L cfg serial0 =
     (let serial = normalizeSerial L serial0 in
      if serial = '''' then throw (Msg ''--revoke requires a certificate serial (hex)'')
      else
      bnd (onErr noRootCA (LoadCA L (caCertPath cfg) (caKeyPath cfg))) (\<lambda>ca.
      bnd (OpenStore (dbPath cfg)) (\<lambda>st.
      bnd (IsRevoked st serial) (\<lambda>already.
      if already then throw (Msg ''certificate is already revoked'')
      else
      bnd (CertBySerial st serial) (\<lambda>rec.
      let subject = (case rec of Some c \<Rightarrow> crSubject c | None \<Rightarrow> '''') in
      bnd (onErr (Wrap ''record revocation'') (RevokeCert L st serial subject crlReasonUnspecified)) (\<lambda>_.
      bnd (onErr (Wrap ''revoked in DB, but CRL write failed'') (WriteCRL L cfg ca st)) (\<lambda>_.
      onErr (Wrap ''revoked, but cache rebuild failed'') (RebuildEncryptedCache L cfg ca st))))))))"

text \<open>The number returned is the number of certificates revoked, which is printed. \<open>publishReissued\<close> is the part under the
  issuance lock.\<close>

definition publishReissued :: "lib \<Rightarrow> Config \<Rightarrow> string \<Rightarrow> CA \<Rightarrow> string \<Rightarrow> IssueResult \<Rightarrow> int io" where
  "publishReissued L cfg subject ca st res =
     bnd (writeIssuedFiles L cfg subject res) (\<lambda>_.
     bnd (need Panic (resCert res)) (\<lambda>cert.
     bnd (replaceCertificate st (certRecord cert (resCertPEM res)\<lparr>crSubject := subject\<rparr>)) (\<lambda>n.
     bnd (onErr (Wrap ''reissued in DB, but CRL update failed'') (WriteCRL L cfg ca st)) (\<lambda>_.
     bnd (onErr (Wrap ''reissued, but snapshot update failed'') (RebuildEncryptedCache L cfg ca st)) (\<lambda>_.
     ret n)))))"

definition RunReissueCert :: "lib \<Rightarrow> Config \<Rightarrow> string \<Rightarrow> bool \<Rightarrow> int io" where
  "RunReissueCert L cfg subject0 localhost =
     (let subject = canonicalTarget L subject0 in
      if subject = [] then throw (Msg ''--reissue requires a subject'')
      else
      bnd (LoadCA L (caCertPath cfg) (caKeyPath cfg)) (\<lambda>ca.
      bnd (OpenStore (dbPath cfg)) (\<lambda>st.
      bnd (Issue L ca subject [] localhost) (\<lambda>res.
      lockIssuance L cfg subject (publishReissued L cfg subject ca st res)))))"

text \<open>\<^verbatim>\<open>RunIssueCLI\<close>: the record is made of the certificate's data before the files are written, and saved after.\<close>

definition RunIssueCLI :: "lib \<Rightarrow> Config \<Rightarrow> string \<Rightarrow> bool \<Rightarrow> unit io" where
  "RunIssueCLI L cfg target0 localhost =
     bnd (onErr noRootCA (LoadCA L (caCertPath cfg) (caKeyPath cfg))) (\<lambda>ca.
     bnd (OpenStore (dbPath cfg)) (\<lambda>st.
     let target = canonicalTarget L target0 in
     bnd (Issue L ca target [] localhost) (\<lambda>res.
     bnd (need Panic (resCert res)) (\<lambda>cert.
     let rec = certRecord cert (resCertPEM res)\<lparr>crSubject := target\<rparr> in
     lockIssuance L cfg target (
     bnd (writeIssuedFiles L cfg target res) (\<lambda>_.
     bnd (AddCert st rec) (\<lambda>_.
     RebuildEncryptedCache L cfg ca st)))))))"

section \<open>Clients\<close>

text \<open>The address of a client on the command line: any spelling, brought into the form the connections have.\<close>

definition clientIP :: "string \<Rightarrow> string option" where
  "clientIP s = map_option ipString (ParseIP (TrimSpace s))"

definition RunDeregisterClient :: "lib \<Rightarrow> Config \<Rightarrow> string \<Rightarrow> unit io" where
  "RunDeregisterClient L cfg ip0 =
     bnd (need (Msg ''--deregister requires a client IP'') (clientIP ip0)) (\<lambda>ip.
     bnd (onErr noRootCA (LoadCA L (caCertPath cfg) (caKeyPath cfg))) (\<lambda>ca.
     bnd (OpenStore (dbPath cfg)) (\<lambda>st.
     bnd (ListClients st) (\<lambda>existing.
     if ip \<notin> set existing then throw (Msg ''client is not registered (nothing to do)'')
     else
     bnd (onErr (Wrap ''remove client'') (RemoveClient st ip)) (\<lambda>_.
     onErr (Wrap ''client removed, but cache rebuild failed'') (RebuildEncryptedCache L cfg ca st))))))"

definition RunBlockClient :: "lib \<Rightarrow> Config \<Rightarrow> string \<Rightarrow> string \<Rightarrow> unit io" where
  "RunBlockClient L cfg ip0 reason =
     bnd (need (Msg ''--block requires a client IP'') (clientIP ip0)) (\<lambda>ip.
     bnd (onErr noRootCA (LoadCA L (caCertPath cfg) (caKeyPath cfg))) (\<lambda>ca.
     bnd (OpenStore (dbPath cfg)) (\<lambda>st.
     bnd (onErr (Wrap ''blacklist'') (BlockIP st ip reason)) (\<lambda>_.
     bnd (onErr (Wrap ''blocked, but failed to drop from registry'') (RemoveClient st ip)) (\<lambda>_.
     onErr (Wrap ''blocked, but cache rebuild failed'') (RebuildEncryptedCache L cfg ca st))))))"

definition RunUnblockClient :: "lib \<Rightarrow> Config \<Rightarrow> string \<Rightarrow> unit io" where
  "RunUnblockClient L cfg ip0 =
     bnd (need (Msg ''--unblock requires a client IP'') (clientIP ip0)) (\<lambda>ip.
     bnd (onErr noRootCA (LoadCA L (caCertPath cfg) (caKeyPath cfg))) (\<lambda>ca.
     bnd (OpenStore (dbPath cfg)) (\<lambda>st.
     bnd (IsBlocked st ip) (\<lambda>blocked.
     if \<not> blocked then throw (Msg ''not blacklisted (nothing to do)'')
     else
     bnd (onErr (Wrap ''unblock'') (UnblockIP st ip)) (\<lambda>_.
     onErr (Wrap ''unblocked, but cache rebuild failed'') (RebuildEncryptedCache L cfg ca st))))))"


section \<open>What the commands leave alone\<close>

text \<open>The operations the commands use, collected: a relation they all keep is kept by the commands.\<close>

definition adminBase :: "lib \<Rightarrow> Config \<Rightarrow> (world \<Rightarrow> world \<Rightarrow> bool) \<Rightarrow> bool" where
  "adminBase L cfg R \<longleftrightarrow> fileBlind R \<and> guar R (OpenStore (dbPath cfg))
     \<and> (\<forall>rec. SerialHex rec = ID rec \<longrightarrow> guar R (AddCert (dbPath cfg) rec))
     \<and> (\<forall>ca. guar R (RebuildEncryptedCache L cfg ca (dbPath cfg)))
     \<and> (\<forall>ca. guar R (WriteCRL L cfg ca (dbPath cfg))) \<and> (\<forall>x y r. guar R (RevokeCert L (dbPath cfg) x y r))
     \<and> (\<forall>rec. SerialHex rec = ID rec \<longrightarrow> guar R (replaceCertificate (dbPath cfg) rec))
     \<and> (\<forall>ip. guar R (RemoveClient (dbPath cfg) ip)) \<and> (\<forall>ip why. guar R (BlockIP (dbPath cfg) ip why))"

text \<open>The same with what the handlers use, and with unblocking.\<close>

definition adminRel :: "lib \<Rightarrow> Config \<Rightarrow> (world \<Rightarrow> world \<Rightarrow> bool) \<Rightarrow> bool" where
  "adminRel L cfg R \<longleftrightarrow> adminBase L cfg R \<and> (\<forall>ca. masterRel L cfg ca (dbPath cfg) R)
     \<and> (\<forall>ip. guar R (UnblockIP (dbPath cfg) ip))"

lemma guar_LoadCA [guar_intros]: "quiet R \<Longrightarrow> guar R (LoadCA L c k)"
  unfolding LoadCA_def by (auto intro!: guar_intros)

lemma guar_certRows [guar_intros]: "quiet R \<Longrightarrow> guar R (certRows revoked now cs)"
  by (induction cs) (auto simp: certStatus_def intro!: guar_intros)

text \<open>A program that goes on with the handle of the database it opened.\<close>

lemma guar_opened:
  assumes "preord R" "guar R (OpenStore p)" "guar R (k p)"
  shows "guar R (bnd (OpenStore p) k)"
  by (rule guar_bnd_result [OF assms(1,2)]) (use assms(3) in \<open>auto dest: OpenStore_Inr(1)\<close>)

lemma adminBaseD:
  assumes "adminBase L cfg R"
  shows "fileBlind R" "guar R (OpenStore (dbPath cfg))" "guar R (AddCert (dbPath cfg) (certRecord c p\<lparr>crSubject := subj\<rparr>))"
    "guar R (RebuildEncryptedCache L cfg ca (dbPath cfg))" "guar R (WriteCRL L cfg ca (dbPath cfg))"
    "guar R (RevokeCert L (dbPath cfg) x y r)" "guar R (replaceCertificate (dbPath cfg) (certRecord c p\<lparr>crSubject := subj\<rparr>))"
    "guar R (RemoveClient (dbPath cfg) ip)" "guar R (BlockIP (dbPath cfg) ip why)"
  using assms by (auto simp: adminBase_def)

lemma adminRelD: "adminRel L cfg R \<Longrightarrow> adminBase L cfg R"
  by (simp add: adminRel_def)

lemma guar_admin:
  assumes "adminBase L cfg R"
  shows "guar R (RunListCerts cfg)" "guar R (RunListRevoked cfg)" "guar R (RunListClients cfg)" "guar R (RunListBlocked cfg)"
    "guar R (RunRevokeCert L cfg serial)" "guar R (RunReissueCert L cfg subject local)" "guar R (RunIssueCLI L cfg target local)"
    "guar R (RunDeregisterClient L cfg ip)" "guar R (RunBlockClient L cfg ip why)"
    "(\<And>x. clientIP ip = Some x \<Longrightarrow> guar R (UnblockIP (dbPath cfg) x)) \<Longrightarrow> guar R (RunUnblockClient L cfg ip)"
proof -
  note R = adminBaseD [OF assms]
  have q: "quiet R" "preord R" using R(1) by simp_all
  show "guar R (RunListCerts cfg)" "guar R (RunListRevoked cfg)" "guar R (RunListClients cfg)" "guar R (RunListBlocked cfg)"
    unfolding RunListCerts_def RunListRevoked_def RunListClients_def RunListBlocked_def
    by (rule guar_opened; auto simp: R q intro!: guar_intros)+
  show "guar R (RunRevokeCert L cfg serial)" "guar R (RunDeregisterClient L cfg ip)" "guar R (RunBlockClient L cfg ip why)"
    unfolding RunRevokeCert_def RunDeregisterClient_def RunBlockClient_def Let_def
    by (auto simp: R q intro!: guar_intros guar_opened)
  show "guar R (RunReissueCert L cfg subject local)" "guar R (RunIssueCLI L cfg target local)"
    unfolding RunReissueCert_def publishReissued_def RunIssueCLI_def Let_def
    by (auto simp: R q intro!: guar_intros blind_intros guar_opened)
  show "guar R (RunUnblockClient L cfg ip)" if "\<And>x. clientIP ip = Some x \<Longrightarrow> guar R (UnblockIP (dbPath cfg) x)"
  proof (cases "clientIP ip")
    case None
    then show ?thesis by (simp add: RunUnblockClient_def q guar_throw)
  next
    case (Some x)
    then have "guar R (UnblockIP (dbPath cfg) x)" by (rule that)
    with Some show ?thesis unfolding RunUnblockClient_def by (auto simp: R q intro!: guar_intros guar_opened)
  qed
qed

lemma adminRel_grows: "adminRel L cfg (storeRel grows)"
  by (auto simp: adminRel_def adminBase_def masterRel_grows intro!: rel_intros)

lemma adminRel_wf: "adminRel L cfg (keepsP (dbInv wf_store))"
  by (auto simp: adminRel_def adminBase_def masterRel_wf intro!: inv_intros)

lemma adminRel_seqOk: "adminRel L cfg (keepsP (dbInv seqOk))"
  by (auto simp: adminRel_def adminBase_def masterRel_seqOk intro!: inv_intros)

lemma adminRel_serialKeyed: "adminRel L cfg (keepsP (dbInv serialKeyed))"
  by (auto simp: adminRel_def adminBase_def masterRel_serialKeyed intro!: inv_intros)

section \<open>One spelling\<close>

text \<open>The contract of a canonical form: what it gives is its own form. Two inputs mean the same if and only if
  they have the same form, and a form given again changes nothing.\<close>

locale canonical =
  fixes canon :: "string \<Rightarrow> string option"
  assumes canon_canon: "canon s = Some t \<Longrightarrow> canon t = Some t"
begin

lemma canon_fixed: "canon s = Some t \<Longrightarrow> canon s' = Some t' \<Longrightarrow> canon s = canon t' \<longleftrightarrow> t = t'"
  using canon_canon by auto

lemma canon_again: "Option.bind (canon s) canon = canon s"
  using canon_canon by (cases "canon s") auto

end


lemma clientIP_Some: "clientIP s = Some t \<Longrightarrow> \<exists>ip. ParseIP (TrimSpace s) = Some ip \<and> t = ipString ip \<and> length ip = 16
    \<and> TrimSpace t = t \<and> ParseIP t = Some ip"
  by (auto simp: clientIP_def dest: ParseIP_length ParseIP_canonical intro: ipString_TrimSpace)

definition serialForm :: "lib \<Rightarrow> string \<Rightarrow> string option" where
  "serialForm L s = (case bigSetString16 (normalizeSerial L s) of
     Some n \<Rightarrow> if n > 0 then Some (bigText16 n) else None
   | None \<Rightarrow> None)"

interpretation addresses: canonical clientIP
proof
  fix s t assume "clientIP s = Some t"
  then obtain ip where ip: "t = ipString ip" "TrimSpace t = t" "ParseIP t = Some ip" by (auto dest: clientIP_Some)
  then show "clientIP t = Some t" by (simp add: clientIP_def)
qed

interpretation serials: canonical "serialForm L" for L
proof
  fix s t assume "serialForm L s = Some t"
  then obtain n where "0 < n" "t = bigText16 n" by (auto simp: serialForm_def split: option.splits if_splits)
  then show "serialForm L t = Some t" by (simp add: serialForm_def normalizeSerial_bigText16)
qed

section \<open>Outcomes\<close>

lemma guar_publish_dbs: "guar (same (\<lambda>w. fs w (crlPath cfg))) (RebuildEncryptedCache L cfg ca st)"
  by (rule untouched_same) (auto intro!: path_intros)

lemma LoadCA_quiet: "LoadCA L c k w = (r, w') \<Longrightarrow> dbs w' = dbs w \<and> fs w' = fs w"
  by (rule conjI; erule guar_sameD [rotated]; rule guar_LoadCA; simp)

lemma opened_db:
  assumes "OpenStore p w = (Inr st, w')"
  obtains s where "st = p" "dbs w' p = Some s" "(\<And>s0. dbs w p = Some s0 \<Longrightarrow> s = sqlMigrate s0)"
    "dbs w p = None \<Longrightarrow> s = sqlMigrate emptyStore"
  using OpenStore_Inr [OF assms] by (auto intro: that)

text \<open>Revoking a certificate: the serial is in the table, the list on disk shows it, and nothing else in the tables
  changes. The command brings the serial into its form twice, which matters only for texts that are no serial.\<close>

lemma serialForm_Some: "serialForm L s = Some t \<Longrightarrow> \<exists>n > 0. t = bigText16 n \<and> normalizeSerial L s = t"
  by (auto simp: serialForm_def normalizeSerial_def Let_def split: option.splits if_splits)

lemma serialForm_again: "serialForm L s = Some t \<Longrightarrow> serialForm L (normalizeSerial L s) = Some t"
  by (frule serials.canon_canon, drule serialForm_Some) auto

lemma RevokeCert_form:
  assumes "RevokeCert L st x subj why w = (Inr u, w')" "dbs w st = Some s"
  obtains n t where "serialForm L x = Some (bigText16 n)" "0 < n" "dbs w' st = Some (sqlInsertRevoked (bigText16 n) subj why t s)"
  using assms by (elim RevokeCert_Inr) (auto simp: serialForm_def intro: that)

lemma RunRevokeCert_Inr:
  assumes run: "RunRevokeCert L cfg serial w = (Inr u, w')" and lib: "crlOk L" "pemOk L"
    and db: "dbs w (dbPath cfg) = Some s0"
  obtains ca n s' data crl where "serialForm L (normalizeSerial L serial) = Some (bigText16 n)" "0 < n" "validCA L ca"
    "dbs w' (dbPath cfg) = Some s'" "revokedKeys s' = insert (bigText16 n) (revokedKeys s0)"
    "clientKeys s' = clientKeys s0" "blockedKeys s' = blockedKeys s0" "certsTab s' = certsTab s0"
    "fs w' (crlPath cfg) = Some (File data o644)" "parseCRL L data = Inr crl" "crlCheckSignatureFrom L crl (Cert ca)"
    "entrySerial ` set (RevokedCertificateEntries crl) = {m. \<exists>x \<in> revokedKeys s'. bigSetString16 x = Some m}"
proof -
  let ?sn = "normalizeSerial L serial"
  from run obtain ca w1 st w2 w3 rec w4 subj w5 w6 where
    ca: "LoadCA L (caCertPath cfg) (caKeyPath cfg) w = (Inr ca, w1)" and op: "OpenStore (dbPath cfg) w1 = (Inr st, w2)" and
    al: "IsRevoked st ?sn w2 = (Inr False, w3)" and cs: "CertBySerial st ?sn w3 = (Inr rec, w4)" and
    rv: "RevokeCert L st ?sn subj crlReasonUnspecified w4 = (Inr (), w5)" and
    crl: "WriteCRL L cfg ca st w5 = (Inr (), w6)" and pub: "RebuildEncryptedCache L cfg ca st w6 = (Inr u, w')"
    by (auto simp: RunRevokeCert_def Let_def split: if_splits)
  note valid = LoadCA_valid [OF ca]
  have st: "st = dbPath cfg" and s: "dbs w2 st = Some (sqlMigrate s0)"
    using OpenStore_Inr [OF op] LoadCA_quiet [OF ca] db by simp_all
  note r3 = read_Inr(2) [OF s al]
  have "dbs w4 st = Some (sqlMigrate s0)" using r3 read_Inr(4) [OF _ cs] s by simp
  from RevokeCert_form [OF rv this] obtain n t where n: "serialForm L ?sn = Some (bigText16 n)" "0 < n" and
    s5: "dbs w5 st = Some (sqlInsertRevoked (bigText16 n) subj crlReasonUnspecified t (sqlMigrate s0))" .
  let ?s5 = "sqlInsertRevoked (bigText16 n) subj crlReasonUnspecified t (sqlMigrate s0)"
  from crl s5 lib valid obtain data l m where c: "fs w6 (crlPath cfg) = Some (File data o644)" "parseCRL L data = Inr l"
    "crlCheckSignatureFrom L l (Cert ca)" "entrySerial ` set (RevokedCertificateEntries l)
       = {m. \<exists>r \<in> set (revokedTab ?s5). bigSetString16 (rvSerialHex r) = Some m}"
    by (elim WriteCRL_Inr) (auto simp: validCA_def)
  from guarD [OF guar_crl_sameTables(1) crl] s5 obtain s6 where s6: "dbs w6 st = Some s6" "sameTables ?s5 s6"
    by (auto simp: storeRel_def)
  from guarD [OF guar_Rebuild_sameTables pub] s6(1) obtain s7 where s7: "dbs w' st = Some s7" "sameTables s6 s7"
    by (auto simp: storeRel_def)
  note same = sameTablesD [OF s6(2)] sameTablesD [OF s7(2)]
  have "fs w' (crlPath cfg) = fs w6 (crlPath cfg)" using guar_sameD [OF guar_publish_dbs pub] by simp
  moreover have "entrySerial ` set (RevokedCertificateEntries l) = {m. \<exists>x \<in> revokedKeys s7. bigSetString16 x = Some m}"
    using c(4) same by (auto simp: revokedKeys_def)
  moreover have "certsTab s7 = certsTab s0" using same by (simp add: sql_defs)
  ultimately show thesis
    using that [of n ca s7 data l] n valid s7(1) c st same by simp
qed


text \<open>Blocking, unblocking and deregistering: the tables afterwards.\<close>

lemma RemoveClient_Inr:
  assumes "RemoveClient st ip w = (Inr u, w')" "dbs w st = Some s"
  shows "dbs w' st = Some (sqlDeleteClient (TrimSpace ip) s)"
  using assms unfolding RemoveClient_def by (elim sqlExec_Inr) simp

lemma UnblockIP_Inr:
  assumes "UnblockIP st ip w = (Inr u, w')" "dbs w st = Some s"
  shows "dbs w' st = Some (sqlDeleteBlock (TrimSpace ip) s)"
  using assms unfolding UnblockIP_def by (elim sqlExec_Inr) simp

lemma published:
  assumes "RebuildEncryptedCache L cfg ca st w = (r, w')" "dbs w st = Some s"
  obtains s' where "dbs w' st = Some s'" "sameTables s s'"
  using guarD [OF guar_Rebuild_sameTables assms(1)] assms(2) by (auto simp: storeRel_def)

lemma RunBlockClient_Inr:
  assumes run: "RunBlockClient L cfg ip0 why w = (Inr u, w')" and db: "dbs w (dbPath cfg) = Some s0"
  obtains ip s' where "clientIP ip0 = Some ip" "dbs w' (dbPath cfg) = Some s'" "blockedKeys s' = insert ip (blockedKeys s0)"
    "clientKeys s' = clientKeys s0 - {ip}" "revokedKeys s' = revokedKeys s0" "certsTab s' = certsTab s0"
proof -
  from run obtain ip ca w1 st w2 w3 w4 where ip: "clientIP ip0 = Some ip" and
    ca: "LoadCA L (caCertPath cfg) (caKeyPath cfg) w = (Inr ca, w1)" and op: "OpenStore (dbPath cfg) w1 = (Inr st, w2)" and
    bl: "BlockIP st ip why w2 = (Inr (), w3)" and rm: "RemoveClient st ip w3 = (Inr (), w4)" and
    pub: "RebuildEncryptedCache L cfg ca st w4 = (Inr u, w')"
    by (auto simp: RunBlockClient_def)
  have st: "st = dbPath cfg" and s: "dbs w2 st = Some (sqlMigrate s0)"
    using OpenStore_Inr [OF op] LoadCA_quiet [OF ca] db by simp_all
  have trim: "TrimSpace ip = ip" using clientIP_Some [OF ip] by blast
  from bl s obtain t where s3: "dbs w3 st = Some (sqlUpsertBlock ip why t (sqlMigrate s0))"
    by (elim BlockIP_Inr) (auto simp: trim)
  from RemoveClient_Inr [OF rm this] have s4: "dbs w4 st = Some (sqlDeleteClient ip (sqlUpsertBlock ip why t (sqlMigrate s0)))"
    by (simp add: trim)
  from published [OF pub s4] obtain s' where s': "dbs w' st = Some s'"
    "sameTables (sqlDeleteClient ip (sqlUpsertBlock ip why t (sqlMigrate s0))) s'" .
  note same = sameTablesD [OF s'(2)]
  have "certsTab s' = certsTab s0" using same(2) by (simp add: sql_defs)
  then show thesis using that [OF ip] s'(1) st same by simp
qed

lemma RunUnblockClient_Inr:
  assumes run: "RunUnblockClient L cfg ip0 w = (Inr u, w')" and db: "dbs w (dbPath cfg) = Some s0"
  obtains ip s' where "clientIP ip0 = Some ip" "ip \<in> blockedKeys s0" "dbs w' (dbPath cfg) = Some s'"
    "blockedKeys s' = blockedKeys s0 - {ip}" "clientKeys s' = clientKeys s0" "revokedKeys s' = revokedKeys s0"
    "certsTab s' = certsTab s0"
proof -
  from run obtain ip ca w1 st w2 w3 w4 where ip: "clientIP ip0 = Some ip" and
    ca: "LoadCA L (caCertPath cfg) (caKeyPath cfg) w = (Inr ca, w1)" and op: "OpenStore (dbPath cfg) w1 = (Inr st, w2)" and
    bl: "IsBlocked st ip w2 = (Inr True, w3)" and un: "UnblockIP st ip w3 = (Inr (), w4)" and
    pub: "RebuildEncryptedCache L cfg ca st w4 = (Inr u, w')"
    by (auto simp: RunUnblockClient_def split: if_splits)
  have st: "st = dbPath cfg" and s: "dbs w2 st = Some (sqlMigrate s0)"
    using OpenStore_Inr [OF op] LoadCA_quiet [OF ca] db by simp_all
  have trim: "TrimSpace ip = ip" using clientIP_Some [OF ip] by blast
  from read_Inr(1) [OF s bl] have b: "ip \<in> blockedKeys s0" "dbs w3 = dbs w2" by (simp_all add: trim)
  have s4: "dbs w4 st = Some (sqlDeleteBlock ip (sqlMigrate s0))" using UnblockIP_Inr [OF un] s b(2) trim by simp
  from published [OF pub this] obtain s' where s': "dbs w' st = Some s'" "sameTables (sqlDeleteBlock ip (sqlMigrate s0)) s'" .
  note same = sameTablesD [OF s'(2)]
  have "certsTab s' = certsTab s0" using same(2) by (simp add: sql_defs)
  then show thesis using that [OF ip] b(1) s'(1) st same by simp
qed

lemma RunDeregisterClient_Inr:
  assumes run: "RunDeregisterClient L cfg ip0 w = (Inr u, w')" and db: "dbs w (dbPath cfg) = Some s0"
  obtains ip s' where "clientIP ip0 = Some ip" "ip \<in> clientKeys s0" "dbs w' (dbPath cfg) = Some s'"
    "clientKeys s' = clientKeys s0 - {ip}" "blockedKeys s' = blockedKeys s0" "revokedKeys s' = revokedKeys s0"
    "certsTab s' = certsTab s0"
proof -
  from run obtain ip ca w1 st w2 ex w3 w4 where ip: "clientIP ip0 = Some ip" and
    ca: "LoadCA L (caCertPath cfg) (caKeyPath cfg) w = (Inr ca, w1)" and op: "OpenStore (dbPath cfg) w1 = (Inr st, w2)" and
    ls: "ListClients st w2 = (Inr ex, w3)" "ip \<in> set ex" and rm: "RemoveClient st ip w3 = (Inr (), w4)" and
    pub: "RebuildEncryptedCache L cfg ca st w4 = (Inr u, w')"
    by (auto simp: RunDeregisterClient_def split: if_splits)
  have st: "st = dbPath cfg" and s: "dbs w2 st = Some (sqlMigrate s0)"
    using OpenStore_Inr [OF op] LoadCA_quiet [OF ca] db by simp_all
  have trim: "TrimSpace ip = ip" using clientIP_Some [OF ip] by blast
  from ls s have b: "ip \<in> clientKeys s0" "dbs w3 = dbs w2"
    by (auto simp: ListClients_def clientKeys_def sqlMigrate_def elim!: sqlQuery_Inr)
  have s4: "dbs w4 st = Some (sqlDeleteClient ip (sqlMigrate s0))" using RemoveClient_Inr [OF rm] s b(2) trim by simp
  from published [OF pub this] obtain s' where s': "dbs w' st = Some s'" "sameTables (sqlDeleteClient ip (sqlMigrate s0)) s'" .
  note same = sameTablesD [OF s'(2)]
  have "certsTab s' = certsTab s0" using same(2) by (simp add: sql_defs)
  then show thesis using that [OF ip] b(1) s'(1) st same by simp
qed


text \<open>Reissuing is one step for the database, and it comes after the new files: whatever happens, either the tables are as
  before, or the new certificate is recorded, every other one of the subject is revoked, and the certificate on disk is the
  new one.\<close>

definition replacedBy :: "CertRecord \<Rightarrow> store \<Rightarrow> store \<Rightarrow> bool" where
  "replacedBy rec s s' \<longleftrightarrow> certsTab s' = certsTab (sqlUpsertCert rec s)
     \<and> revokedKeys s' = revokedKeys s \<union> {SerialHex c | c. c \<in> set (certsTab s')
          \<and> asciiLower (crSubject c) = asciiLower (crSubject rec) \<and> SerialHex c \<noteq> SerialHex rec}
     \<and> clientKeys s' = clientKeys s \<and> blockedKeys s' = blockedKeys s"

definition reissued :: "lib \<Rightarrow> Config \<Rightarrow> string \<Rightarrow> world \<Rightarrow> world \<Rightarrow> bool" where
  "reissued L cfg subject w w' \<longleftrightarrow> (\<forall>s. dbs w (dbPath cfg) = Some s \<longrightarrow> (\<exists>s'. dbs w' (dbPath cfg) = Some s' \<and>
     (sameTables s s' \<or> (\<exists>rec. crSubject rec = subject \<and> replacedBy rec s s'
        \<and> fs w' (issuedBase L cfg subject @ ''.crt'') = Some (File (CertPEM rec) o644)))))"

lemma replacedBy_same:
  assumes "sameTables s s1" "replacedBy rec s1 s2" "sameTables s2 s3"
  shows "replacedBy rec s s3"
  using assms(2) sameTablesD [OF assms(1)] sameTablesD [OF assms(3)]
  by (simp add: replacedBy_def sqlUpsertCert_def)

lemma sameTables_trans: "sameTables s s' \<Longrightarrow> sameTables s' s'' \<Longrightarrow> sameTables s s''"
  by (simp add: sameTables_def)

text \<open>What keeps the tables before and after may be put around it.\<close>

lemma reissued_around:
  assumes "storeRel sameTables w w1" "reissued L cfg subject w1 w2" "storeRel sameTables w2 w3"
    "fs w3 (issuedBase L cfg subject @ ''.crt'') = fs w2 (issuedBase L cfg subject @ ''.crt'')"
  shows "reissued L cfg subject w w3"
  unfolding reissued_def
proof (intro allI impI)
  fix s assume "dbs w (dbPath cfg) = Some s"
  with assms(1) obtain s1 where s1: "dbs w1 (dbPath cfg) = Some s1" "sameTables s s1" by (auto simp: storeRel_def)
  with assms(2) obtain s2 where s2: "dbs w2 (dbPath cfg) = Some s2" "sameTables s1 s2 \<or> (\<exists>rec. crSubject rec = subject
      \<and> replacedBy rec s1 s2 \<and> fs w2 (issuedBase L cfg subject @ ''.crt'') = Some (File (CertPEM rec) o644))"
    by (auto simp: reissued_def)
  with assms(3) obtain s3 where s3: "dbs w3 (dbPath cfg) = Some s3" "sameTables s2 s3" by (auto simp: storeRel_def)
  with s1 s2 assms(4) show "\<exists>s'. dbs w3 (dbPath cfg) = Some s' \<and> (sameTables s s' \<or> (\<exists>rec. crSubject rec = subject
      \<and> replacedBy rec s s' \<and> fs w3 (issuedBase L cfg subject @ ''.crt'') = Some (File (CertPEM rec) o644)))"
    by (auto intro: sameTables_trans replacedBy_same)
qed

lemma reissued_same: "storeRel sameTables w w' \<Longrightarrow> reissued L cfg subject w w'"
  unfolding reissued_def storeRel_def by blast

lemma guar_reissued_before:
  assumes "guar (storeRel sameTables) m" "\<And>x w w'. m w = (Inr x, w') \<Longrightarrow> guar (reissued L cfg subject) (k x)"
  shows "guar (reissued L cfg subject) (bnd m k)"
proof (rule guarI)
  fix w
  obtain r w1 where m: "m w = (r, w1)" by (cases "m w")
  note 1 = guarD [OF assms(1) m]
  show "reissued L cfg subject w (snd (bnd m k w))"
  proof (cases r)
    case (Inl e)
    with m 1 show ?thesis by (simp add: reissued_same)
  next
    case (Inr x)
    have "reissued L cfg subject w1 (snd (k x w1))" using assms(2) [of w x w1] m Inr by (simp add: guar_def)
    moreover have "storeRel sameTables (snd (k x w1)) (snd (k x w1))" by (rule preord_refl) (simp add: storeRel_preord)
    ultimately have "reissued L cfg subject w (snd (k x w1))" using 1 by (auto intro: reissued_around)
    with m Inr show ?thesis by simp
  qed
qed

lemma sqlRevokeOthers_replacedBy:
  "replacedBy rec s (sqlRevokeOthers (crSubject rec) (SerialHex rec) why t (sqlUpsertCert rec s))"
  by (auto simp: replacedBy_def sqlRevokeOthers_keys)


lemma issuedCrt_neq:
  "issuedBase L cfg t @ ''.crt'' \<noteq> crlPath c" "issuedBase L cfg t @ ''.crt'' \<noteq> cachePath c"
  "issuedBase L cfg t @ ''.crt'' \<noteq> p @ ''.lock''"
proof -
  have "last (baseName (issuedBase L cfg t @ ''.crt'')) = CHR ''t''" by (simp add: baseName_issued)
  then show "issuedBase L cfg t @ ''.crt'' \<noteq> crlPath c" "issuedBase L cfg t @ ''.crt'' \<noteq> cachePath c"
    by (auto dest: arg_cong [of _ _ "last \<circ> baseName"])
qed simp

lemma guar_reissued_locked:
  assumes "guar (reissued L cfg subject) m"
  shows "guar (reissued L cfg subject) (withLock p m)"
proof -
  have "guar (reissued L cfg subject) (deferred (unlockFile p) m)"
  proof (rule guarI)
    fix w
    have "reissued L cfg subject w (snd (m w))" using assms by (simp add: guar_def)
    moreover have "storeRel sameTables (snd (m w)) (snd (deferred (unlockFile p) m w))"
      by (simp add: unlockFile_def storeRel_def sameTables_def)
    moreover have "storeRel sameTables w w" by (simp add: storeRel_def sameTables_def)
    ultimately show "reissued L cfg subject w (snd (deferred (unlockFile p) m w))"
      by (auto intro: reissued_around simp: unlockFile_def)
  qed
  moreover have "guar (storeRel sameTables) (lockFile p)" by (rule blind_intros) simp
  ultimately show ?thesis unfolding withLock_def by (auto intro: guar_reissued_before)
qed

lemma guar_OpenStore_sameTables: "guar (storeRel sameTables) (OpenStore h)"
proof -
  have m: "guar (storeRel sameTables) (modify (\<lambda>w. w\<lparr>dbs := (dbs w)(h \<mapsto>
       sqlMigrate (case dbs w h of None \<Rightarrow> emptyStore | Some s \<Rightarrow> s))\<rparr>))"
    by (auto simp: guar_def storeRel_def sameTables_def sqlMigrate_def)
  show ?thesis unfolding OpenStore_def by (auto intro!: guar_intros m)
qed

lemma guar_tail_reissued:
  assumes "fs w (issuedBase L cfg subject @ ''.crt'') = Some (File (CertPEM rec) o644)" "crSubject rec = subject"
    "bnd (replaceCertificate (dbPath cfg) rec) (\<lambda>n.
      bnd (onErr f (WriteCRL L cfg ca (dbPath cfg))) (\<lambda>_.
      bnd (onErr g (RebuildEncryptedCache L cfg ca (dbPath cfg))) (\<lambda>_. ret n))) w = (r, w')"
  shows "reissued L cfg subject w w'"
proof -
  let ?tail = "\<lambda>n :: int. bnd (onErr f (WriteCRL L cfg ca (dbPath cfg))) (\<lambda>_.
      bnd (onErr g (RebuildEncryptedCache L cfg ca (dbPath cfg))) (\<lambda>_. ret n))"
  let ?crt = "issuedBase L cfg subject @ ''.crt''"
  obtain r1 w1 where rep: "replaceCertificate (dbPath cfg) rec w = (r1, w1)" by (cases "replaceCertificate (dbPath cfg) rec w")
  show ?thesis
  proof (cases r1)
    case (Inl e)
    with rep assms(3) have "dbs w' = dbs w" by (auto dest: replaceCertificate_Inl)
    then show ?thesis by (intro reissued_same) (simp add: storeRel_def sameTables_def)
  next
    case (Inr n)
    with rep assms(3) have t: "?tail n w1 = (r, w')" by simp
    have "guar (storeRel sameTables) (?tail n)" by (auto intro!: guar_intros rel_intros)
    with t have 2: "storeRel sameTables w1 w'" by (rule guarD [rotated])
    have "guar (untouched ?crt) (?tail n)"
      by (auto intro!: guar_intros path_intros simp: issuedCrt_neq)
    from guar_sameD [OF untouched_same [OF this] t] have f: "fs w' ?crt = fs w1 ?crt" .
    have "guar (untouched ?crt) (replaceCertificate (dbPath cfg) rec)"
      unfolding replaceCertificate_def sqlExec_def by (auto intro!: guar_intros db_intros simp: Let_def)
    from guar_sameD [OF untouched_same [OF this] rep] have f1: "fs w1 ?crt = fs w ?crt" .
    from rep Inr obtain s t where s: "dbs w (dbPath cfg) = Some s" "dbs w1 = (dbs w)(dbPath cfg \<mapsto>
        sqlRevokeOthers (crSubject rec) (SerialHex rec) crlReasonSuperseded t (sqlUpsertCert rec s))"
      by (auto elim: replaceCertificate_Inr)
    then have "reissued L cfg subject w w1"
      unfolding reissued_def using assms(1,2) f1 sqlRevokeOthers_replacedBy by fastforce
    from reissued_around [OF _ this 2 f] show ?thesis by (simp add: storeRel_def sameTables_def)
  qed
qed

lemma publishReissued_atomic: "guar (reissued L cfg subject) (publishReissued L cfg subject ca (dbPath cfg) res)"
proof (rule guarI)
  fix w
  obtain r1 w1 where wr: "writeIssuedFiles L cfg subject res w = (r1, w1)" by (cases "writeIssuedFiles L cfg subject res w")
  have g: "guar (storeRel sameTables) (writeIssuedFiles L cfg subject res)" by (rule blind_intros) simp
  note 1 = guarD [OF g wr]
  show "reissued L cfg subject w (snd (publishReissued L cfg subject ca (dbPath cfg) res w))"
  proof (cases "r1 = Inr () \<and> resCert res \<noteq> None")
    case False
    with wr 1 show ?thesis by (cases r1) (auto simp: reissued_same publishReissued_def)
  next
    case True
    then obtain cert where c: "resCert res = Some cert" by auto
    let ?rec = "certRecord cert (resCertPEM res)\<lparr>crSubject := subject\<rparr>"
    let ?rest = "bnd (replaceCertificate (dbPath cfg) ?rec) (\<lambda>n.
      bnd (onErr (Wrap ''reissued in DB, but CRL update failed'') (WriteCRL L cfg ca (dbPath cfg))) (\<lambda>_.
      bnd (onErr (Wrap ''reissued, but snapshot update failed'') (RebuildEncryptedCache L cfg ca (dbPath cfg))) (\<lambda>_. ret n)))"
    obtain r w' where rest: "?rest w1 = (r, w')" by (cases "?rest w1")
    from writeIssuedFiles_Inr(2) wr True have "fs w1 (issuedBase L cfg subject @ ''.crt'') = Some (File (CertPEM ?rec) o644)"
      by simp
    from guar_tail_reissued [OF this _ rest] have "reissued L cfg subject w1 w'" by simp
    from reissued_around [OF 1 this] have "reissued L cfg subject w w'" by (simp add: storeRel_def sameTables_def)
    with wr True c rest show ?thesis by (simp add: publishReissued_def)
  qed
qed

lemma RunReissueCert_atomic: "guar (reissued L cfg (canonicalTarget L subject)) (RunReissueCert L cfg subject local)"
proof -
  let ?t = "canonicalTarget L subject"
  have lock: "guar (reissued L cfg ?t) (lockIssuance L cfg ?t (publishReissued L cfg ?t ca (dbPath cfg) res))" for ca res
    unfolding lockIssuance_def
    by (rule guar_reissued_before) (auto intro!: blind_intros guar_reissued_locked publishReissued_atomic)

  have "guar (reissued L cfg ?t) (bnd (LoadCA L (caCertPath cfg) (caKeyPath cfg)) (\<lambda>ca. bnd (OpenStore (dbPath cfg)) (\<lambda>st.
    bnd (Issue L ca ?t [] local) (\<lambda>res. lockIssuance L cfg ?t (publishReissued L cfg ?t ca st res)))))"
    by (intro guar_reissued_before)
      (auto intro!: guar_intros guar_OpenStore_sameTables lock dest!: OpenStore_Inr(1))
  moreover have "guar (reissued L cfg ?t) (throw e)" for e
  proof (rule guarI)
    fix w
    have "storeRel sameTables w w" by (simp add: storeRel_def sameTables_def)
    then show "reissued L cfg ?t w (snd (throw e w))" by (simp add: reissued_same)
  qed
  ultimately show ?thesis unfolding RunReissueCert_def Let_def by (rule guar_if [rotated])
qed

end
