(* ===== verification/MasterLife.thy ===== *)
theory MasterLife
  imports Admin
begin

text \<open>
  The life of a master: what its listeners are asked, what its administrator runs and its restarts, in any order and
  with any failures in between (\<open>life\<close>). The handlers and commands serialise on the database, so a life is a
  sequence of whole operations.

  A relation every operation keeps holds between the first and the last state of every life (\<open>life_rel\<close>); from it
  follow the invariants of the database, that a revocation is for ever, and that a blocked client stays out until it is
  unblocked.
\<close>

datatype masterEvent =
    BootstrapReq httpRequest
  | ControlReq httpRequest
  | RevokeCmd string
  | ReissueCmd string bool
  | IssueCmd string bool
  | DeregisterCmd string
  | BlockCmd string string
  | UnblockCmd string
  | ListCmd
  | Restart "error + string" "error + string list"

text \<open>A process that ends, at the end of an operation or not, gives its locks back.\<close>

definition fresh :: "world \<Rightarrow> world" where
  "fresh w = w\<lparr>held := []\<rparr>"

fun masterRun :: "lib \<Rightarrow> Config \<Rightarrow> CA \<Rightarrow> masterEvent \<Rightarrow> world \<Rightarrow> world" where
  "masterRun L cfg ca (BootstrapReq r) w = snd (serve (bootstrapHandler L cfg ca (dbPath cfg)) r w)"
| "masterRun L cfg ca (ControlReq r) w = snd (serve (controlHandler L cfg ca (dbPath cfg)) r w)"
| "masterRun L cfg ca (RevokeCmd x) w = snd (RunRevokeCert L cfg x w)"
| "masterRun L cfg ca (ReissueCmd x l) w = snd (RunReissueCert L cfg x l w)"
| "masterRun L cfg ca (IssueCmd x l) w = snd (RunIssueCLI L cfg x l w)"
| "masterRun L cfg ca (DeregisterCmd ip) w = snd (RunDeregisterClient L cfg ip w)"
| "masterRun L cfg ca (BlockCmd ip why) w = snd (RunBlockClient L cfg ip why w)"
| "masterRun L cfg ca (UnblockCmd ip) w = snd (RunUnblockClient L cfg ip w)"
| "masterRun L cfg ca ListCmd w = snd (RunListCerts cfg w)"
| "masterRun L cfg ca (Restart name ips) w = snd (RunMaster L name ips cfg (fresh w))"

inductive life :: "lib \<Rightarrow> Config \<Rightarrow> CA \<Rightarrow> world \<Rightarrow> masterEvent list \<Rightarrow> world \<Rightarrow> bool" for L cfg ca where
  start: "life L cfg ca w [] w"
| go_on: "life L cfg ca w es w1 \<Longrightarrow> w2 = masterRun L cfg ca e w1 \<Longrightarrow> life L cfg ca w (es @ [e]) w2"

inductive_cases life_NilE: "life L cfg ca w [] w'"
inductive_cases life_snocE: "life L cfg ca w (es @ [e]) w'"

lemma life_total: "\<exists>w'. life L cfg ca w es w'"
  by (induction es rule: rev_induct) (auto intro: life.intros)

section \<open>Relations along a life\<close>

lemma snd_serve: "snd (serve h r w) = snd (h r w)"
  by (auto simp: serve_def split: prod.splits sum.splits)

lemma guar_IssueServerCert [guar_intros]: "quiet R \<Longrightarrow> guar R (IssueServerCert L ca hosts)"
  unfolding IssueServerCert_def Let_def by (auto intro!: guar_intros)

lemma guar_RunMaster:
  assumes "adminBase L cfg R"
  shows "guar R (RunMaster L name ips cfg)"
proof -
  note R = adminBaseD [OF assms]
  have q: "quiet R" "preord R" using R(1) by simp_all
  show ?thesis unfolding RunMaster_def Let_def by (auto simp: R q intro!: guar_intros guar_opened)
qed

lemma fileBlind_fresh: "fileBlind R \<Longrightarrow> R w (fresh w)"
  by (simp add: fresh_def fileBlind_def)

lemma restart_rel:
  assumes "adminBase L cfg R"
  shows "R w (masterRun L cfg ca (Restart name ips) w)"
proof -
  have f: "fileBlind R" "preord R" using adminBaseD(1) [OF assms] by simp_all
  have "R (fresh w) (snd (RunMaster L name ips cfg (fresh w)))" using guar_RunMaster [OF assms] by (simp add: guar_def)
  with fileBlind_fresh [OF f(1)] have "R w (snd (RunMaster L name ips cfg (fresh w)))" by (rule preord_trans [OF f(2)])
  then show ?thesis by simp
qed

lemma masterRun_rel:
  assumes R: "adminRel L cfg R"
  shows "R w (masterRun L cfg ca e w)"
proof -
  have m: "masterRel L cfg ca (dbPath cfg) R" and u: "guar R (UnblockIP (dbPath cfg) ip)" for ip
    using R by (auto simp: adminRel_def)
  note runs = guar_admin [OF adminRelD [OF R]] guar_handlers [OF m]
  show ?thesis using runs u restart_rel [OF adminRelD [OF R]] by (cases e) (auto simp: guar_def snd_serve)
qed

lemma life_keeps:
  assumes "life L cfg ca w es w'" "preord R" "\<And>e v. e \<in> set es \<Longrightarrow> R v (masterRun L cfg ca e v)"
  shows "R w w'"
  using assms
proof (induction rule: life.induct)
  case (start w)
  then show ?case by (simp add: preord_refl)
next
  case (go_on w es w1 w2 e)
  then have "R w w1" by simp
  moreover have "R w1 w2" using go_on by simp
  ultimately show ?case by (rule preord_trans [OF go_on.prems(1)])
qed

lemma life_rel: "life L cfg ca w es w' \<Longrightarrow> adminRel L cfg R \<Longrightarrow> R w w'"
  by (erule life_keeps) (auto intro: masterRun_rel simp: adminRel_def adminBase_def)


section \<open>Revocation is for ever\<close>

lemma life_revoked:
  assumes "life L cfg ca w es w'" "dbs w (dbPath cfg) = Some s"
  obtains s' where "dbs w' (dbPath cfg) = Some s'" "revokedKeys s \<subseteq> revokedKeys s'"
  using life_rel [OF assms(1) adminRel_grows] assms(2) that
  unfolding storeRel_def grows_def by blast

lemma revoked_unauthorized:
  assumes "PeerCertificates tls = cert # rest" "TLS r = Some tls" "bigText16 (SerialNumber cert) \<in> revokedKeys s"
  shows "\<not> authorized L s r"
proof
  assume "authorized L s r"
  then obtain c ip where p: "presentedIdentity r = Some (c, ip)" and n: "bigText16 (SerialNumber c) \<notin> revokedKeys s"
    by (auto simp: authorized_def)
  from p assms(1,2) have "c = cert" by (auto simp: presentedIdentity_def Let_def split: if_splits)
  with n assms(3) show False by simp
qed

section \<open>A blocked client stays out\<close>

definition outside :: "string \<Rightarrow> store \<Rightarrow> bool" where
  "outside ip s \<longleftrightarrow> ip \<in> blockedKeys s \<and> ip \<notin> clientKeys s"

definition storeAt :: "string \<Rightarrow> (store \<Rightarrow> store \<Rightarrow> bool) \<Rightarrow> world \<Rightarrow> world \<Rightarrow> bool" where
  "storeAt st Q w w' \<longleftrightarrow> (\<forall>s. dbs w st = Some s \<longrightarrow> (\<exists>s'. dbs w' st = Some s' \<and> Q s s'))"

lemma storeRel_storeAt: "storeRel Q w w' \<Longrightarrow> storeAt st Q w w'"
  by (simp add: storeRel_def storeAt_def)

lemma storeAt_mono: "storeAt st Q w w' \<Longrightarrow> (\<And>s s'. Q s s' \<Longrightarrow> Q' s s') \<Longrightarrow> storeAt st Q' w w'"
  unfolding storeAt_def by blast

lemma preord_storeAt: "preord Q \<Longrightarrow> preord (storeAt st Q)"
  unfolding preord_def reflp_def transp_def storeAt_def by (intro conjI allI impI) (blast, metis)

lemma storeAt_same: "dbs w' = dbs w \<Longrightarrow> preord Q \<Longrightarrow> storeAt st Q w w'"
  by (simp add: storeAt_def preord_refl)

lemma guar_register_any:
  "guar (storeRel (mayAdd (\<lambda>_. True) {host (RemoteAddr r)})) (registerHandler L cfg ca st r)"
  unfolding registerHandler_def issueIdentity_def saveIdentity_def Let_def
  by (auto intro!: guar_intros guar_AddCert_mayAdd guar_registerClient_mayAdd guar_publish_mayAdd)

lemma register_outside:
  assumes "TrimSpace ip = ip"
  shows "storeAt st (keepsP (outside ip)) w (snd (registerHandler L cfg ca st r w))"
  unfolding storeAt_def
proof (intro allI impI)
  fix s assume db: "dbs w st = Some s"
  obtain res w' where run: "registerHandler L cfg ca st r w = (res, w')" by (cases "registerHandler L cfg ca st r w")
  from guarD [OF guar_register_any run] db obtain s' where s': "dbs w' st = Some s'"
    "mayAdd (\<lambda>_. True) {host (RemoteAddr r)} s s'" unfolding storeRel_def by blast
  have "keepsP (outside ip) s s'"
  proof (cases "host (RemoteAddr r) = ip \<and> ip \<in> blockedKeys s")
    case True
    with assms have "\<not> mayEnrol cfg s r" by (simp add: mayEnrol_def)
    from registerHandler_refused [OF db this, of L ca] run have "dbs w' = dbs w" by (metis snd_conv)
    with db s' show ?thesis by (simp add: keepsP_def)
  next
    case False
    with s'(2) show ?thesis by (auto simp: keepsP_def outside_def mayAdd_def blockedKeys_def)
  qed
  with s'(1) run show "\<exists>s'. dbs (snd (registerHandler L cfg ca st r w)) st = Some s' \<and> keepsP (outside ip) s s'" by auto
qed


lemma bootstrapHandler_cases:
  "bootstrapHandler L cfg ca st r = registerHandler L cfg ca st r \<or> guar (same dbs) (bootstrapHandler L cfg ca st r)"
proof (cases "(Method r \<noteq> ''CONNECT'' \<and> cleanPath (URLPath r) \<noteq> URLPath r) \<or> URLPath r \<noteq> ''/acme/register''")
  case True
  then have "guar (same dbs) (bootstrapHandler L cfg ca st r)"
    by (auto simp: bootstrapHandler_def mux_def intro!: guar_intros)
  then show ?thesis ..
next
  case False
  then show ?thesis by (auto simp: bootstrapHandler_def mux_def)
qed

lemma guar_control_any: "guar (storeRel (mayAdd (\<lambda>_. True) {})) (controlHandler L cfg ca st r)"
  unfolding controlHandler_def controlRoutes_def signHandler_def issueLoopback_def crlHandler_def
  by (auto intro!: guar_authorizeClient guar_mux guar_intros guar_AddCert_mayAdd guar_publish_mayAdd)

lemma mayAdd_outside: "mayAdd P {} s s' \<Longrightarrow> keepsP (outside ip) s s'"
  by (auto simp: keepsP_def outside_def mayAdd_def blockedKeys_def)

lemma adminBase_outside: "adminBase L cfg (storeRel (keepsP (outside ip)))"
proof -
  have q: "preord (keepsP (outside ip))" by simp
  have s: "guar (storeRel sameTables) m \<Longrightarrow> guar (storeRel (keepsP (outside ip))) m" for m :: "'a io"
    by (erule guar_mono, erule storeRel_mono) (simp add: keepsP_def outside_def sameTablesD)
  note pub = guar_OpenStore_sameTables [THEN s] guar_Rebuild_sameTables [THEN s] guar_crl_sameTables [THEN s]
  show ?thesis
    by (auto simp: adminBase_def pub write_method_defs replaceCertificate_def Let_def intro!: guar_intros rel_intros)
      (auto simp: keepsP_def outside_def)
qed

lemma masterRun_outside:
  assumes "TrimSpace ip = ip" "\<forall>x. e = UnblockCmd x \<longrightarrow> clientIP x \<noteq> Some ip"
  shows "storeAt (dbPath cfg) (keepsP (outside ip)) w (masterRun L cfg ca e w)"
proof (cases e)
  case (BootstrapReq r)
  from bootstrapHandler_cases [of L cfg ca "dbPath cfg" r]
  have "storeAt (dbPath cfg) (keepsP (outside ip)) w (snd (bootstrapHandler L cfg ca (dbPath cfg) r w))"
  proof
    assume "bootstrapHandler L cfg ca (dbPath cfg) r = registerHandler L cfg ca (dbPath cfg) r"
    then show ?thesis using register_outside [OF assms(1)] by simp
  qed (simp add: guar_def same_def storeAt_same)
  with BootstrapReq show ?thesis by (simp add: snd_serve)
next
  case (ControlReq r)
  have "storeRel (mayAdd (\<lambda>_. True) {}) w (snd (controlHandler L cfg ca (dbPath cfg) r w))"
    using guar_control_any by (simp add: guar_def)
  then have "storeAt (dbPath cfg) (mayAdd (\<lambda>_. True) {}) w (snd (controlHandler L cfg ca (dbPath cfg) r w))"
    by (rule storeRel_storeAt)
  with ControlReq show ?thesis by (auto simp: snd_serve intro: storeAt_mono mayAdd_outside)
next
  case (UnblockCmd x)
  have "guar (storeRel (keepsP (outside ip))) (UnblockIP (dbPath cfg) y)" if "clientIP x = Some y" for y
  proof -
    have "TrimSpace y \<noteq> ip" using that assms UnblockCmd by (auto dest: clientIP_Some)
    then show ?thesis by (auto simp: UnblockIP_def sqlExec_def keepsP_def outside_def intro!: rel_intros)
  qed
  then have "guar (storeRel (keepsP (outside ip))) (RunUnblockClient L cfg x)"
    by (intro guar_admin(10) adminBase_outside)
  with UnblockCmd show ?thesis by (auto simp: guar_def intro!: storeRel_storeAt)
next
  case (Restart name ips)
  show ?thesis using restart_rel [OF adminBase_outside] by (simp only: Restart) (rule storeRel_storeAt)
qed (use guar_admin [OF adminBase_outside] in \<open>auto simp: guar_def intro!: storeRel_storeAt\<close>)

lemma life_outside:
  assumes "life L cfg ca w es w'" "dbs w (dbPath cfg) = Some s" "outside ip s" "TrimSpace ip = ip"
    "\<forall>x. UnblockCmd x \<in> set es \<longrightarrow> clientIP x \<noteq> Some ip"
  obtains s' where "dbs w' (dbPath cfg) = Some s'" "outside ip s'"
proof -
  have "storeAt (dbPath cfg) (keepsP (outside ip)) w w'"
    using assms(1) preord_storeAt [OF preord_keepsP]
    by (rule life_keeps) (use assms(4,5) in \<open>auto intro!: masterRun_outside\<close>)
  with assms(2,3) that show thesis by (auto simp: storeAt_def keepsP_def)
qed

lemma outside_unauthorized:
  assumes "outside ip s" "presentedIdentity r = Some (cert, ip)"
  shows "\<not> authorized L s r"
  using assms by (auto simp: authorized_def outside_def)

lemma outside_refused: "outside ip s \<Longrightarrow> TrimSpace ip = ip \<Longrightarrow> host (RemoteAddr r) = ip \<Longrightarrow> \<not> mayEnrol cfg s r"
  by (auto simp: mayEnrol_def outside_def)

end
