(* ===== verification/AccessSpec.thy ===== *)
theory AccessSpec
  imports MasterLife
begin

text \<open>
  What the master promises about access, without tables, files and programs: a state is who is registered, who is
  blocked, which serials are revoked and which names the recorded certificates have. \<open>accStep\<close> says what one event
  may do to it: the change that belongs to the event, or nothing (the event was refused or failed on the way).

  The refinement: every run of the model of the master, whatever fails in it, is a run of this specification under
  \<open>accessOf\<close>. What is then shown on the specification alone holds of the program.
\<close>

record access =
  registered :: "string set"
  blocked :: "string set"
  revoked :: "string set"
  issued :: "string \<rightharpoonup> string"

definition accessOf :: "store \<Rightarrow> access" where
  "accessOf s = \<lparr>registered = clientKeys s, blocked = blockedKeys s, revoked = revokedKeys s,
     issued = (\<lambda>k. map_option crSubject (getKey ID k (certsTab s)))\<rparr>"

text \<open>New certificates bear a name of \<open>T\<close>; nothing else is recorded or lost.\<close>

definition namesOnly :: "string set \<Rightarrow> (string \<rightharpoonup> string) \<Rightarrow> (string \<rightharpoonup> string) \<Rightarrow> bool" where
  "namesOnly T m m' \<longleftrightarrow> (\<forall>k. m' k = m k \<or> m' k \<in> Some ` T)"

definition enrols :: "Config \<Rightarrow> httpRequest \<Rightarrow> access \<Rightarrow> bool" where
  "enrols cfg r a \<longleftrightarrow> Method r = ''POST'' \<and> TrimSpace (host (RemoteAddr r)) \<notin> blocked a
     \<and> hasToken cfg r \<and> ClientAllowed cfg (host (RemoteAddr r))"

definition inStanding :: "httpRequest \<Rightarrow> access \<Rightarrow> bool" where
  "inStanding r a \<longleftrightarrow> (\<exists>cert ip. presentedIdentity r = Some (cert, ip) \<and> ip \<in> registered a \<and> TrimSpace ip \<notin> blocked a
     \<and> bigText16 (SerialNumber cert) \<notin> revoked a
     \<and> issued a (bigText16 (SerialNumber cert)) = Some (CommonName (Subject cert)))"

definition loopbackNames :: "lib \<Rightarrow> string set" where
  "loopbackNames L = {n. n = '''' \<or> isLoopbackTarget L n}"

text \<open>The steps. An issuance under the identity of a client or from the command line adds certificates of one name only.\<close>

fun accStep :: "lib \<Rightarrow> Config \<Rightarrow> masterEvent \<Rightarrow> access \<Rightarrow> access \<Rightarrow> bool" where
  "accStep L cfg (BootstrapReq r) a a' \<longleftrightarrow> a' = a \<or> (enrols cfg r a
     \<and> namesOnly {identityPrefix @ host (RemoteAddr r)} (issued a) (issued a')
     \<and> registered a' \<in> {registered a, insert (host (RemoteAddr r)) (registered a)}
     \<and> blocked a' = blocked a \<and> revoked a' = revoked a)"
| "accStep L cfg (ControlReq r) a a' \<longleftrightarrow> a' = a \<or> (inStanding r a
     \<and> namesOnly (loopbackNames L) (issued a) (issued a')
     \<and> registered a' = registered a \<and> blocked a' = blocked a \<and> revoked a' = revoked a)"
| "accStep L cfg (RevokeCmd x) a a' \<longleftrightarrow> a' = a \<or> (\<exists>n. serialForm L (normalizeSerial L x) = Some n
     \<and> a' = a\<lparr>revoked := insert n (revoked a)\<rparr>)"
| "accStep L cfg (ReissueCmd x l) a a' \<longleftrightarrow> a' = a \<or> (\<exists>n. a' = a\<lparr>issued := (issued a)(n \<mapsto> canonicalTarget L x),
     revoked := revoked a \<union> {k. k \<noteq> n \<and> (\<exists>u. issued a k = Some u \<and> asciiLower u = asciiLower (canonicalTarget L x))}\<rparr>)"
| "accStep L cfg (IssueCmd x l) a a' \<longleftrightarrow> namesOnly {canonicalTarget L x} (issued a) (issued a')
     \<and> registered a' = registered a \<and> blocked a' = blocked a \<and> revoked a' = revoked a"
| "accStep L cfg (DeregisterCmd x) a a' \<longleftrightarrow> a' = a \<or> (\<exists>ip. clientIP x = Some ip \<and> a' = a\<lparr>registered := registered a - {ip}\<rparr>)"
| "accStep L cfg (BlockCmd x why) a a' \<longleftrightarrow> a' = a \<or> (\<exists>ip. clientIP x = Some ip
     \<and> blocked a' = insert ip (blocked a) \<and> registered a' \<in> {registered a, registered a - {ip}}
     \<and> revoked a' = revoked a \<and> issued a' = issued a)"
| "accStep L cfg (UnblockCmd x) a a' \<longleftrightarrow> a' = a \<or> (\<exists>ip. clientIP x = Some ip \<and> a' = a\<lparr>blocked := blocked a - {ip}\<rparr>)"
| "accStep L cfg ListCmd a a' \<longleftrightarrow> a' = a"
| "accStep L cfg (Restart name ips) a a' \<longleftrightarrow> a' = a"

inductive accRun :: "lib \<Rightarrow> Config \<Rightarrow> access \<Rightarrow> masterEvent list \<Rightarrow> access \<Rightarrow> bool" for L cfg where
  quiet: "accRun L cfg a [] a"
| onward: "accRun L cfg a es a1 \<Longrightarrow> accStep L cfg e a1 a2 \<Longrightarrow> accRun L cfg a (es @ [e]) a2"

section \<open>The abstraction of the statements\<close>

lemma accessOf_fields [simp]:
  "registered (accessOf s) = clientKeys s" "blocked (accessOf s) = blockedKeys s" "revoked (accessOf s) = revokedKeys s"
  by (simp_all add: accessOf_def)

lemma accessOf_same: "sameTables s s' \<Longrightarrow> accessOf s' = accessOf s"
  by (simp add: accessOf_def sameTablesD)

lemma getKey_upsert: "getKey key k (upsert key (\<lambda>_. r) r rs) = (if k = key r then Some r else getKey key k rs)"
proof -
  have "find (\<lambda>x. key x = k) (map (\<lambda>x. if key x = key r then r else x) rs)
    = (if k = key r \<and> key r \<in> key ` set rs then Some r else find (\<lambda>x. key x = k) rs)" for rs
  proof (induction rs)
    case (Cons a rs)
    then show ?case by (cases "key a = key r"; cases "k = key r") auto
  qed simp
  moreover have "find (\<lambda>x. key x = k) (rs @ [r]) = (if k = key r then Some r else find (\<lambda>x. key x = k) rs)"
    if "key r \<notin> key ` set rs" for rs
    using that by (induction rs) auto
  ultimately show ?thesis by (cases "k = key r"; cases "key r \<in> key ` set rs") (simp_all add: getKey_def upsert_def)
qed

lemma certsTab_frames:
  "certsTab (sqlInsertRevoked n x why t s) = certsTab s" "certsTab (sqlUpsertBlock ip x t s) = certsTab s"
  "certsTab (sqlDeleteBlock ip s) = certsTab s" "certsTab (sqlInsertClient ip t s) = certsTab s"
  "certsTab (sqlDeleteClient ip s) = certsTab s"
  by (simp_all add: sql_defs)

lemma issued_certsTab: "certsTab s' = certsTab s \<Longrightarrow> issued (accessOf s') = issued (accessOf s)"
  by (simp add: accessOf_def)

lemmas issued_frames [simp] = certsTab_frames [THEN issued_certsTab]

lemma issued_upsert [simp]: "issued (accessOf (sqlUpsertCert rec s)) = (issued (accessOf s))(ID rec \<mapsto> crSubject rec)"
  by (simp add: accessOf_def sqlUpsertCert_def getKey_upsert fun_eq_iff)

text \<open>Two states of the specification are equal when their four parts are.\<close>

lemma access_eq_iff: "a' = a \<longleftrightarrow> registered a' = registered a \<and> blocked a' = blocked a
    \<and> revoked a' = revoked (a :: access) \<and> issued a' = issued a"
  by (cases a; cases a') auto

section \<open>The commands\<close>

text \<open>The steps that may be done twice at no further effect.\<close>

definition onAccess :: "(access \<Rightarrow> access \<Rightarrow> bool) \<Rightarrow> store \<Rightarrow> store \<Rightarrow> bool" where
  "onAccess A s s' \<longleftrightarrow> A (accessOf s) (accessOf s')"

lemma preord_onAccess: "preord A \<Longrightarrow> preord (onAccess A)"
  by (auto simp: preord_def reflp_def transp_def onAccess_def)

lemma namesOnly_refl [simp]: "namesOnly T m m"
  by (simp add: namesOnly_def)

lemma namesOnly_trans: "namesOnly T m m' \<Longrightarrow> namesOnly T m' m'' \<Longrightarrow> namesOnly T m m''"
  unfolding namesOnly_def by metis

lemma preord_accStep [simp]:
  "preord (accStep L cfg (RevokeCmd x))" "preord (accStep L cfg (IssueCmd x l))" "preord (accStep L cfg (DeregisterCmd x))"
  "preord (accStep L cfg (BlockCmd x why))" "preord (accStep L cfg (UnblockCmd x))"
  by (auto simp: preord_def reflp_def transp_def intro: namesOnly_trans)

lemma guar_onAccess_sameTables: "guar (storeRel sameTables) m \<Longrightarrow> preord A \<Longrightarrow> guar (storeRel (onAccess A)) m"
  by (erule guar_mono, erule storeRel_mono) (simp add: onAccess_def accessOf_same preord_refl)

lemma guar_onAccess_exec:
  assumes "preord A" "\<And>s. A (accessOf s) (accessOf (f s))"
  shows "guar (storeRel (onAccess A)) (sqlExec st f)"
  using assms unfolding sqlExec_def by (auto simp: onAccess_def preord_onAccess intro!: rel_intros guar_intros)

lemma guar_onAccess_frame:
  assumes "preord A"
  shows "guar (storeRel (onAccess A)) (OpenStore p)" "guar (storeRel (onAccess A)) (WriteCRL L cfg ca st)"
    "guar (storeRel (onAccess A)) (RebuildEncryptedCache L cfg ca st)" "fileBlind (storeRel (onAccess A))"
    "quiet (storeRel (onAccess A))" "preord (storeRel (onAccess A))"
  using assms by (auto intro!: guar_onAccess_sameTables guar_OpenStore_sameTables rel_intros simp: preord_onAccess)

lemma guar_commands:
  "guar (storeRel (onAccess (accStep L cfg (RevokeCmd x)))) (RunRevokeCert L cfg x)"
  "guar (storeRel (onAccess (accStep L cfg (IssueCmd x l)))) (RunIssueCLI L cfg x l)"
  "guar (storeRel (onAccess (accStep L cfg (DeregisterCmd x)))) (RunDeregisterClient L cfg x)"
  "guar (storeRel (onAccess (accStep L cfg (UnblockCmd x)))) (RunUnblockClient L cfg x)"
proof -
  have "guar (storeRel (onAccess (accStep L cfg (RevokeCmd x)))) (RevokeCert L st (normalizeSerial L x) subj why)" for st subj why
  proof -
    have "guar (storeRel (onAccess (accStep L cfg (RevokeCmd x)))) (sqlExec st (sqlInsertRevoked (bigText16 n) subj why t))"
      if "bigSetString16 (normalizeSerial L (normalizeSerial L x)) = Some n" "0 < n" for n t
      by (rule guar_onAccess_exec) (use that in \<open>auto simp: serialForm_def\<close>)
    then show ?thesis unfolding RevokeCert_def by (auto intro!: guar_intros simp: guar_onAccess_frame)
  qed
  then show "guar (storeRel (onAccess (accStep L cfg (RevokeCmd x)))) (RunRevokeCert L cfg x)"
    unfolding RunRevokeCert_def Let_def by (auto intro!: guar_intros simp: guar_onAccess_frame)
  have "guar (storeRel (onAccess (accStep L cfg (IssueCmd x l)))) (AddCert st (certRecord c p\<lparr>crSubject := canonicalTarget L x\<rparr>))" for st c p
    unfolding AddCert_def by (rule guar_onAccess_exec) (auto simp: namesOnly_def)
  then show "guar (storeRel (onAccess (accStep L cfg (IssueCmd x l)))) (RunIssueCLI L cfg x l)"
    unfolding RunIssueCLI_def Let_def by (auto intro!: guar_intros blind_intros simp: guar_onAccess_frame)
  have t: "TrimSpace ip = ip" if "clientIP x = Some ip" for ip using clientIP_Some [OF that] by blast
  have "guar (storeRel (onAccess (accStep L cfg (DeregisterCmd x)))) (RemoveClient st ip)" if "clientIP x = Some ip" for st ip
    unfolding RemoveClient_def by (rule guar_onAccess_exec) (use that t in auto)
  then show "guar (storeRel (onAccess (accStep L cfg (DeregisterCmd x)))) (RunDeregisterClient L cfg x)"
    unfolding RunDeregisterClient_def
    by (cases "clientIP x") (auto intro!: guar_intros simp: guar_onAccess_frame)
  have "guar (storeRel (onAccess (accStep L cfg (UnblockCmd x)))) (UnblockIP st ip)" if "clientIP x = Some ip" for st ip
    unfolding UnblockIP_def by (rule guar_onAccess_exec) (use that t in auto)
  then show "guar (storeRel (onAccess (accStep L cfg (UnblockCmd x)))) (RunUnblockClient L cfg x)"
    unfolding RunUnblockClient_def
    by (cases "clientIP x") (auto intro!: guar_intros simp: guar_onAccess_frame)
qed


text \<open>Blocking: the address is on the list before it leaves the registry.\<close>

lemma guar_storeAt: "guar (storeRel Q) m \<Longrightarrow> guar (storeAt st Q) m"
  by (erule guar_mono) (rule storeRel_storeAt)

definition dropsOnly :: "string \<Rightarrow> access \<Rightarrow> access \<Rightarrow> bool" where
  "dropsOnly ip a a' \<longleftrightarrow> a' = a \<or> a' = a\<lparr>registered := registered a - {ip}\<rparr>"

lemma guar_blockThen:
  assumes ip: "clientIP x = Some ip" and rest: "guar (storeRel (onAccess (dropsOnly ip))) m"
  shows "guar (storeAt st (onAccess (accStep L cfg (BlockCmd x why)))) (bnd (onErr f (BlockIP st ip why)) (\<lambda>_. m))"
proof (rule guarI)
  fix w
  let ?A = "accStep L cfg (BlockCmd x why)"
  obtain r w1 where bl: "BlockIP st ip why w = (r, w1)" by (cases "BlockIP st ip why w")
  show "storeAt st (onAccess ?A) w (snd (bnd (onErr f (BlockIP st ip why)) (\<lambda>_. m) w))"
  proof (cases r)
    case (Inl e)
    with bl have "dbs w1 = dbs w" by (auto simp: BlockIP_def sqlExec_def timeNow_def tick_def bnd_def dest!: sqlRun_Inl)
    with bl Inl show ?thesis by (simp add: bnd_def onErr_def storeAt_same preord_onAccess)
  next
    case (Inr u)
    from bl Inr ip obtain t s where s: "dbs w st = Some s" "dbs w1 = (dbs w)(st \<mapsto> sqlUpsertBlock ip why t s)"
      by (auto elim!: BlockIP_Inr dest: clientIP_Some)
    have "storeRel (onAccess (dropsOnly ip)) w1 (snd (m w1))" using rest by (simp add: guar_def)
    with s have "\<exists>s'. dbs (snd (m w1)) st = Some s' \<and> dropsOnly ip (accessOf (sqlUpsertBlock ip why t s)) (accessOf s')"
      by (simp add: storeRel_def onAccess_def)
    with s ip have "storeAt st (onAccess ?A) w (snd (m w1))"
      by (auto simp: storeAt_def onAccess_def dropsOnly_def access_eq_iff)
    with bl Inr show ?thesis by simp
  qed
qed

lemma guar_block: "guar (storeAt (dbPath cfg) (onAccess (accStep L cfg (BlockCmd x why)))) (RunBlockClient L cfg x why)"
proof (cases "clientIP x")
  case None
  then show ?thesis by (auto simp: RunBlockClient_def preord_storeAt preord_onAccess intro!: guar_intros)
next
  case (Some ip)
  let ?R = "storeAt (dbPath cfg) (onAccess (accStep L cfg (BlockCmd x why)))"
  have d: "preord (dropsOnly ip)" by (auto simp: preord_def reflp_def transp_def dropsOnly_def)
  have "TrimSpace ip = ip" using clientIP_Some [OF Some] by blast
  then have "guar (storeRel (onAccess (dropsOnly ip))) (RemoveClient st ip)" for st
    unfolding RemoveClient_def by (intro guar_onAccess_exec d) (simp add: dropsOnly_def access_eq_iff)
  then have rest: "guar (storeRel (onAccess (dropsOnly ip))) (bnd (onErr f (RemoveClient st ip)) (\<lambda>_.
      onErr g (RebuildEncryptedCache L cfg ca st)))" for f g st ca
    by (auto intro!: guar_intros simp: guar_onAccess_frame d)
  have p: "preord ?R" by (simp add: preord_storeAt preord_onAccess)
  have l: "guar ?R (LoadCA L c k)" "guar ?R (OpenStore h)" for c k h
    by (rule guar_storeAt, rule guar_LoadCA, simp add: guar_onAccess_frame) (rule guar_storeAt, simp add: guar_onAccess_frame)
  show ?thesis unfolding RunBlockClient_def Some
    by (auto intro!: guar_bnd_result [OF p] guar_onErr guar_blockThen rest l guar_need p dest!: OpenStore_Inr(1) simp: Some)
qed

text \<open>Reissuing.\<close>

lemma replacedBy_access:
  assumes "replacedBy rec s s'" "wf_store s'" "serialKeyed s'"
  shows "accessOf s' = (accessOf s)\<lparr>issued := (issued (accessOf s))(ID rec \<mapsto> crSubject rec),
     revoked := revokedKeys s \<union> {k. k \<noteq> ID rec \<and>
       (\<exists>u. issued (accessOf s) k = Some u \<and> asciiLower u = asciiLower (crSubject rec))}\<rparr>"
proof -
  have c: "certsTab s' = certsTab (sqlUpsertCert rec s)" and k: "clientKeys s' = clientKeys s" "blockedKeys s' = blockedKeys s"
    and r: "revokedKeys s' = revokedKeys s \<union> {SerialHex c | c. c \<in> set (certsTab s')
          \<and> asciiLower (crSubject c) = asciiLower (crSubject rec) \<and> SerialHex c \<noteq> SerialHex rec}"
    using assms(1) by (auto simp: replacedBy_def)
  have i: "issued (accessOf s') = (issued (accessOf s))(ID rec \<mapsto> crSubject rec)"
    using issued_certsTab [OF c] by simp
  have "{SerialHex c | c. c \<in> set (certsTab s') \<and> asciiLower (crSubject c) = asciiLower (crSubject rec) \<and> SerialHex c \<noteq> SerialHex rec}
    = {k. k \<noteq> ID rec \<and> (\<exists>u. issued (accessOf s') k = Some u \<and> asciiLower u = asciiLower (crSubject rec))}" (is "?X = ?Y")
  proof -
    have d: "keyed ID (certsTab s')" using assms(2) by (simp add: wf_store_def)
    have "SerialHex c = ID c" if "c \<in> set (certsTab s')" for c using assms(3) that by (simp add: serialKeyed_def)
    moreover have "rec \<in> set (certsTab s')"
      using c getKey_Some [of ID "ID rec" "certsTab s'" rec] by (simp add: sqlUpsertCert_def getKey_upsert)
    ultimately show ?thesis
      by (auto simp: accessOf_def getKey_mem [OF d] dest: getKey_Some) (metis getKey_Some)
  qed
  with r i k show ?thesis by (auto simp: access_eq_iff)
qed


section \<open>The listeners\<close>

definition enrolOnly :: "string \<Rightarrow> access \<Rightarrow> access \<Rightarrow> bool" where
  "enrolOnly ip a a' \<longleftrightarrow> namesOnly {identityPrefix @ ip} (issued a) (issued a')
     \<and> registered a' \<in> {registered a, insert ip (registered a)} \<and> blocked a' = blocked a \<and> revoked a' = revoked a"

definition signOnly :: "lib \<Rightarrow> access \<Rightarrow> access \<Rightarrow> bool" where
  "signOnly L a a' \<longleftrightarrow> namesOnly (loopbackNames L) (issued a) (issued a')
     \<and> registered a' = registered a \<and> blocked a' = blocked a \<and> revoked a' = revoked a"

lemma preord_listeners [simp]: "preord (enrolOnly ip)" "preord (signOnly L)"
  by (auto simp: preord_def reflp_def transp_def enrolOnly_def signOnly_def intro: namesOnly_trans)

lemma guar_register_access:
  assumes "x509Ok L" "pemOk L"
  shows "guar (storeRel (onAccess (enrolOnly (host (RemoteAddr r))))) (registerHandler L cfg ca st r)"
proof (rule guar_registers [OF assms])
  let ?R = "storeRel (onAccess (enrolOnly (host (RemoteAddr r))))"
  show "guar ?R (AddCert st rec)" if "identityRecord (host (RemoteAddr r)) rec" for rec
  proof -
    from that have "crSubject rec = identityPrefix @ host (RemoteAddr r)"
      unfolding identityRecord_def by (metis certRecord_fields(3))
    then show ?thesis unfolding AddCert_def by (intro guar_onAccess_exec) (auto simp: enrolOnly_def namesOnly_def)
  qed
  show "guar ?R (registerClient st (host (RemoteAddr r)))"
    unfolding registerClient_def
    by (auto intro!: guar_intros guar_sqlRun_rel preord_onAccess storeRel_preord simp: onAccess_def preord_refl guar_onAccess_frame)
      (auto simp: enrolOnly_def)
qed (simp_all add: guar_onAccess_frame)

lemma guar_control_access:
  assumes "x509Ok L" "pemOk L"
  shows "guar (storeRel (onAccess (signOnly L))) (controlHandler L cfg ca st r)"
proof (rule guar_controls [OF assms])
  show "guar (storeRel (onAccess (signOnly L))) (AddCert st rec)" if "loopbackRecord L rec" for rec
  proof -
    from that have "crSubject rec \<in> loopbackNames L"
      unfolding loopbackRecord_def loopbackCert_def loopbackNames_def by (metis (mono_tags) certRecord_fields(3) mem_Collect_eq)
    then show ?thesis unfolding AddCert_def by (intro guar_onAccess_exec) (auto simp: signOnly_def namesOnly_def)
  qed
  show "guar (storeRel (onAccess (signOnly L))) (refreshCRL L cfg ca st)"
    by (rule guar_onAccess_sameTables) (auto intro: guar_crl_sameTables)
qed (simp_all add: guar_onAccess_frame)

lemma public_access:
  assumes "x509Ok L" "pemOk L"
  shows "storeAt (dbPath cfg) (onAccess (accStep L cfg (BootstrapReq r))) w (snd (bootstrapHandler L cfg ca (dbPath cfg) r w))"
proof -
  let ?h = "registerHandler L cfg ca (dbPath cfg)"
  have "storeAt (dbPath cfg) (onAccess (accStep L cfg (BootstrapReq r))) w (snd (?h r w))"
    unfolding storeAt_def
  proof (intro allI impI)
    fix s assume db: "dbs w (dbPath cfg) = Some s"
    show "\<exists>s'. dbs (snd (?h r w)) (dbPath cfg) = Some s' \<and> onAccess (accStep L cfg (BootstrapReq r)) s s'"
    proof (cases "mayEnrol cfg s r")
      case True
      have "storeRel (onAccess (enrolOnly (host (RemoteAddr r)))) w (snd (?h r w))"
        using guar_register_access [OF assms] by (simp add: guar_def)
      with db obtain s' where "dbs (snd (?h r w)) (dbPath cfg) = Some s'" "enrolOnly (host (RemoteAddr r)) (accessOf s) (accessOf s')"
        unfolding storeRel_def onAccess_def by blast
      with True show ?thesis by (auto simp: onAccess_def enrolOnly_def enrols_def mayEnrol_def)
    next
      case False
      from registerHandler_refused [OF db False, of L ca] db show ?thesis by (metis snd_conv onAccess_def accStep.simps(1))
    qed
  qed
  moreover have "storeAt (dbPath cfg) (onAccess (accStep L cfg (BootstrapReq r))) w w'" if "dbs w' = dbs w" for w'
    using that by (simp add: storeAt_def onAccess_def)
  ultimately show ?thesis
    using bootstrapHandler_cases [of L cfg ca "dbPath cfg" r] by (auto simp: guar_def same_def)
qed

lemma authorized_inStanding:
  assumes "authorized L s r" "wf_store s" "serialKeyed s"
  shows "inStanding r (accessOf s)"
proof -
  from assms(1) obtain cert ip c where p: "presentedIdentity r = Some (cert, ip)" "ip \<in> clientKeys s" "TrimSpace ip \<notin> blockedKeys s"
    "bigText16 (SerialNumber cert) \<notin> revokedKeys s" and
    c: "find (\<lambda>c. SerialHex c = bigText16 (SerialNumber cert)) (certsTab s) = Some c" "crSubject c = CommonName (Subject cert)"
    by (auto simp: authorized_def)
  from c(1) have "c \<in> set (certsTab s)" "SerialHex c = bigText16 (SerialNumber cert)" by (auto simp: find_Some_iff)
  with assms(2,3) have "getKey ID (bigText16 (SerialNumber cert)) (certsTab s) = Some c"
    using getKey_mem [of ID "certsTab s" c] by (auto simp: wf_store_def serialKeyed_def)
  with p c(2) show ?thesis by (auto simp: inStanding_def accessOf_def)
qed

lemma control_access:
  assumes "x509Ok L" "pemOk L" and db: "dbs w (dbPath cfg) = Some s" "wf_store s" "serialKeyed s"
  shows "\<exists>s'. dbs (snd (controlHandler L cfg ca (dbPath cfg) r w)) (dbPath cfg) = Some s'
    \<and> accStep L cfg (ControlReq r) (accessOf s) (accessOf s')"
proof (cases "authorized L s r")
  case True
  have "storeRel (onAccess (signOnly L)) w (snd (controlHandler L cfg ca (dbPath cfg) r w))"
    using guar_control_access [OF assms(1,2)] by (simp add: guar_def)
  with db(1) obtain s' where "dbs (snd (controlHandler L cfg ca (dbPath cfg) r w)) (dbPath cfg) = Some s'"
    "signOnly L (accessOf s) (accessOf s')" unfolding storeRel_def onAccess_def by blast
  with authorized_inStanding [OF True db(2,3)] show ?thesis by (auto simp: signOnly_def)
next
  case False
  from authorizeClient_refused [OF db(1) False] db(1) show ?thesis
    unfolding controlHandler_def by (metis snd_conv accStep.simps(2))
qed


section \<open>The simulation\<close>

definition represents :: "store \<Rightarrow> access \<Rightarrow> bool" where
  "represents s a \<longleftrightarrow> wf_store s \<and> serialKeyed s \<and> accessOf s = a"

lemma reissue_access:
  assumes "dbs w (dbPath cfg) = Some s" "RunReissueCert L cfg x l w = (r, w')"
    "\<And>s'. dbs w' (dbPath cfg) = Some s' \<Longrightarrow> wf_store s' \<and> serialKeyed s'"
  shows "\<exists>s'. dbs w' (dbPath cfg) = Some s' \<and> accStep L cfg (ReissueCmd x l) (accessOf s) (accessOf s')"
proof -
  from guarD [OF RunReissueCert_atomic assms(2)] assms(1) obtain s' where s': "dbs w' (dbPath cfg) = Some s'"
    and c: "sameTables s s' \<or> (\<exists>rec. crSubject rec = canonicalTarget L x \<and> replacedBy rec s s')"
    unfolding reissued_def by blast
  from c show ?thesis
  proof (elim disjE exE conjE)
    assume "sameTables s s'"
    with s' show ?thesis by (auto simp: accessOf_same)
  next
    fix rec assume "crSubject rec = canonicalTarget L x" "replacedBy rec s s'"
    with replacedBy_access [of rec s s'] assms(3) [OF s'] s' show ?thesis by auto
  qed
qed

lemma guar_start_sameTables:
  "guar (storeRel sameTables) (RunMaster L name ips cfg)" "guar (storeRel sameTables) (RunListCerts cfg)"
  unfolding RunMaster_def RunListCerts_def Let_def
  by (auto intro!: guar_intros guar_OpenStore_sameTables rel_intros)

text \<open>One operation is one step.\<close>

lemma masterRun_access:
  assumes lib: "x509Ok L" "pemOk L" and db: "dbs w (dbPath cfg) = Some s" "wf_store s" "serialKeyed s"
    and ok: "\<And>s'. dbs (masterRun L cfg ca e w) (dbPath cfg) = Some s' \<Longrightarrow> wf_store s' \<and> serialKeyed s'"
  shows "\<exists>s'. dbs (masterRun L cfg ca e w) (dbPath cfg) = Some s' \<and> accStep L cfg e (accessOf s) (accessOf s')"
proof -
  have at: "\<exists>s'. dbs (snd (m w)) (dbPath cfg) = Some s' \<and> A (accessOf s) (accessOf s')"
    if "guar (storeAt (dbPath cfg) (onAccess A)) m" for A and m :: "'a io"
    using that db(1) by (auto simp: guar_def storeAt_def onAccess_def)
  have idle: "\<exists>s'. dbs (snd (m v)) (dbPath cfg) = Some s' \<and> accessOf s' = accessOf s"
    if "guar (storeRel sameTables) m" "dbs v = dbs w" for m :: "'a io" and v
    using that db(1) accessOf_same unfolding guar_def storeRel_def by metis
  note cmd = guar_commands [THEN guar_storeAt, THEN at] guar_block [THEN at]
  show ?thesis
  proof (cases e)
    case (BootstrapReq r)
    from public_access [OF lib, of cfg r w ca] db(1) BootstrapReq show ?thesis
      by (auto simp: storeAt_def onAccess_def snd_serve simp del: accStep.simps)
  next
    case (ControlReq r)
    with control_access [OF lib db] show ?thesis by (simp add: snd_serve del: accStep.simps)
  next
    case (ReissueCmd x l)
    obtain r w' where "RunReissueCert L cfg x l w = (r, w')" by (cases "RunReissueCert L cfg x l w")
    with reissue_access [OF db(1) this] ok ReissueCmd show ?thesis by (simp del: accStep.simps)
  next
    case (Restart name ips)
    with idle [OF guar_start_sameTables(1), of "fresh w"] show ?thesis by (simp add: fresh_def)
  next
    case ListCmd
    with idle [OF guar_start_sameTables(2) refl] show ?thesis by simp
  qed (use cmd in \<open>simp_all del: accStep.simps\<close>)
qed

text \<open>A life of the master is a run of the specification.\<close>

lemma life_access:
  assumes "life L cfg ca w es w'" "x509Ok L" "pemOk L" "dbs w (dbPath cfg) = Some s" "represents s a"
    "dbInv wf_store w" "dbInv serialKeyed w"
  shows "\<exists>s' a'. dbs w' (dbPath cfg) = Some s' \<and> represents s' a' \<and> accRun L cfg a es a'"
  using assms
proof (induction rule: life.induct)
  case (start w)
  then show ?case by (auto intro: accRun.quiet)
next
  case (go_on w es w1 w2 e)
  then obtain s1 a1 where s1: "dbs w1 (dbPath cfg) = Some s1" "represents s1 a1" "accRun L cfg a es a1" by blast
  have w2: "life L cfg ca w (es @ [e]) w2" using go_on.hyps by (rule life.go_on)
  have ok: "dbInv wf_store w2" "dbInv serialKeyed w2"
    using life_rel [OF w2 adminRel_wf] life_rel [OF w2 adminRel_serialKeyed] go_on.prems by (simp_all add: keepsP_def)
  have "\<exists>s2. dbs w2 (dbPath cfg) = Some s2 \<and> accStep L cfg e (accessOf s1) (accessOf s2)"
    unfolding go_on.hyps(2)
    by (rule masterRun_access) (use s1 ok go_on in \<open>auto simp: represents_def dbInv_def\<close>)
  with s1 ok show ?case by (auto simp: represents_def dbInv_def simp del: accStep.simps intro: accRun.onward)
qed


section \<open>What follows from the specification\<close>

lemma accRun_trail:
  assumes "accRun L cfg a es a'" and "\<And>e a a'. e \<in> set es \<Longrightarrow> accStep L cfg e a a' \<Longrightarrow> x \<in> f a' \<Longrightarrow> x \<in> f a \<or> P e"
    and "x \<in> f a'"
  shows "x \<in> f a \<or> (\<exists>e \<in> set es. P e)"
  using assms
proof (induction rule: accRun.induct)
  case (onward a es a1 e a2)
  then have "x \<in> f a1 \<or> P e" by auto
  with onward show ?case by auto
qed simp

text \<open>Who is registered was registered or has enrolled; who is revoked was revoked or the administrator did it; a recorded name
  was recorded or is due to an event that records it.\<close>

definition enrolledBy :: "Config \<Rightarrow> string \<Rightarrow> masterEvent \<Rightarrow> bool" where
  "enrolledBy cfg ip e \<longleftrightarrow> (\<exists>r. e = BootstrapReq r \<and> host (RemoteAddr r) = ip \<and> Method r = ''POST'' \<and> hasToken cfg r
     \<and> ClientAllowed cfg ip)"

lemma registered_trail:
  assumes "accRun L cfg a es a'" "ip \<in> registered a'"
  shows "ip \<in> registered a \<or> (\<exists>e \<in> set es. enrolledBy cfg ip e)"
proof (rule accRun_trail [where f = registered, OF assms(1)])
  fix e a a' assume "accStep L cfg e a a'" "ip \<in> registered a'"
  then show "ip \<in> registered a \<or> enrolledBy cfg ip e" by (cases e) (auto simp: enrols_def enrolledBy_def)
qed fact

definition revokedBy :: "lib \<Rightarrow> string \<Rightarrow> masterEvent \<Rightarrow> bool" where
  "revokedBy L n e \<longleftrightarrow> (\<exists>x. e = RevokeCmd x \<and> serialForm L (normalizeSerial L x) = Some n) \<or> (\<exists>x l. e = ReissueCmd x l)"

lemma revoked_trail:
  assumes "accRun L cfg a es a'" "n \<in> revoked a'"
  shows "n \<in> revoked a \<or> (\<exists>e \<in> set es. revokedBy L n e)"
proof (rule accRun_trail [where f = revoked, OF assms(1)])
  fix e a a' assume "accStep L cfg e a a'" "n \<in> revoked a'"
  then show "n \<in> revoked a \<or> revokedBy L n e" by (cases e) (auto simp: revokedBy_def)
qed fact

definition namedBy :: "lib \<Rightarrow> Config \<Rightarrow> string \<Rightarrow> masterEvent \<Rightarrow> bool" where
  "namedBy L cfg name e \<longleftrightarrow> (\<exists>ip. name = identityPrefix @ ip \<and> enrolledBy cfg ip e)
     \<or> (\<exists>r. e = ControlReq r \<and> name \<in> loopbackNames L)
     \<or> (\<exists>x l. (e = IssueCmd x l \<or> e = ReissueCmd x l) \<and> name = canonicalTarget L x)"

lemma issued_trail:
  assumes "accRun L cfg a es a'" "issued a' n = Some name"
  shows "issued a n = Some name \<or> (\<exists>e \<in> set es. namedBy L cfg name e)"
proof -
  have "name \<in> set_option (issued a n) \<or> (\<exists>e \<in> set es. namedBy L cfg name e)"
  proof (rule accRun_trail [where f = "\<lambda>a. set_option (issued a n)", OF assms(1)])
    fix e a a' assume s: "accStep L cfg e a a'" "name \<in> set_option (issued a' n)"
    have "name \<in> set_option (issued a n) \<or> name \<in> T" if "namesOnly T (issued a) (issued a')" for T
      using that s(2) by (auto simp: namesOnly_def) (metis imageE option.inject)
    with s show "name \<in> set_option (issued a n) \<or> namedBy L cfg name e"
      by (cases e) (auto simp: enrols_def enrolledBy_def namedBy_def split: if_splits)
  qed (use assms(2) in simp)
  then show ?thesis by simp
qed

lemma accRun_revoked: "accRun L cfg a es a' \<Longrightarrow> revoked a \<subseteq> revoked a'"
proof (induction rule: accRun.induct)
  case (onward a es a1 e a2)
  then have "revoked a1 \<subseteq> revoked a2" by (cases e) auto
  with onward show ?case by simp
qed simp

end
