(* ===== verification/MasterProperties.thy ===== *)
theory MasterProperties
  imports Samples AccessSpec
begin

text \<open>
  The properties of the master: who may do what, what holds all its life, what its commands and its files are worth.
  Each property with hypotheses is followed by a concrete case on the sample network of theory \<open>Samples\<close>.
\<close>

section \<open>Who may do what at the master\<close>

text \<open>C1: The gate of the control plane. On a database \<open>s\<close>, a request whose client is not \<open>authorized\<close> (a verified
  certificate, recorded byte for byte under its serial with its subject, naming a registered and unblocked
  address, its serial not revoked) is answered 403 or 500 before the protected handler runs: the answer is the
  same for every handler, and files and databases are as before. An authorized client reaches the handler
  whenever the database answers.\<close>

theorem control_plane_gate:
  assumes "dbs w st = Some s"
  shows "(\<not> authorized L s r \<longrightarrow> (\<exists>x w'. (\<forall>next. authorizeClient L st next r w = (Inl x, w')) \<and> status x \<in> {403, 500}
           \<and> dbs w' = dbs w \<and> fs w' = fs w))
    \<and> (authorized L s r \<and> noFaults w \<longrightarrow> (\<forall>next. authorizeClient L st next r w = next r (w\<lparr>step := step w + 4\<rparr>)))"
proof (intro conjI impI)
  assume "\<not> authorized L s r"
  with assms obtain x w' where "\<forall>next. authorizeClient L st next r w = (Inl x, w')" "status x = 403 \<or> status x = 500"
    "dbs w' = dbs w" "fs w' = fs w" by (rule authorizeClient_refused)
  then show "\<exists>x w'. (\<forall>next. authorizeClient L st next r w = (Inl x, w')) \<and> status x \<in> {403, 500}
      \<and> dbs w' = dbs w \<and> fs w' = fs w" by (intro exI [of _ x] exI [of _ w']) simp
next
  assume "authorized L s r \<and> noFaults w"
  with assms show "\<forall>next. authorizeClient L st next r w = next r (w\<lparr>step := step w + 4\<rparr>)"
    by (simp add: authorizeClient_passes)
qed

theorem control_plane_gate_witness:
  "\<exists>w'. authorizeClient SL ''/d/natssl.db'' healthHandler (sampleRequest ''GET'' ''/sync/health'' ''10.0.0.7:1'' '''' '''' (Some sampleTLS)) SW
     = (Inr (ok [] ''ok''), w')"
proof -
  let ?r = "sampleRequest ''GET'' ''/sync/health'' ''10.0.0.7:1'' '''' '''' (Some sampleTLS)"
  have "dbs SW ''/d/natssl.db'' = Some sampleStore" by (simp add: SW_def sampleWorld_def)
  moreover have "authorized SL sampleStore ?r"
    by (auto simp: run_ops authorized_def presentedIdentity_def TrimPrefix_def)
  moreover have "noFaults SW" by (simp add: noFaults_def SW_def sampleWorld_def)
  ultimately have "authorizeClient SL ''/d/natssl.db'' healthHandler ?r SW = healthHandler ?r (SW\<lparr>step := step SW + 4\<rparr>)"
    using control_plane_gate by blast
  then show ?thesis by (simp add: healthHandler_def requireMethod_def sampleRequest_def)
qed

text \<open>C7: A refused enrolment changes nothing. A request to \<^verbatim>\<open>/acme/register\<close> that is no POST, comes from a blocked address,
  lacks the enrolment token (or the token was never set), or comes from outside the client networks is answered
  403, 405 or 500, whatever the environment does, and files and databases are as before.\<close>

theorem enrolment_refused:
  assumes "dbs w st = Some s" "\<not> mayEnrol cfg s r"
  shows "\<exists>x w'. registerHandler L cfg ca st r w = (Inl x, w') \<and> status x \<in> {403, 405, 500} \<and> dbs w' = dbs w \<and> fs w' = fs w"
  using registerHandler_refused [OF assms] by metis

theorem enrolment_refused_witness:
  "\<exists>x w'. registerHandler SL sampleConfig sampleCA ''/d/natssl.db''
     (sampleRequest ''POST'' ''/acme/register'' ''10.0.0.8:5000'' ''guess'' ''E'' None) SW = (Inl x, w')
     \<and> status x \<in> {403, 405, 500} \<and> dbs w' = dbs SW \<and> fs w' = fs SW"
proof (rule enrolment_refused)
  show "dbs SW ''/d/natssl.db'' = Some sampleStore" by (simp add: SW_def sampleWorld_def)
  show "\<not> mayEnrol sampleConfig sampleStore (sampleRequest ''POST'' ''/acme/register'' ''10.0.0.8:5000'' ''guess'' ''E'' None)"
    by (simp add: mayEnrol_def run_ops)
qed

text \<open>C8: Enrolment works end to end. When \<^verbatim>\<open>/acme/register\<close> succeeds, the request was one enrolment is for, the caller's address
  is now registered and nobody was blocked, unblocked or revoked; and if an identity was issued, every later request that
  presents it over verified TLS is authorized on the new database, unless its serial is on the revocation list.\<close>

theorem enrolled_client_passes:
  assumes "registerHandler L cfg ca st r w = (Inr resp, w')" "dbs w st = Some s" "serialKeyed s" "x509Ok L" "pemOk L"
  shows "mayEnrol cfg s r \<and> (\<exists>pem s'. resp = registerReply L (host (RemoteAddr r)) pem \<and> dbs w' st = Some s'
     \<and> clientKeys s' = insert (host (RemoteAddr r)) (clientKeys s) \<and> revokedKeys s' = revokedKeys s
     \<and> blockedKeys s' = blockedKeys s
     \<and> (pem \<noteq> '''' \<longrightarrow> (\<exists>cert. pem = pemEncode L ''CERTIFICATE'' (Raw cert) \<and> parseCertificate L (Raw cert) = Some cert
          \<and> (bigText16 (SerialNumber cert) \<notin> revokedKeys s \<longrightarrow>
             (\<forall>r' tls rest. TLS r' = Some tls \<and> VerifiedChains tls \<noteq> [] \<and> PeerCertificates tls = cert # rest \<longrightarrow>
                authorized L s' r')))))"
proof -
  let ?ip = "host (RemoteAddr r)"
  from registerHandler_Inr [OF assms(1,2,4,5)] obtain pem s' where
    ok: "mayEnrol cfg s r" "resp = registerReply L ?ip pem" "dbs w' st = Some s'" "clientKeys s' = insert ?ip (clientKeys s)"
      "revokedKeys s' = revokedKeys s" "blockedKeys s' = blockedKeys s" and
    cert: "pem = '''' \<and> certsTab s' = certsTab s \<or>
     (\<exists>cert. pem = pemEncode L ''CERTIFICATE'' (Raw cert) \<and> parseCertificate L (Raw cert) = Some cert
        \<and> CommonName (Subject cert) = identityPrefix @ ?ip
        \<and> certsTab s' = certsTab (sqlUpsertCert (certRecord cert pem) s))" .
  have ip: "ParseIP ?ip \<noteq> None" "TrimSpace ?ip \<notin> blockedKeys s'" "?ip \<in> clientKeys s'"
    using ok ClientAllowed_IP by (auto simp: mayEnrol_def)
  have "\<exists>cert. pem = pemEncode L ''CERTIFICATE'' (Raw cert) \<and> parseCertificate L (Raw cert) = Some cert
          \<and> (bigText16 (SerialNumber cert) \<notin> revokedKeys s \<longrightarrow>
             (\<forall>r' tls rest. TLS r' = Some tls \<and> VerifiedChains tls \<noteq> [] \<and> PeerCertificates tls = cert # rest \<longrightarrow>
                authorized L s' r'))" if "pem \<noteq> ''''"
  proof -
    from cert that obtain c where c: "pem = pemEncode L ''CERTIFICATE'' (Raw c)" "parseCertificate L (Raw c) = Some c"
      "CommonName (Subject c) = identityPrefix @ ?ip" "certsTab s' = certsTab (sqlUpsertCert (certRecord c pem) s)" by blast
    have "find (\<lambda>x. SerialHex x = bigText16 (SerialNumber c)) (certsTab s') = Some (certRecord c pem)"
      using find_upserted [OF assms(3), of "certRecord c pem"] c(4) by simp
    with c ok(5) ip show ?thesis by (intro exI [of _ c]) (auto intro: enrolled_authorized)
  qed
  with ok show ?thesis by blast
qed

theorem enrolled_client_passes_witness:
  "\<exists>resp w' pem s'. registerHandler SL sampleConfig sampleCA ''/d/natssl.db''
       (sampleRequest ''POST'' ''/acme/register'' ''10.0.0.8:5000'' ''secret'' ''E'' None) SW = (Inr resp, w')
     \<and> resp = registerReply SL ''10.0.0.8'' pem \<and> dbs w' ''/d/natssl.db'' = Some s' \<and> ''10.0.0.8'' \<in> clientKeys s'"
proof -
  let ?r = "sampleRequest ''POST'' ''/acme/register'' ''10.0.0.8:5000'' ''secret'' ''E'' None"
  have "isInr (registerHandler SL sampleConfig sampleCA ''/d/natssl.db'' ?r SW)"
    by (simp add: run_ops cong: run_blocks del: run_off split del: if_split)
  then obtain resp w' where run: "registerHandler SL sampleConfig sampleCA ''/d/natssl.db'' ?r SW = (Inr resp, w')"
    by (rule isInrE)
  have ip: "host (RemoteAddr ?r) = ''10.0.0.8''" by (simp add: sampleRequest_def sample_texts)
  have "dbs SW ''/d/natssl.db'' = Some sampleStore" by (simp add: SW_def sampleWorld_def)
  moreover have "serialKeyed sampleStore" by (simp add: serialKeyed_def sampleStore_def certRecord_def Let_def)
  ultimately show ?thesis
    using enrolled_client_passes [OF run] run ip by auto
qed

text \<open>C9: Whatever is sent to the control plane, it records only loopback certificates: no CA certificate, server
  authentication only, the names \<^verbatim>\<open>localhost\<close> and loopback addresses only. It registers, blocks, unblocks and
  revokes nobody. This holds for every request and every behaviour of the environment.\<close>

theorem control_plane_records_loopback_only:
  assumes "x509Ok L" "pemOk L"
  shows "guar (storeRel (mayAdd (loopbackRecord L) {})) (controlHandler L cfg ca st r)"
  by (rule guar_control_mayAdd [OF assms])

theorem control_plane_records_loopback_only_witness:
  "guar (storeRel (mayAdd (loopbackRecord SL) {})) (controlHandler SL sampleConfig sampleCA ''/d/natssl.db''
     (sampleRequest ''POST'' ''/acme/sign-csr'' ''10.0.0.7:5000'' '''' ''S'' (Some sampleTLS)))"
  by (rule control_plane_records_loopback_only) simp_all


section \<open>The life of a master\<close>

lemma SW_db [simp]: "dbs SW (dbPath sampleConfig) = Some sampleStore"
  by (simp add: SW_def sampleWorld_def sampleConfig_ops)

lemma sampleStore_keys:
  "revokedKeys sampleStore = {''cd''}" "blockedKeys sampleStore = {''10.0.0.9''}" "clientKeys sampleStore = {''10.0.0.7''}"
  by (simp_all add: sampleStore_def key_defs)

lemma sampleStore_ok: "wf_store sampleStore" "serialKeyed sampleStore" "seqOk sampleStore"
  by (simp_all add: sampleStore_def wf_store_def keyed_def serialKeyed_def certRecord_def seqOk_def stateGet_def getKey_def Let_def)

lemma SW_inv: "dbInv P SW \<longleftrightarrow> P sampleStore"
  by (simp add: dbInv_def SW_def sampleWorld_def)

text \<open>A day at the sample master: a stranger tries to enrol, the client that is out tries too, a certificate is
  issued and replaced, the master restarts.\<close>

definition sampleDay :: "masterEvent list" where
  "sampleDay = [BootstrapReq (sampleRequest ''POST'' ''/acme/register'' ''10.0.0.8:5000'' ''secret'' ''E'' None),
     BootstrapReq (sampleRequest ''POST'' ''/acme/register'' ''10.0.0.9:5000'' ''secret'' ''E'' None),
     IssueCmd ''db.local'' False, ReissueCmd ''db.local'' False, RevokeCmd ''ab'', UnblockCmd ''10.0.0.5'',
     Restart (Inr ''master'') (Inr [])]"

text \<open>C2: A revocation is for ever. However a master lives on after a serial is revoked (requests, commands of the
  administrator, restarts, with any failures in between), the serial stays in the database, and a request that
  presents a certificate with this serial is answered 403 or 500 by the control plane, whatever it asks for.\<close>

theorem revocation_is_for_ever:
  assumes "life L cfg ca w es w'" "dbs w (dbPath cfg) = Some s" "bigText16 (SerialNumber cert) \<in> revokedKeys s"
    "TLS r = Some tls" "PeerCertificates tls = cert # rest"
  shows "\<exists>s'. dbs w' (dbPath cfg) = Some s' \<and> bigText16 (SerialNumber cert) \<in> revokedKeys s'
    \<and> (\<exists>x w''. controlHandler L cfg ca (dbPath cfg) r w' = (Inl x, w'') \<and> status x \<in> {403, 500} \<and> dbs w'' = dbs w')"
proof -
  from assms(1,2) obtain s' where s': "dbs w' (dbPath cfg) = Some s'" "revokedKeys s \<subseteq> revokedKeys s'" by (rule life_revoked)
  with assms(3) have "\<not> authorized L s' r" by (intro revoked_unauthorized [OF assms(5,4)]) blast
  from authorizeClient_refused [OF s'(1) this] obtain x w'' where
    "\<forall>next. authorizeClient L (dbPath cfg) next r w' = (Inl x, w'')" "status x = 403 \<or> status x = 500" "dbs w'' = dbs w'" .
  with s' assms(3) show ?thesis by (auto simp: controlHandler_def)
qed

theorem revocation_is_for_ever_witness:
  "\<exists>w' x w''. life SL sampleConfig sampleCA SW sampleDay w'
     \<and> controlHandler SL sampleConfig sampleCA ''/d/natssl.db'' (sampleRequest ''GET'' ''/sync/cache'' ''10.0.0.7:1'' '''' ''''
         (Some (sampleTLS\<lparr>PeerCertificates := [sampleId\<lparr>SerialNumber := 205\<rparr>]\<rparr>))) w' = (Inl x, w'') \<and> status x \<in> {403, 500}"
proof -
  obtain w' where life: "life SL sampleConfig sampleCA SW sampleDay w'" using life_total by blast
  have "bigText16 (SerialNumber (sampleId\<lparr>SerialNumber := 205\<rparr>)) \<in> revokedKeys sampleStore"
    by (simp add: sampleStore_keys number_ops)
  from revocation_is_for_ever [OF life SW_db this, of
      "sampleRequest ''GET'' ''/sync/cache'' ''10.0.0.7:1'' '''' '''' (Some (sampleTLS\<lparr>PeerCertificates := [sampleId\<lparr>SerialNumber := 205\<rparr>]\<rparr>))"
      "sampleTLS\<lparr>PeerCertificates := [sampleId\<lparr>SerialNumber := 205\<rparr>]\<rparr>" "[]"] life
  show ?thesis by (auto simp: sampleRequest_def sampleConfig_ops)
qed

text \<open>C15: A blocked client stays out. Once an address is blocked and off the registry, then through every later
  life of the master, whatever fails, up to a command that unblocks this address: it is blocked and not
  registered, a request with its identity does not pass the gate, and it cannot enrol again.\<close>

theorem blocked_client_stays_out:
  assumes "life L cfg ca w es w'" "dbs w (dbPath cfg) = Some s" "ip \<in> blockedKeys s" "ip \<notin> clientKeys s" "TrimSpace ip = ip"
    "\<forall>x. UnblockCmd x \<in> set es \<longrightarrow> clientIP x \<noteq> Some ip"
  shows "\<exists>s'. dbs w' (dbPath cfg) = Some s' \<and> ip \<in> blockedKeys s' \<and> ip \<notin> clientKeys s'
    \<and> (\<forall>r cert. presentedIdentity r = Some (cert, ip) \<longrightarrow> \<not> authorized L s' r)
    \<and> (\<forall>r. host (RemoteAddr r) = ip \<longrightarrow> \<not> mayEnrol cfg s' r)"
proof -
  have "outside ip s" using assms(3,4) by (simp add: outside_def)
  from life_outside [OF assms(1,2) this assms(5,6)] obtain s' where s': "dbs w' (dbPath cfg) = Some s'" "outside ip s'" .
  then show ?thesis
    using outside_unauthorized [OF s'(2)] outside_refused [OF s'(2) assms(5)] by (auto simp: outside_def)
qed

theorem blocked_client_stays_out_witness:
  "\<exists>w' s'. life SL sampleConfig sampleCA SW sampleDay w' \<and> dbs w' ''/d/natssl.db'' = Some s'
     \<and> ''10.0.0.9'' \<in> blockedKeys s' \<and> ''10.0.0.9'' \<notin> clientKeys s'"
proof -
  obtain w' where life: "life SL sampleConfig sampleCA SW sampleDay w'" using life_total by blast
  have t: "TrimSpace ''10.0.0.9'' = ''10.0.0.9''" "clientIP ''10.0.0.5'' \<noteq> Some ''10.0.0.9''" by code_simp+
  have "\<exists>s'. dbs w' (dbPath sampleConfig) = Some s' \<and> ''10.0.0.9'' \<in> blockedKeys s' \<and> ''10.0.0.9'' \<notin> clientKeys s'
    \<and> (\<forall>r cert. presentedIdentity r = Some (cert, ''10.0.0.9'') \<longrightarrow> \<not> authorized SL s' r)
    \<and> (\<forall>r. host (RemoteAddr r) = ''10.0.0.9'' \<longrightarrow> \<not> mayEnrol sampleConfig s' r)"
    by (rule blocked_client_stays_out [OF life SW_db]) (use t in \<open>auto simp: sampleStore_keys sampleDay_def\<close>)
  with life show ?thesis by (auto simp: sampleConfig_ops)
qed


text \<open>C4: The master implements its access specification. Every life of the master, seen as who is registered, blocked and
  revoked and which names are recorded (\<open>accessOf\<close>), is a run of \<open>accStep\<close>: each event does the change that belongs to it or
  nothing, whatever requests, commands and failures there are.\<close>

theorem master_refines_access_spec:
  assumes "life L cfg ca w es w'" "x509Ok L" "pemOk L" "dbInv wf_store w" "dbInv serialKeyed w" "dbs w (dbPath cfg) = Some s"
  shows "\<exists>s'. dbs w' (dbPath cfg) = Some s' \<and> accRun L cfg (accessOf s) es (accessOf s')"
proof -
  have "represents s (accessOf s)" using assms(4-6) by (auto simp: represents_def dbInv_def)
  from life_access [OF assms(1-3,6) this assms(4,5)] show ?thesis by (auto simp: represents_def)
qed

theorem master_refines_access_spec_witness:
  "\<exists>w' s'. life SL sampleConfig sampleCA SW sampleDay w' \<and> dbs w' ''/d/natssl.db'' = Some s'
     \<and> accRun SL sampleConfig (accessOf sampleStore) sampleDay (accessOf s')"
proof -
  obtain w' where life: "life SL sampleConfig sampleCA SW sampleDay w'" using life_total by blast
  have "\<exists>s'. dbs w' (dbPath sampleConfig) = Some s' \<and> accRun SL sampleConfig (accessOf sampleStore) sampleDay (accessOf s')"
    by (rule master_refines_access_spec [OF life]) (simp_all add: SW_inv sampleStore_ok)
  with life show ?thesis by (auto simp: sampleConfig_ops)
qed

text \<open>C22: Everything in the database has an origin. After any life of the master a registered address was registered before or
  enrolled with the token from an allowed network; a revoked serial was revoked before, by the revoke command for this
  serial or by a reissue; a recorded certificate name was recorded before, is the identity of an address that enrolled,
  a loopback name signed at the control plane, or the target of an issue or reissue command.\<close>

theorem access_has_an_origin:
  assumes "life L cfg ca w es w'" "x509Ok L" "pemOk L" "dbInv wf_store w" "dbInv serialKeyed w" "dbs w (dbPath cfg) = Some s"
  shows "\<exists>s'. dbs w' (dbPath cfg) = Some s' \<and> revokedKeys s \<subseteq> revokedKeys s'
    \<and> (\<forall>ip \<in> clientKeys s'. ip \<in> clientKeys s \<or> (\<exists>e \<in> set es. enrolledBy cfg ip e))
    \<and> (\<forall>n \<in> revokedKeys s'. n \<in> revokedKeys s \<or> (\<exists>e \<in> set es. revokedBy L n e))
    \<and> (\<forall>c \<in> set (certsTab s'). (\<exists>d \<in> set (certsTab s). ID d = ID c \<and> crSubject d = crSubject c)
         \<or> (\<exists>e \<in> set es. namedBy L cfg (crSubject c) e))"
proof -
  have "represents s (accessOf s)" using assms(4-6) by (auto simp: represents_def dbInv_def)
  from life_access [OF assms(1-3,6) this assms(4,5)] obtain s' where s': "dbs w' (dbPath cfg) = Some s'" "wf_store s'"
    and run: "accRun L cfg (accessOf s) es (accessOf s')" by (auto simp: represents_def)
  have "(\<exists>d \<in> set (certsTab s). ID d = ID c \<and> crSubject d = crSubject c) \<or> (\<exists>e \<in> set es. namedBy L cfg (crSubject c) e)"
    if "c \<in> set (certsTab s')" for c
  proof -
    have "issued (accessOf s') (ID c) = Some (crSubject c)"
      using getKey_mem [OF _ that, of ID] s'(2) by (simp add: accessOf_def wf_store_def)
    from issued_trail [OF run this] show ?thesis by (auto simp: accessOf_def dest: getKey_Some)
  qed
  with s'(1) accRun_revoked [OF run] registered_trail [OF run] revoked_trail [OF run] show ?thesis by auto
qed

theorem access_has_an_origin_witness:
  "\<exists>w' s'. life SL sampleConfig sampleCA SW sampleDay w' \<and> dbs w' ''/d/natssl.db'' = Some s'
     \<and> clientKeys s' \<subseteq> {''10.0.0.7'', ''10.0.0.8'', ''10.0.0.9''}"
proof -
  obtain w' where life: "life SL sampleConfig sampleCA SW sampleDay w'" using life_total by blast
  from access_has_an_origin [OF life _ _ _ _ SW_db] obtain s' where "dbs w' (dbPath sampleConfig) = Some s'"
    "\<forall>ip \<in> clientKeys s'. ip \<in> clientKeys sampleStore \<or> (\<exists>e \<in> set sampleDay. enrolledBy sampleConfig ip e)"
    by (auto simp: SW_inv sampleStore_ok)
  moreover have "ip = ''10.0.0.8'' \<or> ip = ''10.0.0.9''" if "e \<in> set sampleDay" "enrolledBy sampleConfig ip e" for e ip
  proof -
    have "host ''10.0.0.8:5000'' = ''10.0.0.8''" "host ''10.0.0.9:5000'' = ''10.0.0.9''" by code_simp+
    with that show ?thesis by (auto simp: sampleDay_def enrolledBy_def sampleRequest_def)
  qed
  ultimately show ?thesis using life by (auto simp: sampleStore_keys sampleConfig_ops intro!: exI [of _ w'])
qed

text \<open>C12: The invariants of the databases hold all the life of a master: every table has one row per key, the cache sequence
  is not negative, every certificate is filed under its serial; and the revocations, the cache sequence and the CRL
  number never go down.\<close>

theorem master_invariants:
  assumes "life L cfg ca w es w'" "dbInv wf_store w" "dbInv seqOk w" "dbInv serialKeyed w"
  shows "dbInv wf_store w' \<and> dbInv seqOk w' \<and> dbInv serialKeyed w' \<and> storeRel grows w w'"
  using assms(2-4) life_rel [OF assms(1) adminRel_wf] life_rel [OF assms(1) adminRel_seqOk]
    life_rel [OF assms(1) adminRel_serialKeyed] life_rel [OF assms(1) adminRel_grows]
  by (simp add: keepsP_def)

theorem master_invariants_witness:
  "\<exists>w'. life SL sampleConfig sampleCA SW sampleDay w' \<and> dbInv wf_store w' \<and> dbInv seqOk w' \<and> dbInv serialKeyed w'"
proof -
  obtain w' where life: "life SL sampleConfig sampleCA SW sampleDay w'" using life_total by blast
  with master_invariants [OF life] show ?thesis by (auto simp: SW_inv sampleStore_ok)
qed

section \<open>The commands of the administrator\<close>

lemma sample_admin_texts:
  "bigSetString16 ''cd'' = Some 205" "bigSetString16 ''ab'' = Some 171" "clientIP ''10.0.0.7'' = Some ''10.0.0.7''"
  by code_simp+

lemma normalizeSerial_ab: "normalizeSerial L ''AB'' = ''ab''" "normalizeSerial L ''ab'' = ''ab''"
proof -
  have "normalizeSerial L ''ab'' = bigText16 171" "normalizeSerial L ''AB'' = bigText16 171"
    by (rule normalizeSerial_canonical, code_simp, simp)+
  then show "normalizeSerial L ''AB'' = ''ab''" "normalizeSerial L ''ab'' = ''ab''" by (simp_all add: sample_texts)
qed

lemmas admin_ops = LoadCA_def LoadCAFromPEM_def BuildCRLDER_def WriteCRL_def int64_id sample_admin_texts normalizeSerial_ab
  RunRevokeCert_def RunBlockClient_def RevokeCert_def crlReasonUnspecified_def

text \<open>C16: The revoke command. When it succeeds, the serial it was given, in any spelling, is in the revocation table under
  its one form, nothing else in the tables changed, and the CRL file was replaced by a list signed by the root
  whose entries are the serials of the table, the new one among them.\<close>

theorem revoke_command:
  assumes "RunRevokeCert L cfg serial w = (Inr u, w')" "crlOk L" "pemOk L" "dbs w (dbPath cfg) = Some s"
  shows "\<exists>n > 0. \<exists>s' data crl ca. serialForm L (normalizeSerial L serial) = Some (bigText16 n) \<and> dbs w' (dbPath cfg) = Some s'
    \<and> revokedKeys s' = insert (bigText16 n) (revokedKeys s) \<and> clientKeys s' = clientKeys s \<and> blockedKeys s' = blockedKeys s
    \<and> certsTab s' = certsTab s \<and> validCA L ca \<and> fs w' (crlPath cfg) = Some (File data o644) \<and> parseCRL L data = Inr crl
    \<and> crlCheckSignatureFrom L crl (Cert ca) \<and> n \<in> entrySerial ` set (RevokedCertificateEntries crl)
    \<and> entrySerial ` set (RevokedCertificateEntries crl) = {m. \<exists>x \<in> revokedKeys s'. bigSetString16 x = Some m}"
  using assms by (rule RunRevokeCert_Inr) (simp, blast)

theorem revoke_command_witness:
  "\<exists>u w' s' data crl. RunRevokeCert SL sampleConfig ''AB'' SW = (Inr u, w') \<and> dbs w' ''/d/natssl.db'' = Some s'
     \<and> revokedKeys s' = {''ab'', ''cd''} \<and> fs w' ''/d/root-ca.crl'' = Some (File data o644) \<and> parseCRL SL data = Inr crl
     \<and> entrySerial ` set (RevokedCertificateEntries crl) = {171, 205}"
proof -
  have "isInr (RunRevokeCert SL sampleConfig ''AB'' SW)"
    by (simp add: run_ops admin_ops cong: run_blocks del: run_off split del: if_split)
  then obtain u w' where run: "RunRevokeCert SL sampleConfig ''AB'' SW = (Inr u, w')" by (rule isInrE)
  have f: "serialForm SL ''ab'' = Some (bigText16 171)" by (simp add: serialForm_def normalizeSerial_ab sample_admin_texts)
  from revoke_command [OF run _ _ SW_db] obtain n s' data crl where *: "serialForm SL ''ab'' = Some (bigText16 n)"
    "dbs w' (dbPath sampleConfig) = Some s'" "revokedKeys s' = insert (bigText16 n) (revokedKeys sampleStore)"
    "fs w' (crlPath sampleConfig) = Some (File data o644)" "parseCRL SL data = Inr crl"
    "entrySerial ` set (RevokedCertificateEntries crl) = {m. \<exists>x \<in> revokedKeys s'. bigSetString16 x = Some m}"
    by (auto simp: normalizeSerial_ab)
  with f have n: "bigText16 n = ''ab''" by (simp add: sample_texts)
  have r: "revokedKeys s' = {''ab'', ''cd''}" using *(3) n by (simp add: sampleStore_keys)
  then have "{m. \<exists>x \<in> revokedKeys s'. bigSetString16 x = Some m} = {171, 205}" by (auto simp: sample_admin_texts)
  with * r run show ?thesis by (auto simp: sampleConfig_ops)
qed

text \<open>C18: Reissuing is atomic. Whatever fails on the way: either the tables are as before, or the new certificate is recorded,
  every other certificate of the subject is revoked, nobody else is touched, and the certificate file is the new one.\<close>

theorem reissue_atomic: "guar (reissued L cfg (canonicalTarget L subject)) (RunReissueCert L cfg subject local)"
  by (rule RunReissueCert_atomic)

text \<open>C17: The block command. When it succeeds, the address it was given is blocked in its one form and off the registry, and
  nothing else in the tables changed; the client with this address does not pass the gate and cannot enrol.\<close>

theorem block_command:
  assumes "RunBlockClient L cfg ip0 why w = (Inr u, w')" "dbs w (dbPath cfg) = Some s"
  shows "\<exists>ip s'. clientIP ip0 = Some ip \<and> dbs w' (dbPath cfg) = Some s' \<and> blockedKeys s' = insert ip (blockedKeys s)
    \<and> clientKeys s' = clientKeys s - {ip} \<and> revokedKeys s' = revokedKeys s \<and> certsTab s' = certsTab s
    \<and> (\<forall>r cert. presentedIdentity r = Some (cert, ip) \<longrightarrow> \<not> authorized L s' r)
    \<and> (\<forall>r. host (RemoteAddr r) = ip \<longrightarrow> \<not> mayEnrol cfg s' r)"
proof -
  from assms obtain ip s' where *: "clientIP ip0 = Some ip" "dbs w' (dbPath cfg) = Some s'" "blockedKeys s' = insert ip (blockedKeys s)"
    "clientKeys s' = clientKeys s - {ip}" "revokedKeys s' = revokedKeys s" "certsTab s' = certsTab s" by (rule RunBlockClient_Inr)
  then have o: "outside ip s'" by (simp add: outside_def)
  have "TrimSpace ip = ip" using clientIP_Some [OF *(1)] by blast
  with outside_refused [OF o this] outside_unauthorized [OF o] * show ?thesis by (intro exI [of _ ip] exI [of _ s']) auto
qed

theorem block_command_witness:
  "\<exists>u w' s'. RunBlockClient SL sampleConfig ''10.0.0.7'' ''lost'' SW = (Inr u, w') \<and> dbs w' ''/d/natssl.db'' = Some s'
     \<and> blockedKeys s' = {''10.0.0.7'', ''10.0.0.9''} \<and> clientKeys s' = {}
     \<and> \<not> authorized SL s' (sampleRequest ''GET'' ''/sync/cache'' ''10.0.0.7:1'' '''' '''' (Some sampleTLS))"
proof -
  have "isInr (RunBlockClient SL sampleConfig ''10.0.0.7'' ''lost'' SW)"
    by (simp add: run_ops admin_ops cong: run_blocks del: run_off split del: if_split)
  then obtain u w' where run: "RunBlockClient SL sampleConfig ''10.0.0.7'' ''lost'' SW = (Inr u, w')" by (rule isInrE)
  have p: "presentedIdentity (sampleRequest ''GET'' ''/sync/cache'' ''10.0.0.7:1'' '''' '''' (Some sampleTLS)) = Some (sampleId, ''10.0.0.7'')"
    by (simp add: run_ops presentedIdentity_def TrimPrefix_def)
  from block_command [OF run SW_db] obtain s' where "dbs w' (dbPath sampleConfig) = Some s'"
    "blockedKeys s' = insert ''10.0.0.7'' (blockedKeys sampleStore)" "clientKeys s' = clientKeys sampleStore - {''10.0.0.7''}"
    "\<forall>r cert. presentedIdentity r = Some (cert, ''10.0.0.7'') \<longrightarrow> \<not> authorized SL s' r"
    by (auto simp: sample_admin_texts)
  with run p show ?thesis by (auto simp: sampleStore_keys sampleConfig_ops)
qed


section \<open>What is published\<close>

text \<open>C10: The published cache is worth a master. When it is rebuilt, the file is a cache of version 1 signed by the root, with a
  sequence number above every one the database gave before, which is where the counter then stands; and the holder of the recovery key decrypts it to the
  snapshot of the database: clients, certificates, revocations, blocks, CRL number and the root key pair.\<close>

theorem published_cache_is_recoverable:
  assumes "RebuildEncryptedCache L cfg ca st w = (Inr u, w')" "dbs w st = Some s" "seqOk s" "validCA L ca"
    "recoveryPair L rk" "RecoveryPublicFromBase64 L (RecoveryPublicKey cfg) = Inr (Public rk)"
    "boxOk L" "gcmOk L" "randomOk L" "ecdsaOk L"
  shows "\<exists>snap ec v. fs w' (cachePath cfg) = Some (File (jsonPrint L (cacheJSON L ec)) o600)
    \<and> ecVersion ec = 1 \<and> Verify L ec (Cert ca) = None \<and> stateGet ''cache_sequence'' s = Some v \<and> v < uint (ecSequence ec)
    \<and> DecryptCache L ec rk = Inr (jsonPrint L (snapshotJSON L (publishedSnapshot cfg snap (ecSequence ec))))
    \<and> snapshotOfStore L ca s snap \<and> dbLevel ''cache_sequence'' st w' = uint (ecSequence ec)"
  using assms by (rule Rebuild_Inr) blast

lemma sample_recovery:
  "recoveryPair SL \<lparr>Private = recoveryKeyBytes, Public = recoveryKeyBytes\<rparr>"
  "RecoveryPublicFromBase64 SL (RecoveryPublicKey sampleConfig) = Inr recoveryKeyBytes"
  by (simp_all add: recoveryPair_def RecoveryPublicFromBase64_def SL_ops sampleConfig_ops recoveryKeyBytes_def)

lemma sample_validCA: "validCA SL sampleCA"
  by (simp add: validCA_def SL_ops sampleCA_ops sampleCerts_def)

theorem published_cache_is_recoverable_witness:
  "\<exists>u w' snap ec. RebuildEncryptedCache SL sampleConfig sampleCA ''/d/natssl.db'' SW = (Inr u, w')
     \<and> fs w' ''/d/network-cache.enc'' = Some (File (jsonPrint SL (cacheJSON SL ec)) o600) \<and> 4 < uint (ecSequence ec)
     \<and> DecryptCache SL ec \<lparr>Private = recoveryKeyBytes, Public = recoveryKeyBytes\<rparr>
         = Inr (jsonPrint SL (snapshotJSON SL (publishedSnapshot sampleConfig snap (ecSequence ec))))
     \<and> snClients snap = [''10.0.0.7'']"
proof -
  have "isInr (RebuildEncryptedCache SL sampleConfig sampleCA ''/d/natssl.db'' SW)"
    by (simp add: run_ops cong: run_blocks del: run_off split del: if_split)
  then obtain u w' where run: "RebuildEncryptedCache SL sampleConfig sampleCA ''/d/natssl.db'' SW = (Inr u, w')" by (rule isInrE)
  have db: "dbs SW ''/d/natssl.db'' = Some sampleStore" by (simp add: SW_def sampleWorld_def)
  from published_cache_is_recoverable [OF run db, of "\<lparr>Private = recoveryKeyBytes, Public = recoveryKeyBytes\<rparr>"]
  obtain snap ec v where *: "fs w' (cachePath sampleConfig) = Some (File (jsonPrint SL (cacheJSON SL ec)) o600)"
    "stateGet ''cache_sequence'' sampleStore = Some v" "v < uint (ecSequence ec)"
    "DecryptCache SL ec \<lparr>Private = recoveryKeyBytes, Public = recoveryKeyBytes\<rparr>
         = Inr (jsonPrint SL (snapshotJSON SL (publishedSnapshot sampleConfig snap (ecSequence ec))))"
    "snapshotOfStore SL sampleCA sampleStore snap"
    by (auto simp: sampleStore_ok sample_validCA sample_recovery)
  moreover have "v = 4" using *(2) by (simp add: sampleStore_def stateGet_def getKey_def)
  moreover have "snClients snap = [''10.0.0.7'']" using *(5) by (simp add: snapshotOfStore_def sampleStore_def)
  ultimately show ?thesis using run by (auto simp: sampleConfig_ops)
qed

text \<open>C11: The revocation list is complete. When it is written, the file is a list signed by the root, numbered above every
  list before, whose entries are exactly the serials of the revocation table.\<close>

theorem revocation_list_is_complete:
  assumes "WriteCRL L cfg ca st w = (Inr u, w')" "dbs w st = Some s" "crlOk L" "pemOk L"
    "PublicKey (Cert ca) = ECDSAKey (publicOf L (Key ca))"
  shows "\<exists>data crl n. fs w' (crlPath cfg) = Some (File data o644) \<and> parseCRL L data = Inr crl
    \<and> crlNumber crl = Some n \<and> dbLevel ''crl_number'' st w < n \<and> dbLevel ''crl_number'' st w' = n
    \<and> crlCheckSignatureFrom L crl (Cert ca)
    \<and> entrySerial ` set (RevokedCertificateEntries crl) = {m. \<exists>r \<in> set (revokedTab s). bigSetString16 (rvSerialHex r) = Some m}"
  using assms by (rule WriteCRL_Inr) blast

theorem revocation_list_is_complete_witness:
  "\<exists>u w' data crl. WriteCRL SL sampleConfig sampleCA ''/d/natssl.db'' SW = (Inr u, w')
     \<and> fs w' ''/d/root-ca.crl'' = Some (File data o644) \<and> parseCRL SL data = Inr crl
     \<and> entrySerial ` set (RevokedCertificateEntries crl) = {205}"
proof -
  have "isInr (WriteCRL SL sampleConfig sampleCA ''/d/natssl.db'' SW)"
    by (simp add: run_ops admin_ops cong: run_blocks del: run_off split del: if_split)
  then obtain u w' where run: "WriteCRL SL sampleConfig sampleCA ''/d/natssl.db'' SW = (Inr u, w')" by (rule isInrE)
  have db: "dbs SW ''/d/natssl.db'' = Some sampleStore" by (simp add: SW_def sampleWorld_def)
  from revocation_list_is_complete [OF run db] obtain data crl where *: "fs w' (crlPath sampleConfig) = Some (File data o644)"
    "parseCRL SL data = Inr crl" "entrySerial ` set (RevokedCertificateEntries crl)
       = {m. \<exists>r \<in> set (revokedTab sampleStore). bigSetString16 (rvSerialHex r) = Some m}"
    by (auto simp: SL_ops sampleCA_ops)
  moreover have "{m. \<exists>r \<in> set (revokedTab sampleStore). bigSetString16 (rvSerialHex r) = Some m} = {205}"
    by (auto simp: sampleStore_def sample_admin_texts)
  ultimately show ?thesis using run by (auto simp: sampleConfig_ops)
qed




section \<open>Files\<close>

text \<open>C23: Files are replaced atomically. In every file system state that \<^verbatim>\<open>atomicWriteFile\<close> passes through, its target is what it was
  before or, from some moment on, the complete new file with its mode. If it fails, the target was never touched; if it
  succeeds, the target is the new file. A crash at any moment leaves one of the two.\<close>

theorem files_are_replaced_atomically:
  assumes "\<not> isTempName path" "atomicWriteFile path data mode w = (r, w')"
  shows "\<exists>T U. fsTrace w' = fsTrace w @ T @ U \<and> (\<forall>F \<in> set T. F path = fs w path) \<and> (\<forall>F \<in> set U. F path = Some (File data mode))
    \<and> (case r of Inl _ \<Rightarrow> U = [] \<and> fs w' path = fs w path | Inr _ \<Rightarrow> fs w' path = Some (File data mode))"
  using atomicWriteFile_outcome [OF assms]
proof (elim disjE conjE exE)
  fix e assume "r = Inl e" "untouched path w w'"
  then show ?thesis unfolding untouched_def by fastforce
next
  assume "r = Inr ()" "replaced path data mode w w'"
  then show ?thesis unfolding replaced_def by auto
qed

theorem files_are_replaced_atomically_witness:
  "\<exists>r w'. atomicWriteFile ''/d/root-ca.crl'' ''new'' o644 SW = (r, w')
     \<and> (\<forall>F \<in> set (fsTrace w'). F ''/d/root-ca.crl'' = None \<or> F ''/d/root-ca.crl'' = Some (File ''new'' o644))"
proof -
  obtain r w' where run: "atomicWriteFile ''/d/root-ca.crl'' ''new'' o644 SW = (r, w')" by fastforce
  have "\<not> isTempName ''/d/root-ca.crl''" using node_paths_notTemp(4) [of sampleConfig] by (simp add: sampleConfig_ops)
  from files_are_replaced_atomically [OF this run] obtain T U where
    "fsTrace w' = fsTrace SW @ T @ U" "\<forall>F \<in> set T. F ''/d/root-ca.crl'' = fs SW ''/d/root-ca.crl''"
    "\<forall>F \<in> set U. F ''/d/root-ca.crl'' = Some (File ''new'' o644)" by blast
  moreover have "fs SW ''/d/root-ca.crl'' = None" "fsTrace SW = []" by (simp_all add: SW_def sampleWorld_def sampleFs_def)
  ultimately show ?thesis using run by auto
qed

text \<open>C29: An issued key and certificate belong together. If writing them succeeds, both files are the new ones, the key readable
  by its owner only. If it fails, the certificate file is what it was, and so is the key, unless the failure
  says that taking the key back failed too. However the target is spelled, the names of the files have no separator and
  none of the characters that are special to a file system, so that the files stay in the directory of issued pairs.\<close>

theorem issued_files_belong_together:
  "(case writeIssuedFiles L cfg t res w of
     (Inr _, w') \<Rightarrow> fs w' (issuedBase L cfg t @ ''.key'') = Some (File (resKeyPEM res) o600)
       \<and> fs w' (issuedBase L cfg t @ ''.crt'') = Some (File (resCertPEM res) o644)
   | (Inl e, w') \<Rightarrow> fs w' (issuedBase L cfg t @ ''.crt'') = fs w (issuedBase L cfg t @ ''.crt'')
       \<and> (fileBytes (fs w') (issuedBase L cfg t @ ''.key'') = fileBytes (fs w) (issuedBase L cfg t @ ''.key'') \<or> (\<exists>a b. e = Join a b)))
   \<and> baseName (issuedBase L cfg t @ ''.key'') = sanitizeName L t @ ''.key'' \<and> sanitizeName L t \<noteq> ''''
   \<and> set (sanitizeName L t) \<inter> set ''/:*?<>| '' = {} \<and> CHR 0x5C \<notin> set (sanitizeName L t) \<and> CHR 0x22 \<notin> set (sanitizeName L t)"
proof -
  obtain r w' where run: "writeIssuedFiles L cfg t res w = (r, w')" by (cases "writeIssuedFiles L cfg t res w")
  have "baseName (issuedBase L cfg t @ ''.key'') = sanitizeName L t @ ''.key''" by (rule baseName_issued) simp
  moreover have "set (sanitizeName L t) \<inter> set ''/:*?<>| '' = {}" "CHR 0x5C \<notin> set (sanitizeName L t)" "CHR 0x22 \<notin> set (sanitizeName L t)"
    using sanitizeName_safe [of _ L t] by (auto simp: badNameChar_def)
  moreover note sanitizeName_nonempty
  ultimately show ?thesis
    using run by (cases r) (use writeIssuedFiles_Inr writeIssuedFiles_Inl in \<open>auto\<close>)
qed

section \<open>What comes from outside\<close>

text \<open>C40: Bodies are bounded. A request body over 1 MiB is refused with 400 or 413 without touching the state, whatever is in it;
  and an answer of the master is used only if it is at most 1 MiB long.\<close>

theorem bodies_are_bounded:
  assumes "length (Body r) > 1048576" "readBounded body v = (Inr b, v')"
  shows "(\<exists>x. decodeRequest L zero dec r w = (Inl x, w) \<and> status x \<in> {400, 413}) \<and> b = body \<and> length b \<le> 1048576"
proof -
  have "\<exists>x. decodeRequest L zero dec r w = (Inl x, w) \<and> status x \<in> {400, 413}"
    using assms(1) by (auto simp: decodeRequest_def maxBody_def httpError_def Let_def split: option.splits)
  with assms(2) show ?thesis by (auto simp: readBounded_def maxBody_def mayFail_def run_guardE tick_def split: if_splits)
qed

theorem bodies_are_bounded_witness:
  "\<exists>x. decodeRequest SL () (\<lambda>_. Some ()) (sampleRequest ''POST'' ''/acme/register'' ''10.0.0.8:1'' '''' (replicate 1048577 CHR ''x'') None) SW = (Inl x, SW)
     \<and> status x \<in> {400, 413}"
proof -
  have "length (Body (sampleRequest ''POST'' ''/acme/register'' ''10.0.0.8:1'' '''' (replicate 1048577 CHR ''x'') None)) > 1048576"
    by (simp add: sampleRequest_def)
  moreover have "readBounded '''' SW = (Inr '''', SW\<lparr>step := 1\<rparr>)"
    by (simp add: readBounded_def maxBody_def mayFail_def tick_def run_guardE SW_def sampleWorld_def)
  ultimately show ?thesis using bodies_are_bounded by metis
qed

text \<open>C37: The client networks mean what they say. For IPv4 networks as they are written in the configuration, an address is
  allowed if and only if it is an IPv4 address (also when mapped into IPv6) whose leading bits, as many as the
  prefix length says, are those of one of the networks.\<close>

theorem client_networks_are_prefixes:
  assumes "\<forall>(a, n) \<in> set nets. length a = 4 \<and> n \<le> 32"
    "ClientNetworks cfg = map (\<lambda>(a, n). v4String a @ ''/'' @ decOfNat n) nets"
  shows "ClientAllowed cfg s \<longleftrightarrow> (\<exists>ip p. ParseIP s = Some ip \<and> To4 ip = Some p
     \<and> (\<exists>(a, n) \<in> set nets. take n (addrBits p) = take n (addrBits a)))"
proof -
  have "(\<exists>net. ParseCIDR (v4String a @ ''/'' @ decOfNat n) = Some net \<and> netContains net ip)
      \<longleftrightarrow> (\<exists>p. To4 ip = Some p \<and> take n (addrBits p) = take n (addrBits a))" if "(a, n) \<in> set nets" for a n ip
  proof -
    have l: "length a = 4" "n \<le> 32" using assms(1) that by auto
    show ?thesis unfolding ParseCIDR_v4 [OF l] using netContains_v4 [OF l] by simp
  qed
  then have "anyNetwork (ClientNetworks cfg) ip \<longleftrightarrow> (\<exists>p. To4 ip = Some p \<and> (\<exists>(a, n) \<in> set nets. take n (addrBits p) = take n (addrBits a)))" for ip
    by (simp add: anyNetwork_iff assms(2) split_beta) (metis prod.collapse)
  then show ?thesis by (auto simp: ClientAllowed_def split: option.splits)
qed

theorem client_networks_are_prefixes_witness:
  "ClientAllowed sampleConfig ''10.1.2.3'' \<and> \<not> ClientAllowed sampleConfig ''11.1.2.3''"
proof -
  have net: "ClientNetworks sampleConfig = map (\<lambda>(a, n). v4String a @ ''/'' @ decOfNat n) [([10, 0, 0, 0], 8)]"
    unfolding sampleConfig_ops by code_simp
  have ips: "ParseIP ''10.1.2.3'' = Some (as16 [10, 1, 2, 3])" "ParseIP ''11.1.2.3'' = Some (as16 [11, 1, 2, 3])" by code_simp+
  have to4: "To4 (as16 [10, 1, 2, 3]) = Some [10, 1, 2, 3]" "To4 (as16 [11, 1, 2, 3]) = Some [11, 1, 2, 3]" by code_simp+
  have bits: "take 8 (addrBits [10, 1, 2, 3]) = take 8 (addrBits [10, 0, 0, 0])"
    "take 8 (addrBits [11, 1, 2, 3]) \<noteq> take 8 (addrBits [10, 0, 0, 0])" by code_simp+
  show ?thesis using client_networks_are_prefixes [OF _ net] ips to4 bits by auto
qed


text \<open>C38: Every spelling of an address or a serial means one thing. What a command makes of an address is its own form and has no
  spaces around it; two spellings have the same form if and only if they parse to the same address; printing and
  parsing an address gives it back. A serial is brought into the form its certificate's serial is printed in.\<close>

theorem one_spelling:
  assumes "clientIP s = Some t" "clientIP s' = Some t'" "serialForm L x = Some y" "length ip = 16"
  shows "clientIP t = Some t \<and> TrimSpace t = t \<and> (t = t' \<longleftrightarrow> ParseIP (TrimSpace s) = ParseIP (TrimSpace s'))
    \<and> ParseIP (ipString ip) = Some ip \<and> serialForm L y = Some y \<and> (\<exists>n > 0. y = bigText16 n \<and> bigSetString16 y = Some n)"
proof -
  from clientIP_Some [OF assms(1)] clientIP_Some [OF assms(2)] obtain a b where
    "ParseIP (TrimSpace s) = Some a" "ParseIP (TrimSpace s') = Some b" "t = ipString a" "t' = ipString b" "length a = 16" "length b = 16"
    "TrimSpace t = t" by blast
  moreover from serialForm_Some [OF assms(3)] obtain n where "0 < n" "y = bigText16 n" by blast
  ultimately show ?thesis
    using addresses.canon_canon [OF assms(1)] serials.canon_canon [OF assms(3)] ParseIP_ipString [OF assms(4)]
    by (auto simp: ipString_inj)
qed

theorem one_spelling_witness:
  "clientIP '' ::ffff:10.0.0.7'' = Some ''10.0.0.7'' \<and> clientIP ''10.0.0.7'' = Some ''10.0.0.7'' \<and> ParseIP (ipString ip6loopback) = Some ip6loopback"
proof -
  have s: "clientIP '' ::ffff:10.0.0.7'' = Some ''10.0.0.7''" by code_simp
  have f: "serialForm SL ''AB'' = Some ''ab''"
    by (simp add: serialForm_def normalizeSerial_ab sample_admin_texts sample_texts)
  have l: "length ip6loopback = 16" by (simp add: ip6loopback_bytes)
  from one_spelling [OF s s f l] s show ?thesis by simp
qed

section \<open>Keys\<close>

text \<open>C35: The snapshot survives its journey. A snapshot whose numbers fit and whose texts are ASCII is read back from its JSON
  text as it was.\<close>

theorem snapshot_survives_json:
  assumes "jsonOk L" "timeTextOk L" "snapshotFits s" "asciiSnapshot s"
  shows "jsonUnmarshal L zeroSnapshot (snapshotOfJSON L) (jsonPrint L (snapshotJSON L s)) = Some s"
  by (rule snapshot_roundtrip [OF assms])

theorem snapshot_survives_json_witness:
  "jsonUnmarshal SL zeroSnapshot (snapshotOfJSON SL) (jsonPrint SL (snapshotJSON SL (zeroSnapshot\<lparr>snClients := [''10.0.0.7''], snCRLNumber := 7\<rparr>)))
     = Some (zeroSnapshot\<lparr>snClients := [''10.0.0.7''], snCRLNumber := 7\<rparr>)"
  by (rule snapshot_survives_json) (simp_all add: snapshotFits_def asciiSnapshot_def zeroSnapshot_def)

text \<open>C33: The words bring the key back. When a recovery key is generated, the words printed once give the same key pair, and a
  secret sealed to its public key is opened with it.\<close>

theorem words_bring_the_key_back:
  assumes "GenerateRecovery L w = (Inr (rk, words), w')" "SealKeyToRecovery L k (Public rk) v = (Inr sealed, v')" "bip39Ok L" "boxOk L"
  shows "RecoveryFromMnemonic L words = Inr rk \<and> OpenKeyWithRecovery L sealed rk = Inr k \<and> length sealed = length k + 48"
  using GenerateRecovery_words [OF assms(1,3)] SealKey_opens [OF assms(2) _ assms(4)] by simp

theorem words_bring_the_key_back_witness:
  "\<exists>rk words w' sealed v'. GenerateRecovery SL SW = (Inr (rk, words), w') \<and> SealKeyToRecovery SL ''key'' (Public rk) w' = (Inr sealed, v')
     \<and> RecoveryFromMnemonic SL words = Inr rk \<and> OpenKeyWithRecovery SL sealed rk = Inr ''key''"
proof -
  have "isInr (GenerateRecovery SL SW)"
    by (simp add: run_ops GenerateRecovery_def recoveryFromEntropy_def cong: run_blocks del: run_off split del: if_split)
  then obtain y w' where "GenerateRecovery SL SW = (Inr y, w')" by (rule isInrE)
  then obtain rk words where run: "GenerateRecovery SL SW = (Inr (rk, words), w')" by (cases y) auto
  have "guar (same faults) (GenerateRecovery SL)" by (auto intro!: guar_intros)
  then have "faults w' = faults SW" using run by (rule guar_sameD)
  then have "isInr (SealKeyToRecovery SL ''key'' (Public rk) w')"
    by (simp add: SealKeyToRecovery_def SL_ops mayFail_def tick_def random_def run_guardE SW_def sampleWorld_def isInr_def)
  then obtain sealed v' where s: "SealKeyToRecovery SL ''key'' (Public rk) w' = (Inr sealed, v')" by (rule isInrE)
  from words_bring_the_key_back [OF run s] run s show ?thesis by simp
qed

text \<open>C39: A root key pair is what it is. What is loaded from PEM files is a self-signed CA certificate with the private key of its
  public key, and every such pair that was saved is loaded as it was.\<close>

theorem loaded_root_is_valid:
  assumes "pemOk L" "pkcs8Ok L" "marshalPKCS8 L (Key ca) = Some kd"
  shows "(LoadCAFromPEM L (pemEncode L ty (CertDER ca)) (pemEncode L ty' kd) = Inr ca \<longleftrightarrow> validCA L ca)
    \<and> (\<forall>c k ca'. LoadCAFromPEM L c k = Inr ca' \<longrightarrow> validCA L ca')"
  using LoadCAFromPEM_iff [OF assms] LoadCAFromPEM_valid by blast

theorem loaded_root_is_valid_witness:
  "LoadCAFromPEM SL (pemEncode SL ''CERTIFICATE'' ''R'') (pemEncode SL ''PRIVATE KEY'' ''k'') = Inr sampleCA"
proof -
  have "LoadCAFromPEM SL (pemEncode SL ''CERTIFICATE'' (CertDER sampleCA)) (pemEncode SL ''PRIVATE KEY'' ''k'') = Inr sampleCA \<longleftrightarrow> validCA SL sampleCA"
    using loaded_root_is_valid [of SL sampleCA "''k''"] by (simp add: SL_ops sampleCA_ops)
  then show ?thesis using sample_validCA by (simp add: sampleCA_ops)
qed

end
