(* ===== verification/Migrate.thy ===== *)
theory Migrate
  imports Server
begin

text \<open>
  \<^verbatim>\<open>migrate.go\<close>: after a promotion the new master announces its address in a packet signed with the root key. A
  client's listener checks the signature (\<open>migrationHandler\<close>) and hands the packet to the event loop, which
  checks it again and moves to the new master if the packet is fresh (\<open>applyMigration\<close>).

  The lemmas: only a packet signed by the local root moves a client, the address it moves to is a proper one, and
  the time of the last migration only increases, so no packet is applied twice.
\<close>

record MigrationPacket =
  NewMasterIP :: string
  IssuedAt :: time
  mpSignature :: bytes

definition zeroPacket :: MigrationPacket where
  "zeroPacket = \<lparr>NewMasterIP = '''', IssuedAt = zeroTime, mpSignature = []\<rparr>"

definition packetJSON :: "lib \<Rightarrow> MigrationPacket \<Rightarrow> json" where
  "packetJSON L p = JObj [(''new_master_ip'', JStr (NewMasterIP p)), (''issued_at'', JStr (timeText L (IssuedAt p))),
     (''signature'', encBytes L (mpSignature p))]"

definition packetOfJSON :: "lib \<Rightarrow> (string \<times> json) list \<Rightarrow> MigrationPacket option" where
  "packetOfJSON L kvs =
     do { ip \<leftarrow> decField decStr '''' ''new_master_ip'' kvs; t \<leftarrow> decField (decTime L) zeroTime ''issued_at'' kvs;
          sg \<leftarrow> decSlice (decBytes L) ''signature'' kvs;
          Some \<lparr>NewMasterIP = ip, IssuedAt = t, mpSignature = sg\<rparr> }"


definition migrationDigest :: "lib \<Rightarrow> MigrationPacket \<Rightarrow> bytes" where
  "migrationDigest L pkt = sha256 L (''natssl-migrate|'' @ NewMasterIP pkt @ ''|'' @ decOfInt (int64 (IssuedAt pkt)))"

definition verifyMigrationSig :: "lib \<Rightarrow> Config \<Rightarrow> MigrationPacket \<Rightarrow> unit io" where
  "verifyMigrationSig L cfg pkt =
     bnd (onErr (Wrap ''no local Root CA'') (osReadFile (caCertPath cfg))) (\<lambda>pem.
     case pemDecode L pem of
       None \<Rightarrow> throw (Msg ''local Root CA is not valid PEM'')
     | Some (_, b) \<Rightarrow>
       bnd (need (Msg ''x509: cannot parse certificate'') (parseCertificate L b)) (\<lambda>cert.
       case PublicKey cert of
         OtherKey _ \<Rightarrow> throw (Msg ''Root CA key is not ECDSA'')
       | ECDSAKey pub \<Rightarrow>
           guardE (verifyASN1 L pub (migrationDigest L pkt) (mpSignature pkt))
             (Msg ''signature does not verify against the Root CA'')))"

text \<open>The listener's part of a request to \<^verbatim>\<open>/migrate\<close>: an early answer, or the packet for the event loop.\<close>

definition migrationHandler :: "lib \<Rightarrow> Config \<Rightarrow> httpRequest \<Rightarrow> (world, httpResponse, MigrationPacket) prog" where
  "migrationHandler L cfg r =
     (if Method r \<noteq> ''CONNECT'' \<and> cleanPath (URLPath r) \<noteq> URLPath r then
        throw (Reply 301 [(''Location'', cleanPath (URLPath r))] '''')
      else if URLPath r \<noteq> ''/migrate'' then throw (httpError ''404 page not found'' 404)
      else
      bnd (requireMethod ''POST'' r) (\<lambda>_.
      bnd (decodeRequest L zeroPacket (packetOfJSON L) r) (\<lambda>packet.
      bnd (onErr (\<lambda>e. httpError (errText e) 403) (verifyMigrationSig L cfg packet)) (\<lambda>_.
      ret packet))))"

text \<open>What the listener answers when the event loop is done with the packet.\<close>

definition migrationReply :: "error + 'a \<Rightarrow> httpResponse" where
  "migrationReply res = (case res of Inl e \<Rightarrow> httpError (errText e) 403 | Inr _ \<Rightarrow> ok [] ''ok'')"

text \<open>The configuration is replaced when it is saved, and as before when it is not.\<close>

definition applyMigration :: "lib \<Rightarrow> Config \<Rightarrow> MigrationPacket \<Rightarrow> Config io" where
  "applyMigration L cfg pkt =
     bnd (verifyMigrationSig L cfg pkt) (\<lambda>_.
     case ParseIP (NewMasterIP pkt) of
       None \<Rightarrow> throw (Msg ''invalid migration address'')
     | Some ip \<Rightarrow>
       if IsUnspecified ip \<or> IsMulticast ip then throw (Msg ''invalid migration address'')
       else
       bnd timeNow (\<lambda>now.
       if IssuedAt pkt < now - 5 * minute \<or> IssuedAt pkt > now + minute \<or> \<not> IssuedAt pkt > LastMigration cfg then
         throw (Msg ''stale or replayed migration'')
       else
       Save L (cfg\<lparr>MasterAddress := ipString ip, MasterMgmtAddress := '''', LastMigration := IssuedAt pkt\<rparr>)))"

section \<open>Lemmas\<close>

lemma packet_roundtrip:
  assumes "base64Ok L" "timeTextOk L" "jsonOk L" "isASCII (NewMasterIP p)"
  shows "jsonUnmarshal L zeroPacket (packetOfJSON L) (jsonPrint L (packetJSON L p)) = Some p"
proof -
  let ?kvs = "[(''new_master_ip'', JStr (NewMasterIP p)), (''issued_at'', JStr (timeText L (IssuedAt p))),
     (''signature'', encBytes L (mpSignature p))]"
  have d: "distinctKeys ?kvs" by (simp add: distinctKeys_def lowerChar_def)
  have "jsonASCII (packetJSON L p)"
    using assms by (auto simp: packetJSON_def timeTextOk_def base64Ok_def encBytes_def)
  then have "jsonParse L (jsonPrint L (packetJSON L p)) = Some (JObj ?kvs)"
    using assms(3) by (simp add: jsonOk_def packetJSON_def)
  moreover have "packetOfJSON L ?kvs = Some p"
    using assms d by (simp add: packetOfJSON_def decField_value [OF d] decSlice_encBytes [OF d])
  ultimately show ?thesis by (simp add: jsonUnmarshal_def)
qed

lemma guar_verifyMigrationSig [guar_intros]: "quiet R \<Longrightarrow> guar R (verifyMigrationSig L cfg pkt)"
  unfolding verifyMigrationSig_def by (auto intro!: guar_intros split: pubkey.splits)

lemma guar_migrationHandler [guar_intros]: "quiet R \<Longrightarrow> guar R (migrationHandler L cfg r)"
  unfolding migrationHandler_def by (auto intro!: guar_intros)

text \<open>A packet that verifies is signed with the key of the certificate in the file of the root.\<close>

definition signedBy :: "lib \<Rightarrow> Config \<Rightarrow> filesys \<Rightarrow> MigrationPacket \<Rightarrow> bool" where
  "signedBy L cfg F pkt \<longleftrightarrow> (\<exists>pem ty b cert pub. fileBytes F (caCertPath cfg) = Some pem
     \<and> pemDecode L pem = Some (ty, b) \<and> parseCertificate L b = Some cert \<and> PublicKey cert = ECDSAKey pub
     \<and> verifyASN1 L pub (migrationDigest L pkt) (mpSignature pkt))"

lemma verifyMigrationSig_Inr:
  "verifyMigrationSig L cfg pkt w = (Inr u, w') \<Longrightarrow> signedBy L cfg (fs w) pkt \<and> fs w' = fs w"
  by (auto simp: verifyMigrationSig_def signedBy_def split: option.splits pubkey.splits dest!: osReadFile_Inr)

lemma migrationHandler_Inr:
  "migrationHandler L cfg r w = (Inr pkt, w') \<Longrightarrow> signedBy L cfg (fs w) pkt \<and> fs w' = fs w \<and> Method r = ''POST''"
  unfolding migrationHandler_def decodeRequest_def requireMethod_def
  by (auto simp: Let_def split: if_splits option.splits dest!: verifyMigrationSig_Inr)

lemma guar_Save_blind [blind_intros]: "fileBlind R \<Longrightarrow> guar R (Save L cfg)"
  unfolding Save_def Let_def by (auto intro!: guar_intros blind_intros)

lemma guar_applyMigration_blind [blind_intros]: "fileBlind R \<Longrightarrow> guar R (applyMigration L cfg pkt)"
  unfolding applyMigration_def by (auto intro!: guar_intros blind_intros)

text \<open>What a migration may change of the configuration.\<close>

definition moved :: "Config \<Rightarrow> Config \<Rightarrow> bool" where
  "moved c c' \<longleftrightarrow> (\<exists>a m t p. c' = c\<lparr>MasterAddress := a, MasterMgmtAddress := m, LastMigration := t, cfgPath := p\<rparr>)"

lemma Save_Inr:
  assumes "Save L c w = (Inr c', w')"
  shows "c' = c\<lparr>cfgPath := (if cfgPath c = '''' then ''/etc/natssl/config.yaml'' else cfgPath c)\<rparr>"
  using assms by (auto simp: Save_def Let_def split: option.splits if_splits)

lemma applyMigration_Inr:
  assumes "applyMigration L cfg pkt w = (Inr cfg', w')"
  obtains ip now p where "signedBy L cfg (fs w) pkt" "ParseIP (NewMasterIP pkt) = Some ip"
    "\<not> IsUnspecified ip" "\<not> IsMulticast ip" "now - 5 * minute \<le> IssuedAt pkt" "IssuedAt pkt \<le> now + minute"
    "LastMigration cfg < IssuedAt pkt"
    "cfg' = cfg\<lparr>MasterAddress := ipString ip, MasterMgmtAddress := '''', LastMigration := IssuedAt pkt, cfgPath := p\<rparr>"
proof -
  from assms obtain w1 w2 ip now where v: "verifyMigrationSig L cfg pkt w = (Inr (), w1)"
    and ip: "ParseIP (NewMasterIP pkt) = Some ip" "\<not> IsUnspecified ip" "\<not> IsMulticast ip"
    and t: "now - 5 * minute \<le> IssuedAt pkt" "IssuedAt pkt \<le> now + minute" "LastMigration cfg < IssuedAt pkt"
    and s: "Save L (cfg\<lparr>MasterAddress := ipString ip, MasterMgmtAddress := '''', LastMigration := IssuedAt pkt\<rparr>) w2 = (Inr cfg', w')"
    by (auto simp: applyMigration_def not_less split: option.splits if_splits)
  from Save_Inr [OF s] obtain p where
    "cfg' = cfg\<lparr>MasterAddress := ipString ip, MasterMgmtAddress := '''', LastMigration := IssuedAt pkt, cfgPath := p\<rparr>"
    by simp
  with verifyMigrationSig_Inr [OF v] ip t that show thesis by blast
qed

lemma moved_paths:
  assumes "moved c c'"
  shows "caCertPath c' = caCertPath c" "cachePath c' = cachePath c" "crlPath c' = crlPath c"
    "identityKeyPath c' = identityKeyPath c" "identityCertPath c' = identityCertPath c"
    "MasterFingerprint c' = MasterFingerprint c" "DataDir c' = DataDir c"
  using assms by (auto simp: moved_def node_path_defs)

lemma moved_refl: "moved c c"
  unfolding moved_def by (intro exI [of _ "MasterAddress c"] exI [of _ "MasterMgmtAddress c"]
      exI [of _ "LastMigration c"] exI [of _ "cfgPath c"]) simp

lemma moved_trans: "moved a b \<Longrightarrow> moved b c \<Longrightarrow> moved a c"
  by (fastforce simp: moved_def)

lemma applyMigration_moved: "applyMigration L cfg pkt w = (Inr cfg', w') \<Longrightarrow> moved cfg cfg'"
  by (erule applyMigration_Inr) (auto simp: moved_def)

end
