(* ===== verification/ClientIssue.thy ===== *)
theory ClientIssue
  imports Cache
begin

text \<open>
  \<^verbatim>\<open>client_issue.go\<close>: a client asks the master for a certificate for its own loopback names. The key is made on
  the client, the request goes over the control plane, the reply is checked against the local root before
  anything is written (\<open>validateIssuedCertificate\<close>), and the key is stored encrypted under a password
  (\<open>encryptKey\<close>, \<open>decryptKey\<close>). What the user types is a parameter.

  The lemmas: the encrypted key opens with the password it was encrypted with; what is written by a successful
  run is a loopback certificate for the key in the encrypted file, whatever the master sent; the key itself is
  never sent; a failed run before the files leaves them as they were.
\<close>

definition scryptN :: nat where "scryptN = 2 ^ 15"
definition scryptR :: nat where "scryptR = 8"
definition scryptP :: nat where "scryptP = 1"
definition scryptKeyLen :: nat where "scryptKeyLen = 32"
definition saltLen :: nat where "saltLen = 16"

section \<open>The encrypted key\<close>

definition encryptKey :: "lib \<Rightarrow> bytes \<Rightarrow> string \<Rightarrow> bytes io" where
  "encryptKey L plaintext password =
     bnd (mayFail IOErr) (\<lambda>_.
     bnd random (\<lambda>r1.
     let salt = randomBytes L r1 saltLen in
     bnd (need (Msg ''scrypt'') (scryptKey L password salt scryptN scryptR scryptP scryptKeyLen)) (\<lambda>dk.
     bnd (guardE (aesKeyOk dk) (Msg ''crypto/aes: invalid key size'')) (\<lambda>_.
     bnd (mayFail IOErr) (\<lambda>_.
     bnd random (\<lambda>r2.
     let nonce = randomBytes L r2 gcmNonceSize in
     ret (salt @ nonce @ gcmSeal L dk nonce plaintext)))))))"

definition decryptKey :: "lib \<Rightarrow> bytes \<Rightarrow> string \<Rightarrow> error + bytes" where
  "decryptKey L blob password =
     (if length blob < saltLen + 12 + 16 then Inl (Msg ''ciphertext too short / corrupted'')
      else
      let salt = take saltLen blob; rest = drop saltLen blob in
      case scryptKey L password salt scryptN scryptR scryptP scryptKeyLen of
        None \<Rightarrow> Inl (Msg ''scrypt'')
      | Some dk \<Rightarrow>
          if \<not> aesKeyOk dk then Inl (Msg ''crypto/aes: invalid key size'')
          else if length rest < gcmNonceSize then Inl (Msg ''ciphertext too short / corrupted'')
          else case gcmOpen L dk (take gcmNonceSize rest) (drop gcmNonceSize rest) of
            None \<Rightarrow> Inl (Msg ''cipher: message authentication failed'')
          | Some p \<Rightarrow> Inr p)"

text \<open>\<^verbatim>\<open>RunDecryptKey\<close>: what it writes to the standard output.\<close>

definition RunDecryptKey :: "lib \<Rightarrow> (error + string) \<Rightarrow> string \<Rightarrow> bytes io" where
  "RunDecryptKey L typed path =
     bnd (osReadFile path) (\<lambda>enc.
     bnd (lift typed) (\<lambda>password.
     bnd (onErr (Wrap ''decrypt failed (wrong password?)'') (lift (decryptKey L enc password))) (\<lambda>keyDER.
     bnd (need (Msg ''decrypted data is not a valid private key'') (parsePKCS8 L keyDER)) (\<lambda>_.
     bnd (mayFail IOErr) (\<lambda>_.
     ret (pemEncode L ''PRIVATE KEY'' keyDER))))))"

section \<open>The request\<close>

text \<open>\<^verbatim>\<open>json.Marshal\<close> of a map writes its keys in order.\<close>

definition signBody :: "lib \<Rightarrow> string \<Rightarrow> string \<Rightarrow> bool \<Rightarrow> bytes" where
  "signBody L csrPEM pubPEM localhost =
     jsonPrint L (JObj [(''client_pub'', JStr pubPEM), (''csr'', JStr csrPEM), (''localhost'', JBool localhost)])"

definition certField :: "(string \<times> json) list \<Rightarrow> string option" where
  "certField kvs = decField decStr '''' ''certificate'' kvs"

definition requestCSRSign :: "lib \<Rightarrow> Config \<Rightarrow> string \<Rightarrow> string \<Rightarrow> bool \<Rightarrow> string io" where
  "requestCSRSign L cfg csrPEM pubPEM localhost =
     bnd (onErr (Wrap ''client identity required (enroll first)'') (mtlsClient L cfg)) (\<lambda>identity.
     let req = (newRequest ''POST'' (masterURL cfg True ''/acme/sign-csr'') (signBody L csrPEM pubPEM localhost))
                 \<lparr>outIdentity := identity\<rparr> in
     bnd (onErr (Wrap ''contact master'') (masterDo L cfg req)) (\<lambda>(code, body).
     bnd (readBounded body) (\<lambda>data.
     if code \<noteq> 200 then throw (Msg ''master rejected request'')
     else
     bnd (need (Msg ''parse master response'') (jsonUnmarshal L '''' certField data)) (\<lambda>cert.
     if cert = '''' then throw (Msg ''master returned an empty certificate'') else ret cert))))"

definition validateIssuedCertificate :: "lib \<Rightarrow> Config \<Rightarrow> string \<Rightarrow> privkey \<Rightarrow> string \<Rightarrow> unit io" where
  "validateIssuedCertificate L cfg certPEM key subject =
     (case pemDecode L certPEM of
        None \<Rightarrow> throw (Msg ''invalid issued certificate'')
      | Some (_, b) \<Rightarrow>
        bnd (need (Msg ''x509: cannot parse certificate'') (parseCertificate L b)) (\<lambda>cert.
        if PublicKey cert \<noteq> ECDSAKey (publicOf L key) then throw (Msg ''issued certificate public key mismatch'')
        else
        bnd (osReadFile (caCertPath cfg)) (\<lambda>caData.
        bnd (lift (parseRootCA L caData)) (\<lambda>ca.
        bnd timeNow (\<lambda>now.
        if \<not> certVerify L cert [ca] [] subject ServerAuth now then throw (Msg ''x509: verification'')
        else if IsCA cert \<or> length (EmailAddresses cert) > 0 \<or> length (URIs cert) > 0 then
          throw (Msg ''unexpected issued certificate identity'')
        else if list_ex (\<lambda>d. d \<noteq> ''localhost'') (DNSNames cert) then throw (Msg ''non-loopback DNS SAN'')
        else if list_ex (\<lambda>ip. \<not> IsLoopback ip) (IPAddresses cert) then throw (Msg ''non-loopback IP SAN'')
        else ret ())))))"

definition blankRequest :: certRequest where
  "blankRequest = \<lparr>csrRaw = '''', csrSubject = plainName '''', csrDNSNames = [], csrIPAddresses = [],
     csrEmailAddresses = [], csrURIs = [], csrPublicKey = OtherKey ''''\<rparr>"

definition x509CreateRequest :: "lib \<Rightarrow> certRequest \<Rightarrow> privkey \<Rightarrow> bytes io" where
  "x509CreateRequest L tmpl key =
     bnd random (\<lambda>r. need (Msg ''x509: cannot create request'') (createCertificateRequest L r tmpl key))"

text \<open>The key and the certificate a client asks for, before anything is stored: the first half of
  \<^verbatim>\<open>RunClientIssue\<close>.\<close>

definition obtainCertificate :: "lib \<Rightarrow> Config \<Rightarrow> string \<Rightarrow> (privkey \<times> string) io" where
  "obtainCertificate L cfg subject =
     bnd (onErr (Wrap ''generate key'') (ecdsaGenerateKey L)) (\<lambda>key.
     let (dns, ips) = loopbackSANs L subject in
     bnd (onErr (Wrap ''create CSR'') (x509CreateRequest L
       (blankRequest\<lparr>csrSubject := plainName subject, csrDNSNames := dns, csrIPAddresses := ips\<rparr>) key)) (\<lambda>csrDER.
     bnd (need (Msg ''marshal public key'') (marshalPKIX L (publicOf L key))) (\<lambda>pubDER.
     bnd (requestCSRSign L cfg (pemEncode L ''CERTIFICATE REQUEST'' csrDER) (pemEncode L ''PUBLIC KEY'' pubDER) True)
       (\<lambda>certPEM.
     bnd (validateIssuedCertificate L cfg certPEM key subject) (\<lambda>_.
     ret (key, certPEM))))))"

text \<open>\<open>filepath.Join(cfg.issuedDir(), base + ext)\<close>\<close>

definition clientFile :: "lib \<Rightarrow> Config \<Rightarrow> string \<Rightarrow> string \<Rightarrow> string" where
  "clientFile L cfg subject ext = filepathJoin (issuedDir cfg) (sanitizeName L subject @ ext)"

definition storeCertificate :: "lib \<Rightarrow> Config \<Rightarrow> string \<Rightarrow> bytes \<Rightarrow> bytes \<Rightarrow> unit io" where
  "storeCertificate L cfg subject certPEM encKey =
     bnd (osMkdirAll (issuedDir cfg) o755) (\<lambda>_.
     bnd (atomicWriteFile (clientFile L cfg subject ''.crt'') certPEM o644) (\<lambda>_.
     atomicWriteFile (clientFile L cfg subject ''.key.enc'') encKey o600))"

definition RunClientIssue :: "lib \<Rightarrow> bool \<Rightarrow> (error + string) \<Rightarrow> (error + string) \<Rightarrow> Config \<Rightarrow> string \<Rightarrow> unit io" where
  "RunClientIssue L masterOnly typed typedAgain cfg subject =
     (if masterOnly then throw (Msg ''master-only build: client issuance is disabled'')
      else if MasterAddress cfg = '''' then throw (Msg ''master_address is required to issue certificates'')
      else if \<not> isLoopbackTarget L subject then throw (Msg ''clients may only issue certificates for loopback targets'')
      else
      bnd (obtainCertificate L cfg subject) (\<lambda>(key, certPEM).
      bnd (lift typed) (\<lambda>password.
      bnd (lift typedAgain) (\<lambda>confirm.
      if password \<noteq> confirm then throw (Msg ''passwords do not match'')
      else if length password = 0 then throw (Msg ''empty password is not allowed'')
      else
      bnd (need (Msg ''marshal private key'') (marshalPKCS8 L key)) (\<lambda>keyDER.
      bnd (onErr (Wrap ''encrypt private key'') (encryptKey L keyDER password)) (\<lambda>encKey.
      storeCertificate L cfg subject certPEM encKey))))))"

section \<open>The encrypted key: lemmas\<close>

lemma encryptKey_Inr:
  assumes run: "encryptKey L plain password w = (Inr blob, w')" and lib: "gcmOk L" "randomOk L"
  shows "decryptKey L blob password = Inr plain" "length blob = length plain + 44"
proof -
  from run obtain r1 r2 dk where dk: "scryptKey L password (randomBytes L r1 saltLen) scryptN scryptR scryptP scryptKeyLen = Some dk"
    and k: "aesKeyOk dk" and
    b: "blob = randomBytes L r1 saltLen @ randomBytes L r2 gcmNonceSize @ gcmSeal L dk (randomBytes L r2 gcmNonceSize) plain"
    by (auto simp: encryptKey_def Let_def)
  have len: "length (randomBytes L r n) = n" for r n using lib(2) by (simp add: randomOk_def)
  have seal: "length (gcmSeal L dk n plain) = length plain + 16" "gcmOpen L dk n (gcmSeal L dk n plain) = Some plain" for n
    using lib(1) by (auto simp: gcmOk_def)
  show "length blob = length plain + 44" by (simp add: b len seal saltLen_def gcmNonceSize_def)
  then show "decryptKey L blob password = Inr plain"
    using dk k by (simp add: decryptKey_def Let_def b len seal) (simp add: saltLen_def gcmNonceSize_def)
qed

lemma decryptKey_short: "length blob < 44 \<Longrightarrow> \<exists>e. decryptKey L blob password = Inl e"
  by (simp add: decryptKey_def saltLen_def)

section \<open>Issuance: lemmas\<close>

lemma guar_encryptKey [guar_intros]: "quiet R \<Longrightarrow> guar R (encryptKey L p pw)"
  unfolding encryptKey_def Let_def by (auto intro!: guar_intros)

lemma guar_validateIssued [guar_intros]: "quiet R \<Longrightarrow> guar R (validateIssuedCertificate L cfg pem key subject)"
  unfolding validateIssuedCertificate_def by (auto intro!: guar_intros)

lemma guar_ecdsaGenerateKey [guar_intros]: "quiet R \<Longrightarrow> guar R (ecdsaGenerateKey L)"
  unfolding ecdsaGenerateKey_def by (auto intro!: guar_intros)

lemma guar_x509CreateRequest [guar_intros]: "quiet R \<Longrightarrow> guar R (x509CreateRequest L t k)"
  unfolding x509CreateRequest_def by (auto intro!: guar_intros)

lemma guar_requestCSRSign:
  assumes "quiet R" "\<And>req. guar R (masterDo L cfg req)"
  shows "guar R (requestCSRSign L cfg csr pub l)"
  unfolding requestCSRSign_def Let_def using assms by (auto intro!: guar_intros)

lemma guar_obtainCertificate:
  assumes "quiet R" "\<And>req. guar R (masterDo L cfg req)"
  shows "guar R (obtainCertificate L cfg subject)"
  unfolding obtainCertificate_def Let_def using assms
  by (auto intro!: guar_intros guar_requestCSRSign split: prod.splits)

lemma guar_storeCertificate_blind: "fileBlind R \<Longrightarrow> guar R (storeCertificate L cfg subject c k)"
  unfolding storeCertificate_def by (auto intro!: guar_intros blind_intros)

text \<open>Whatever a client sends in order to get a certificate goes to the pinned master.\<close>

lemma RunClientIssue_sends:
  "guar (sendsOnly (\<lambda>req. pinnedPeer L cfg (outPeer req))) (RunClientIssue L mo typed again cfg subject)"
  unfolding RunClientIssue_def
  by (auto intro!: guar_intros guar_obtainCertificate guar_storeCertificate_blind masterDo_sends)

lemma validateIssued_Inr:
  assumes "validateIssuedCertificate L cfg pem key subject w = (Inr u, w')"
  obtains ty b cert root now where "pemDecode L pem = Some (ty, b)" "parseCertificate L b = Some cert"
    "PublicKey cert = ECDSAKey (publicOf L key)" "rootIn L cfg (fs w) = Some root"
    "certVerify L cert [root] [] subject ServerAuth now" "\<not> IsCA cert" "EmailAddresses cert = []" "URIs cert = []"
    "set (DNSNames cert) \<subseteq> {''localhost''}" "\<forall>ip \<in> set (IPAddresses cert). IsLoopback ip"
proof -
  from assms obtain ty b cert data root now w1 where c: "pemDecode L pem = Some (ty, b)" "parseCertificate L b = Some cert"
    "PublicKey cert = ECDSAKey (publicOf L key)" and r: "osReadFile (caCertPath cfg) w = (Inr data, w1)" "parseRootCA L data = Inr root"
    and v: "certVerify L cert [root] [] subject ServerAuth now" "\<not> IsCA cert" "EmailAddresses cert = []" "URIs cert = []"
    "\<not> list_ex (\<lambda>d. d \<noteq> ''localhost'') (DNSNames cert)" "\<not> list_ex (\<lambda>ip. \<not> IsLoopback ip) (IPAddresses cert)"
    by (auto simp: validateIssuedCertificate_def split: option.splits if_splits)
  have "rootIn L cfg (fs w) = Some root" using r by (auto simp: rootIn_def dest!: osReadFile_Inr)
  with c v that show thesis by (auto simp: list_ex_iff subset_iff)
qed

lemma clientFile_base: "CHR ''/'' \<notin> set ext \<Longrightarrow> 3 \<le> length ext \<Longrightarrow> baseName (clientFile L cfg subject ext) = sanitizeName L subject @ ext"
proof -
  assume e: "CHR ''/'' \<notin> set ext" "3 \<le> length ext"
  have "CHR ''/'' \<notin> set (sanitizeName L subject)"
    using sanitizeName_safe [of "CHR ''/''" L subject] by (auto simp: badNameChar_def)
  moreover have "sanitizeName L subject @ ext \<noteq> x" if "length x < 3" for x
  proof
    assume "sanitizeName L subject @ ext = x"
    then have "length (sanitizeName L subject @ ext) = length x" by (rule arg_cong)
    with that e(2) show False by simp
  qed
  ultimately have "plainElem (sanitizeName L subject @ ext)" using e by (simp add: plainElem_def del: append_is_Nil_conv)
  then show ?thesis by (simp add: clientFile_def)
qed

lemma clientFiles [simp]:
  "\<not> isTempName (clientFile L cfg s ''.crt'')" "\<not> isTempName (clientFile L cfg s ''.key.enc'')"
  "clientFile L cfg s ''.crt'' \<noteq> clientFile L cfg s ''.key.enc''"
proof -
  have b: "baseName (clientFile L cfg s ''.crt'') = sanitizeName L s @ ''.crt''"
    "baseName (clientFile L cfg s ''.key.enc'') = sanitizeName L s @ ''.key.enc''" by (simp_all add: clientFile_base)
  show "\<not> isTempName (clientFile L cfg s ''.crt'')" "\<not> isTempName (clientFile L cfg s ''.key.enc'')"
    by (auto dest!: isTempName_last simp: b decVal_def)
  show "clientFile L cfg s ''.crt'' \<noteq> clientFile L cfg s ''.key.enc''" using b by auto
qed

text \<open>A successful run: a loopback certificate that chains to the local root, whose key the password opens.\<close>

lemma RunClientIssue_Inr:
  assumes run: "RunClientIssue L mo typed again cfg subject w = (Inr u, w')"
    and lib: "gcmOk L" "randomOk L" "pkcs8Ok L"
  obtains password key pem ty b cert root now blob keyDER where
    "isLoopbackTarget L subject" "typed = Inr password" "password \<noteq> ''''"
    "fs w' (clientFile L cfg subject ''.crt'') = Some (File pem o644)"
    "fs w' (clientFile L cfg subject ''.key.enc'') = Some (File blob o600)"
    "pemDecode L pem = Some (ty, b)" "parseCertificate L b = Some cert" "PublicKey cert = ECDSAKey (publicOf L key)"
    "rootIn L cfg (fs w) = Some root" "certVerify L cert [root] [] subject ServerAuth now" "\<not> IsCA cert"
    "EmailAddresses cert = []" "URIs cert = []" "set (DNSNames cert) \<subseteq> {''localhost''}"
    "\<forall>ip \<in> set (IPAddresses cert). IsLoopback ip"
    "decryptKey L blob password = Inr keyDER" "parsePKCS8 L keyDER = Some (ECDSAPriv key)"
proof -
  from run obtain key pem w1 password keyDER blob w3 w4 where
    s: "isLoopbackTarget L subject" and ob: "obtainCertificate L cfg subject w = (Inr (key, pem), w1)" and
    pw: "typed = Inr password" "password \<noteq> ''''" and kd: "marshalPKCS8 L key = Some keyDER" and
    enc: "encryptKey L keyDER password w1 = (Inr blob, w3)" and
    st: "storeCertificate L cfg subject pem blob w3 = (Inr u, w')"
    by (auto simp: RunClientIssue_def split: if_splits prod.splits)
  from ob obtain w0 v where w0: "validateIssuedCertificate L cfg pem key subject w0 = (Inr v, w1)" and f0: "fs w0 = fs w"
  proof -
    from ob obtain k w2 c w3 p w4 w5 where
      runs: "ecdsaGenerateKey L w = (Inr k, w2)" "x509CreateRequest L
       (blankRequest\<lparr>csrSubject := plainName subject, csrDNSNames := fst (loopbackSANs L subject),
          csrIPAddresses := snd (loopbackSANs L subject)\<rparr>) k w2 = (Inr c, w3)"
      "requestCSRSign L cfg (pemEncode L ''CERTIFICATE REQUEST'' c) p True w3 = (Inr pem, w4)"
      "validateIssuedCertificate L cfg pem key subject w4 = (Inr (), w5)" "w5 = w1"
      by (auto simp: obtainCertificate_def Let_def split: prod.splits)
    have "fs w2 = fs w" by (rule guar_sameD [OF guar_ecdsaGenerateKey runs(1)]) simp
    moreover have "fs w3 = fs w2" by (rule guar_sameD [OF guar_x509CreateRequest runs(2)]) simp
    moreover have "fs w4 = fs w3"
      by (rule guar_sameD [OF guar_requestCSRSign runs(3)]) (auto intro!: guar_masterDo)
    ultimately show thesis using runs(4,5) that by simp
  qed
  from st obtain w5 w6 where wr: "atomicWriteFile (clientFile L cfg subject ''.crt'') pem o644 w5 = (Inr (), w6)"
    "atomicWriteFile (clientFile L cfg subject ''.key.enc'') blob o600 w6 = (Inr u, w')"
    by (auto simp: storeCertificate_def)
  have "fs w' (clientFile L cfg subject ''.crt'') = Some (File pem o644)"
    using atomicWriteFile_Inr [OF _ wr(1)] atomicWriteFile_other [OF _ _ wr(2)] by simp
  moreover have "fs w' (clientFile L cfg subject ''.key.enc'') = Some (File blob o600)"
    using atomicWriteFile_Inr [OF _ wr(2)] by simp
  moreover have "parsePKCS8 L keyDER = Some (ECDSAPriv key)" using lib(3) kd by (simp add: pkcs8Ok_def)
  ultimately show thesis
    using validateIssued_Inr [OF w0] that s pw encryptKey_Inr(1) [OF enc lib(1,2)] f0 by metis
qed

end
