(* ===== verification/Install.thy ===== *)
theory Install
  imports Config
begin

text \<open>
  \<^verbatim>\<open>install.go\<close>: the root certificate in the trust stores of the node. The record \<open>trustSys\<close> is what the operating system
  answers: the user, whether \<^verbatim>\<open>certutil\<close> is there, whether a command succeeds, the entries of a directory. What a command
  does to the stores of the system is its own; the files this program writes for it are files of the world.

  The lemmas: an installation writes the two anchor files and nothing else; when it succeeds the anchor the command read
  is the certificate, and reading the installed root gives that certificate back; every Firefox profile of every home
  directory is offered the certificate.
\<close>

section \<open>The operations\<close>

record trustSys =
  Geteuid :: int
  LookCertutil :: bool
  runCmd :: "string list \<Rightarrow> bool"
  ReadDir :: "string \<Rightarrow> (string \<times> bool) list option"

definition debianRootCAPath :: string where
  "debianRootCAPath = ''/usr/local/share/ca-certificates/natssl-root.crt''"

definition rhelRootCAPath :: string where
  "rhelRootCAPath = ''/etc/pki/ca-trust/source/anchors/natssl-root.crt''"

text \<open>\<^verbatim>\<open>os.WriteFile\<close>: the file is made or emptied, then written in place. A file that is there keeps its mode.\<close>

definition osWriteFile :: "string \<Rightarrow> bytes \<Rightarrow> nat \<Rightarrow> unit io" where
  "osWriteFile p data mode =
     bnd (mayFail IOErr) (\<lambda>_.
     bnd (gets fs) (\<lambda>F.
     if isDir F p then throw IOErr
     else if \<not> isDir F (filepathDir p) then throw NotExist
     else
     bnd (setFs (\<lambda>F. F(p \<mapsto> File '''' (case F p of Some (File _ m) \<Rightarrow> m | _ \<Rightarrow> mode)))) (\<lambda>_.
     bnd (attempt (fileWrite p data)) (\<lambda>r.
     bnd (attempt (mayFail IOErr)) (\<lambda>c.
     case r of Inl e \<Rightarrow> throw e | Inr _ \<Rightarrow> lift c)))))"

definition InstallRootCAIntoOS :: "trustSys \<Rightarrow> string \<Rightarrow> unit io" where
  "InstallRootCAIntoOS S certPath =
     (if Geteuid S \<noteq> 0 then throw (Msg ''root privileges required to install CA into the OS trust store'')
      else
      bnd (osReadFile certPath) (\<lambda>pem.
      bnd (attempt (osWriteFile debianRootCAPath pem o644)) (\<lambda>r.
      if (case r of Inr _ \<Rightarrow> runCmd S [''update-ca-certificates''] | Inl _ \<Rightarrow> False) then ret ()
      else
      bnd (onErr (Wrap ''write RHEL anchor'') (osWriteFile rhelRootCAPath pem o644)) (\<lambda>_.
      guardE (runCmd S [''update-ca-trust'', ''extract'']) (Msg ''update-ca-trust'')))))"

definition homeDirs :: "trustSys \<Rightarrow> string list" where
  "homeDirs S =
     (case ReadDir S ''/home'' of
        Some entries \<Rightarrow> map (\<lambda>(name, dir). filepathJoin ''/home'' name) (filter snd entries)
      | None \<Rightarrow> []) @ [''/root'']"

definition firefoxRoots :: "trustSys \<Rightarrow> string list" where
  "firefoxRoots S = concat (map (\<lambda>h.
     [filepathJoin h ''.mozilla/firefox'', filepathJoin h ''snap/firefox/common/.mozilla/firefox'']) (homeDirs S))"

definition certutilCmd :: "string \<Rightarrow> string \<Rightarrow> string list" where
  "certutilCmd certPath profile =
     [''certutil'', ''-A'', ''-n'', ''NATSSL Private Root CA'', ''-t'', ''CT,C,C'', ''-i'', certPath, ''-d'', ''sql:'' @ profile]"

text \<open>The loops over the roots and their entries. The outcome lists the profiles the certificate was offered to, with
  the answer of the command.\<close>

fun importEntries :: "trustSys \<Rightarrow> string \<Rightarrow> string \<Rightarrow> (string \<times> bool) list \<Rightarrow> (string \<times> bool) list io" where
  "importEntries S certPath root [] = ret []"
| "importEntries S certPath root ((name, dir) # es) =
     (if \<not> dir then importEntries S certPath root es
      else
      let profile = filepathJoin root name in
      bnd (attempt (osStat (filepathJoin profile ''cert9.db''))) (\<lambda>s.
      case s of
        Inl _ \<Rightarrow> importEntries S certPath root es
      | Inr _ \<Rightarrow>
          bnd (importEntries S certPath root es) (\<lambda>done.
          ret ((profile, runCmd S (certutilCmd certPath profile)) # done))))"

fun importRoots :: "trustSys \<Rightarrow> string \<Rightarrow> string list \<Rightarrow> (string \<times> bool) list io" where
  "importRoots S certPath [] = ret []"
| "importRoots S certPath (root # roots) =
     (case ReadDir S root of
        None \<Rightarrow> importRoots S certPath roots
      | Some entries \<Rightarrow>
          bnd (importEntries S certPath root entries) (\<lambda>xs.
          bnd (importRoots S certPath roots) (\<lambda>ys.
          ret (xs @ ys))))"

definition InstallRootCAIntoFirefox :: "trustSys \<Rightarrow> string \<Rightarrow> (string \<times> bool) list io" where
  "InstallRootCAIntoFirefox S certPath =
     (if \<not> LookCertutil S then throw (Msg ''certutil (libnss3-tools/nss-tools) not installed'')
      else importRoots S certPath (firefoxRoots S))"

definition LoadInstalledRootCA :: "lib \<Rightarrow> certificate io" where
  "LoadInstalledRootCA L =
     bnd (attempt (osReadFile debianRootCAPath)) (\<lambda>r.
     bnd (case r of Inr b \<Rightarrow> ret b | Inl _ \<Rightarrow> osReadFile rhelRootCAPath) (\<lambda>b.
     case pemDecode L b of
       None \<Rightarrow> throw (Msg ''installed Root CA is not valid PEM'')
     | Some (_, der) \<Rightarrow> need (Msg ''x509: cannot parse certificate'') (parseCertificate L der)))"

section \<open>What an installation touches\<close>

definition anchorPaths :: "string set" where
  "anchorPaths = {debianRootCAPath, rhelRootCAPath}"

lemma anchor_base: "p \<in> anchorPaths \<Longrightarrow> baseName p = ''natssl-root.crt''"
  by (auto simp: anchorPaths_def debianRootCAPath_def rhelRootCAPath_def baseName_def)

lemma anchor_other [simp]: "baseName p \<noteq> ''natssl-root.crt'' \<Longrightarrow> p \<notin> anchorPaths"
  using anchor_base by blast

lemma guar_osWriteFile_blind [blind_intros]: "fileBlind R \<Longrightarrow> guar R (osWriteFile p b m)"
  unfolding osWriteFile_def by (auto intro!: guar_intros blind_intros guar_setFs_blind)

lemma guar_osWriteFile_path [path_intros]: "p \<noteq> q \<Longrightarrow> guar (untouched p) (osWriteFile q b m)"
  unfolding osWriteFile_def by (auto intro!: guar_intros path_intros guar_setFs_untouched)

lemma guar_InstallOS_blind [blind_intros]: "fileBlind R \<Longrightarrow> guar R (InstallRootCAIntoOS S c)"
  unfolding InstallRootCAIntoOS_def by (auto intro!: guar_intros blind_intros)

lemma guar_InstallOS_path [path_intros]: "p \<notin> anchorPaths \<Longrightarrow> guar (untouched p) (InstallRootCAIntoOS S c)"
  unfolding InstallRootCAIntoOS_def anchorPaths_def by (auto intro!: guar_intros path_intros)

lemma guar_importEntries: "quiet R \<Longrightarrow> guar R (importEntries S c root es)"
  by (induction S c root es rule: importEntries.induct) (auto simp: Let_def intro!: guar_intros)

lemma guar_importRoots: "quiet R \<Longrightarrow> guar R (importRoots S c roots)"
  by (induction S c roots rule: importRoots.induct) (auto split: option.splits intro!: guar_intros guar_importEntries)

lemma guar_InstallFirefox [guar_intros]: "quiet R \<Longrightarrow> guar R (InstallRootCAIntoFirefox S c)"
  unfolding InstallRootCAIntoFirefox_def by (auto intro!: guar_intros guar_importRoots)

section \<open>What an installation achieves\<close>

lemma osWriteFile_Inr:
  assumes "osWriteFile p data mode w = (Inr u, w')"
  shows "fileBytes (fs w') p = Some data"
proof -
  have f: "fileBytes (fs v') p = Some data" if "fileWrite p data v = (Inr x, v')" "\<exists>m. fs v p = Some (File '''' m)" for v v' x
    using that fileWrite_Inr by (fastforce simp: fileBytes_def)
  from assms show ?thesis
    by (auto simp: osWriteFile_def setFs_def split: if_splits sum.splits dest!: mayFail_fs f)
qed

text \<open>A success: the command of the family that answered has read the certificate.\<close>

lemma InstallOS_Inr:
  assumes "InstallRootCAIntoOS S c w = (Inr u, w')"
  shows "Geteuid S = 0 \<and> (\<exists>pem. fileBytes (fs w) c = Some pem
    \<and> (runCmd S [''update-ca-certificates''] \<and> fileBytes (fs w') debianRootCAPath = Some pem
       \<or> runCmd S [''update-ca-trust'', ''extract''] \<and> fileBytes (fs w') rhelRootCAPath = Some pem))"
proof -
  from assms obtain pem w1 r w2 where root: "Geteuid S = 0" and rd: "osReadFile c w = (Inr pem, w1)" and
    wr: "osWriteFile debianRootCAPath pem o644 w1 = (r, w2)" and
    k: "(if (case r of Inr _ \<Rightarrow> runCmd S [''update-ca-certificates''] | Inl _ \<Rightarrow> False) then ret ()
      else bnd (onErr (Wrap ''write RHEL anchor'') (osWriteFile rhelRootCAPath pem o644)) (\<lambda>_.
        guardE (runCmd S [''update-ca-trust'', ''extract'']) (Msg ''update-ca-trust''))) w2 = (Inr u, w')"
    unfolding InstallRootCAIntoOS_def by (auto split: if_splits elim!: bnd_attemptE)
  have pem: "fileBytes (fs w) c = Some pem" using osReadFile_Inr [OF rd] by simp
  show ?thesis
  proof (cases "case r of Inr _ \<Rightarrow> runCmd S [''update-ca-certificates''] | Inl _ \<Rightarrow> False")
    case True
    then obtain v where "r = Inr v" "runCmd S [''update-ca-certificates'']" by (auto split: sum.splits)
    with k True wr root pem osWriteFile_Inr show ?thesis by auto
  next
    case False
    with k obtain w3 v where "osWriteFile rhelRootCAPath pem o644 w2 = (Inr v, w3)" "runCmd S [''update-ca-trust'', ''extract'']" "w' = w3"
      by (auto simp: run_guardE split: if_splits)
    with root pem osWriteFile_Inr show ?thesis by blast
  qed
qed

section \<open>A node without faults\<close>

lemma osReadFile_noFaults:
  "noFaults w \<Longrightarrow> fileBytes (fs w) p = Some b \<Longrightarrow> osReadFile p w = (Inr b, w\<lparr>step := Suc (step w)\<rparr>)"
  by (auto simp: osReadFile_def mayFail_def tick_def run_guardE noFaults_def fileBytes_def bnd_def
      split: option.splits fsnode.splits)

lemma osStat_noFaults:
  "noFaults w \<Longrightarrow> osStat p w = (if fs w p = None \<and> \<not> isDir (fs w) p then Inl NotExist else Inr (), w\<lparr>step := Suc (step w)\<rparr>)"
  by (auto simp: osStat_def mayFail_def tick_def run_guardE noFaults_def bnd_def)

lemma noFaults_step [simp]: "noFaults (w\<lparr>step := n\<rparr>) = noFaults w"
  by (simp add: noFaults_def)

text \<open>The profiles below one root.\<close>

definition profilesIn :: "filesys \<Rightarrow> string \<Rightarrow> (string \<times> bool) list \<Rightarrow> string list" where
  "profilesIn F root es = filter (\<lambda>p. F (filepathJoin p ''cert9.db'') \<noteq> None \<or> isDir F (filepathJoin p ''cert9.db''))
     (map (\<lambda>(name, dir). filepathJoin root name) (filter snd es))"

definition profilesUnder :: "trustSys \<Rightarrow> filesys \<Rightarrow> string \<Rightarrow> string list" where
  "profilesUnder S F root = (case ReadDir S root of None \<Rightarrow> [] | Some es \<Rightarrow> profilesIn F root es)"

definition firefoxProfiles :: "trustSys \<Rightarrow> filesys \<Rightarrow> string list" where
  "firefoxProfiles S F = concat (map (profilesUnder S F) (firefoxRoots S))"

lemma importEntries_noFaults:
  "noFaults w \<Longrightarrow> \<exists>n. importEntries S c root es w =
     (Inr (map (\<lambda>p. (p, runCmd S (certutilCmd c p))) (profilesIn (fs w) root es)), w\<lparr>step := n\<rparr>)"
proof (induction es arbitrary: w)
  case Nil
  have "w = w\<lparr>step := step w\<rparr>" by simp
  then show ?case by (auto simp: profilesIn_def ret_def intro!: exI [of _ "step w"])
next
  case (Cons e es)
  obtain name dir where e: "e = (name, dir)" by (cases e)
  from Cons.IH [of "w\<lparr>step := Suc (step w)\<rparr>"] Cons.prems obtain n where
    n: "importEntries S c root es (w\<lparr>step := Suc (step w)\<rparr>) =
      (Inr (map (\<lambda>p. (p, runCmd S (certutilCmd c p))) (profilesIn (fs w) root es)), w\<lparr>step := n\<rparr>)" by auto
  show ?case
  proof (cases dir)
    case False
    with Cons.IH [OF Cons.prems] e show ?thesis by (simp add: profilesIn_def)
  next
    case True
    with e n Cons.prems show ?thesis
      by (auto simp: Let_def bnd_def run_attempt osStat_noFaults profilesIn_def ret_def intro!: exI [of _ n])
  qed
qed

lemma importRoots_noFaults:
  "noFaults w \<Longrightarrow> \<exists>n. importRoots S c roots w = (Inr (map (\<lambda>p. (p, runCmd S (certutilCmd c p)))
     (concat (map (profilesUnder S (fs w)) roots))), w\<lparr>step := n\<rparr>)"
proof (induction roots arbitrary: w)
  case Nil
  have "w = w\<lparr>step := step w\<rparr>" by simp
  then show ?case by (auto simp: ret_def intro!: exI [of _ "step w"])
next
  case (Cons root roots)
  show ?case
  proof (cases "ReadDir S root")
    case None
    with Cons show ?thesis by (simp add: profilesUnder_def)
  next
    case (Some es)
    from importEntries_noFaults [OF Cons.prems] obtain n where
      n: "importEntries S c root es w = (Inr (map (\<lambda>p. (p, runCmd S (certutilCmd c p))) (profilesIn (fs w) root es)), w\<lparr>step := n\<rparr>)" by blast
    from Cons.IH [of "w\<lparr>step := n\<rparr>"] Cons.prems obtain m where
      "importRoots S c roots (w\<lparr>step := n\<rparr>) = (Inr (map (\<lambda>p. (p, runCmd S (certutilCmd c p))) (concat (map (profilesUnder S (fs w)) roots))), w\<lparr>step := m\<rparr>)"
      by auto
    with n Some show ?thesis by (auto simp: bnd_def ret_def profilesUnder_def [of S _ root] intro!: exI [of _ m])
  qed
qed

text \<open>Every profile is offered the certificate, and nothing else is.\<close>

lemma InstallFirefox_noFaults:
  assumes "noFaults w" "LookCertutil S"
  shows "\<exists>w'. InstallRootCAIntoFirefox S c w = (Inr (map (\<lambda>p. (p, runCmd S (certutilCmd c p))) (firefoxProfiles S (fs w))), w') \<and> fs w' = fs w"
  using importRoots_noFaults [OF assms(1), of S c "firefoxRoots S"] assms(2)
  by (auto simp: InstallRootCAIntoFirefox_def firefoxProfiles_def)

text \<open>In place and on a node without faults a write fails only where the directory is missing.\<close>

lemma mayFail_noFaults: "noFaults w \<Longrightarrow> mayFail e w = (Inr (), w\<lparr>step := Suc (step w)\<rparr>)"
  by (simp add: mayFail_def tick_def bnd_def run_guardE noFaults_def)

lemma fileWrite_noFaults: "noFaults w \<Longrightarrow> \<exists>w'. fileWrite p data w = (Inr (), w') \<and> noFaults w'"
  using mayFail_noFaults [of w IOErr]
  by (simp add: fileWrite_alt run_attempt bnd_def random_def tick_def setFs_def noFaults_def lift_def)

lemma osWriteFile_noFaults:
  assumes "noFaults w" "osWriteFile p data mode w = (r, w')"
  shows "noFaults w' \<and> (case r of Inr _ \<Rightarrow> fileBytes (fs w') p = Some data
     | Inl _ \<Rightarrow> fs w' = fs w \<and> (isDir (fs w) p \<or> \<not> isDir (fs w) (filepathDir p)))"
proof (cases "isDir (fs w) p \<or> \<not> isDir (fs w) (filepathDir p)")
  case True
  with assms show ?thesis
    by (auto simp: osWriteFile_def bnd_def mayFail_noFaults throw_def split: if_splits)
next
  case False
  let ?v = "w\<lparr>step := Suc (step w)\<rparr>"
  obtain v1 where s: "(setFs (\<lambda>F. F(p \<mapsto> File '''' (case F p of Some (File _ m) \<Rightarrow> m | _ \<Rightarrow> mode))) :: unit io) ?v = (Inr (), v1)" "noFaults v1"
    using assms(1) by (simp add: setFs_def noFaults_def)
  from fileWrite_noFaults [OF s(2)] obtain v2 where v2: "fileWrite p data v1 = (Inr (), v2)" "noFaults v2" by blast
  from False assms(2) s(1) v2 mayFail_noFaults [OF assms(1), of IOErr] mayFail_noFaults [OF v2(2), of IOErr]
  have "r = Inr ()" "w' = v2\<lparr>step := Suc (step v2)\<rparr>"
    by (simp_all add: osWriteFile_def bnd_def run_attempt lift_def)
  with v2(2) osWriteFile_Inr [of p data mode w "()" w'] assms(2) show ?thesis by simp
qed

text \<open>The installed root is the certificate that was installed.\<close>

lemma LoadInstalled_noFaults:
  assumes "noFaults w" "fileBytes (fs w) debianRootCAPath = Some pem \<or> fs w debianRootCAPath = None \<and> fileBytes (fs w) rhelRootCAPath = Some pem"
    "pemDecode L pem = Some (ty, der)" "parseCertificate L der = Some cert"
  shows "\<exists>w'. LoadInstalledRootCA L w = (Inr cert, w')"
proof -
  have n: "osReadFile p w = (Inl NotExist, w\<lparr>step := Suc (step w)\<rparr>)" if "fs w p = None" for p
    using that assms(1) by (simp add: osReadFile_def mayFail_def tick_def run_guardE noFaults_def bnd_def throw_def)
  from assms(2) show ?thesis
  proof
    assume "fileBytes (fs w) debianRootCAPath = Some pem"
    from osReadFile_noFaults [OF assms(1) this] assms(3,4) show ?thesis
      by (simp add: LoadInstalledRootCA_def bnd_def run_attempt ret_def need_def lift_def)
  next
    assume a: "fs w debianRootCAPath = None \<and> fileBytes (fs w) rhelRootCAPath = Some pem"
    then have "osReadFile rhelRootCAPath (w\<lparr>step := Suc (step w)\<rparr>) = (Inr pem, w\<lparr>step := Suc (Suc (step w))\<rparr>)"
      using osReadFile_noFaults [of "w\<lparr>step := Suc (step w)\<rparr>" rhelRootCAPath pem] assms(1) by simp
    with a n assms(3,4) show ?thesis
      by (simp add: LoadInstalledRootCA_def bnd_def run_attempt need_def lift_def ret_def)
  qed
qed

lemma installed_root:
  assumes "InstallRootCAIntoOS S c w = (Inr u, w')" "noFaults w" "fileBytes (fs w) c = Some pem" "pemDecode L pem = Some (ty, der)"
    "parseCertificate L der = Some cert"
    and dir: "fs w debianRootCAPath \<noteq> None \<Longrightarrow> isDir (fs w) (filepathDir debianRootCAPath) \<and> \<not> isDir (fs w) debianRootCAPath"
  shows "\<exists>w''. LoadInstalledRootCA L w' = (Inr cert, w'')"
proof -
  let ?w = "w\<lparr>step := Suc (step w)\<rparr>"
  have rd: "osReadFile c w = (Inr pem, ?w)" using assms(2,3) by (rule osReadFile_noFaults)
  obtain r w2 where wr: "osWriteFile debianRootCAPath pem o644 ?w = (r, w2)" by (cases "osWriteFile debianRootCAPath pem o644 ?w")
  have q2: "noFaults w2" and c2: "case r of Inr _ \<Rightarrow> fileBytes (fs w2) debianRootCAPath = Some pem
     | Inl _ \<Rightarrow> fs w2 = fs w \<and> (isDir (fs w) debianRootCAPath \<or> \<not> isDir (fs w) (filepathDir debianRootCAPath))"
    using osWriteFile_noFaults [OF _ wr] assms(2) by (cases r; simp)+
  have d2: "fileBytes (fs w2) debianRootCAPath = Some pem \<or> fs w2 debianRootCAPath = None"
    using c2 dir by (cases r) auto
  have cs: "w' = w2 \<and> (\<exists>v. r = Inr v) \<or> (\<exists>v. osWriteFile rhelRootCAPath pem o644 w2 = (Inr v, w'))"
    using assms(1) rd wr unfolding InstallRootCAIntoOS_def
    by (auto simp: bnd_def run_attempt onErr_def run_guardE split: if_splits sum.splits prod.splits)
  then show ?thesis
  proof
    assume "w' = w2 \<and> (\<exists>v. r = Inr v)"
    with q2 c2 show ?thesis by (auto intro!: LoadInstalled_noFaults [OF _ _ assms(4,5)])
  next
    assume "\<exists>v. osWriteFile rhelRootCAPath pem o644 w2 = (Inr v, w')"
    then obtain v where w3: "osWriteFile rhelRootCAPath pem o644 w2 = (Inr v, w')" by blast
    have "debianRootCAPath \<noteq> rhelRootCAPath" by (simp add: debianRootCAPath_def rhelRootCAPath_def)
    then have "guar (untouched debianRootCAPath) (osWriteFile rhelRootCAPath pem o644)" by (rule guar_osWriteFile_path)
    then have "untouched debianRootCAPath w2 w'" using w3 by (rule guarD)
    then have "fs w' debianRootCAPath = fs w2 debianRootCAPath" by (simp add: untouched_def)
    with d2 osWriteFile_noFaults [OF q2 w3] show ?thesis
      by (intro LoadInstalled_noFaults [OF _ _ assms(4,5)]) (auto simp: fileBytes_def)
  qed
qed

end
