(* ===== verification/Client.thy ===== *)
theory Client
  imports Migrate ClientIssue Install
begin

text \<open>
  The client daemon: \<^verbatim>\<open>identity.go\<close> (the client's enrolment identity), \<^verbatim>\<open>register.go\<close> (registration with the
  master) and \<^verbatim>\<open>client.go\<close> (the start of the daemon and its event loop). A daemon's state is its configuration,
  the copy of it the listener uses, what is left to install into the trust stores and the packets that wait for
  the event loop; \<open>clientStep\<close> is one turn of the loop or one request to the listener.

  Along every run of the daemon: the local root is never replaced by another, the copies of the cache and of the
  revocation list never go back, only a packet signed by the root moves the client and no packet does so twice,
  at most eight packets wait, and what the client sends goes to the pinned master.
\<close>

section \<open>The identity\<close>

definition verifyClientIdentity :: "lib \<Rightarrow> Config \<Rightarrow> certificate \<Rightarrow> unit io" where
  "verifyClientIdentity L cfg cert =
     (let cn = CommonName (Subject cert) in
      if IsCA cert \<or> \<not> startsWith identityPrefix cn \<or> ParseIP (TrimPrefix cn identityPrefix) = None then
        throw (Msg ''not an enrollment identity'')
      else
      bnd (osReadFile (caCertPath cfg)) (\<lambda>data.
      bnd (lift (parseRootCA L data)) (\<lambda>ca.
      if \<not> pinAccepts L cfg ca then throw (Msg ''local Root CA fingerprint mismatch'')
      else bnd timeNow (\<lambda>now. guardE (certVerify L cert [ca] [] '''' ClientAuth now) (Msg ''x509: verification'')))))"

text \<open>\<^verbatim>\<open>pair.Certificate[0]\<close>\<close>

definition leafOf :: "bytes list \<Rightarrow> bytes io" where
  "leafOf chain = (case chain of [] \<Rightarrow> throw Panic | der # _ \<Rightarrow> ret der)"

text \<open>The identity on disk is good for another day.\<close>

definition identityCurrent :: "lib \<Rightarrow> Config \<Rightarrow> bool io" where
  "identityCurrent L cfg =
     bnd (attempt (LoadX509KeyPair L (identityCertPath cfg) (identityKeyPath cfg))) (\<lambda>p.
     case p of
       Inl _ \<Rightarrow> ret False
     | Inr chain \<Rightarrow>
         bnd (leafOf chain) (\<lambda>der.
         case parseCertificate L der of
           None \<Rightarrow> ret False
         | Some cert \<Rightarrow>
             bnd timeNow (\<lambda>now.
             if cNotAfter cert - now > 24 * hour then
               bnd (attempt (verifyClientIdentity L cfg cert)) (\<lambda>r. ret (case r of Inr _ \<Rightarrow> True | Inl _ \<Rightarrow> False))
             else ret False)))"

definition buildRegisterRequest :: "lib \<Rightarrow> Config \<Rightarrow> bytes \<Rightarrow> error + outRequest" where
  "buildRegisterRequest L cfg body =
     (if MasterAddress cfg = '''' then Inl (Msg ''master_address is empty; cannot self-register'')
      else let url = masterURL cfg False ''/acme/register'' in
        if \<not> urlParses L url then Inl (Msg ''parse URL'')
        else Inr ((newRequest ''POST'' url body)\<lparr>outToken := EnrollmentToken cfg\<rparr>))"

text \<open>A new key, its request and the master's answer: the key and the certificate to be stored.\<close>

definition enrol :: "lib \<Rightarrow> Config \<Rightarrow> (bytes \<times> bytes) io" where
  "enrol L cfg =
     bnd (ecdsaGenerateKey L) (\<lambda>key.
     bnd (x509CreateRequest L (blankRequest\<lparr>csrSubject := plainName ''natssl-client''\<rparr>) key) (\<lambda>der.
     let body = jsonPrint L (JObj [(''csr'', JStr (pemEncode L ''CERTIFICATE REQUEST'' der))]) in
     bnd (lift (buildRegisterRequest L cfg body)) (\<lambda>req.
     bnd (masterDo L cfg req) (\<lambda>(code, reply).
     bnd (readBounded reply) (\<lambda>data.
     if code \<noteq> 200 then throw (Msg ''enrollment rejected'')
     else
     bnd (need (Msg ''json'') (jsonUnmarshal L '''' certField data)) (\<lambda>certPEM.
     bnd (need (Msg ''x509: cannot marshal key'') (marshalPKCS8 L key)) (\<lambda>kd.
     let kp = pemEncode L ''PRIVATE KEY'' kd in
     bnd (need (Msg ''invalid enrollment certificate'') (x509KeyPair L certPEM kp)) (\<lambda>chain.
     bnd (leafOf chain) (\<lambda>leaf.
     bnd (need (Msg ''x509: cannot parse certificate'') (parseCertificate L leaf)) (\<lambda>cert.
     bnd (verifyClientIdentity L cfg cert) (\<lambda>_.
     ret (kp, certPEM))))))))))))"

definition ensureClientIdentity :: "lib \<Rightarrow> Config \<Rightarrow> unit io" where
  "ensureClientIdentity L cfg =
     bnd (osMkdirAll (DataDir cfg) o700) (\<lambda>_.
     withLock (identityKeyPath cfg @ ''.lock'') (
     bnd (identityCurrent L cfg) (\<lambda>current.
     if current then ret ()
     else
     bnd (enrol L cfg) (\<lambda>(kp, certPEM).
     bnd (atomicWriteFile (identityKeyPath cfg) kp o600) (\<lambda>_.
     atomicWriteFile (identityCertPath cfg) certPEM o644)))))"

definition RegisterWithMaster :: "lib \<Rightarrow> Config \<Rightarrow> unit io" where
  "RegisterWithMaster L cfg =
     bnd (ensureClientIdentity L cfg) (\<lambda>_.
     bnd (lift (buildRegisterRequest L cfg ''{}'')) (\<lambda>req.
     bnd (masterDo L cfg req) (\<lambda>(code, body).
     if code \<noteq> 200 then bnd (attempt (readBounded body)) (\<lambda>_. throw (Msg ''registration rejected''))
     else ret ())))"

section \<open>The root, the cache and the revocation list\<close>

text \<open>\<^verbatim>\<open>Certificate.Equal\<close> compares the encodings.\<close>

definition fetchAndInstallRootCA :: "lib \<Rightarrow> Config \<Rightarrow> unit io" where
  "fetchAndInstallRootCA L cfg =
     bnd (masterDo L cfg (newRequest ''GET'' (masterURL cfg False ''/ca'') [])) (\<lambda>(code, body).
     if code \<noteq> 200 then throw (Msg ''master returned an error for /ca'')
     else
     bnd (readBounded body) (\<lambda>data.
     bnd (lift (parseRootCA L data)) (\<lambda>root.
     if \<not> pinAccepts L cfg root then throw (Msg ''downloaded Root CA fingerprint mismatch'')
     else
     bnd (attempt (osReadFile (caCertPath cfg))) (\<lambda>prev.
     bnd (case prev of
            Inl _ \<Rightarrow> ret ()
          | Inr previous \<Rightarrow>
              bnd (lift (parseRootCA L previous)) (\<lambda>old.
              guardE (Raw old = Raw root) (Msg ''downloaded Root CA differs from local Root CA''))) (\<lambda>_.
     atomicWriteFile (caCertPath cfg) data o644)))))"

definition fetch :: "lib \<Rightarrow> Config \<Rightarrow> bytes list \<Rightarrow> string \<Rightarrow> bytes io" where
  "fetch L cfg identity path =
     bnd (masterDo L cfg ((newRequest ''GET'' (masterURL cfg True path) [])\<lparr>outIdentity := identity\<rparr>)) (\<lambda>(code, body).
     if code \<noteq> 200 then throw (Msg ''unexpected status'') else readBounded body)"

definition pullOnce :: "lib \<Rightarrow> Config \<Rightarrow> unit io" where
  "pullOnce L cfg =
     bnd (mtlsClient L cfg) (\<lambda>identity.
     bnd (fetch L cfg identity ''/sync/cache'') (\<lambda>data.
     bnd (acceptCache L cfg data) (\<lambda>_.
     bnd (fetch L cfg identity ''/sync/crl'') (\<lambda>crl.
     bnd (acceptCRL L cfg crl) (\<lambda>_.
     logPrint ''cache and signed CRL pulled from master'')))))"

section \<open>The daemon\<close>

definition ephemeralSelfSigned :: "lib \<Rightarrow> bytes list io" where
  "ephemeralSelfSigned L =
     bnd (ecdsaGenerateKey L) (\<lambda>key.
     bnd timeNow (\<lambda>t1.
     bnd timeNow (\<lambda>t2.
     bnd timeNow (\<lambda>t3.
     let tmpl = blankCert\<lparr>SerialNumber := int64 t1, Subject := plainName ''natssl-client-receiver'',
           cNotBefore := t2 - hour, cNotAfter := addDate L 1 0 0 t3,
           KeyUsage := {DigitalSignature, KeyEncipherment}, ExtKeyUsage := [ServerAuth],
           DNSNames := [''localhost''], IPAddresses := [ip4loopback, ip6loopback]\<rparr> in
     bnd (x509CreateCertificate L tmpl tmpl (ECDSAKey (publicOf L key)) key) (\<lambda>der.
     bnd (need (Msg ''x509: cannot marshal key'') (marshalPKCS8 L key)) (\<lambda>kd.
     need (Msg ''tls: key pair'') (x509KeyPair L (pemEncode L ''CERTIFICATE'' der) (pemEncode L ''PRIVATE KEY'' kd))))))))"

text \<open>An operation whose failure is only logged.\<close>

definition logged :: "string \<Rightarrow> 'a io \<Rightarrow> bool io" where
  "logged msg m = bnd (attempt m) (\<lambda>r.
     case r of Inr _ \<Rightarrow> ret True | Inl _ \<Rightarrow> bnd (logPrint msg) (\<lambda>_. ret False))"

text \<open>The closures \<^verbatim>\<open>register\<close>, \<^verbatim>\<open>pull\<close> and \<^verbatim>\<open>installTrust\<close> of \<^verbatim>\<open>RunClient\<close>. What the system answers to the
  installation is a parameter, and the flags say which of the trust stores are still to be tried.\<close>

definition clientRegister :: "lib \<Rightarrow> Config \<Rightarrow> unit io" where
  "clientRegister L cfg =
     bnd (attempt (osStat (caCertPath cfg))) (\<lambda>s.
     bnd (case s of Inr _ \<Rightarrow> ret True | Inl _ \<Rightarrow> logged ''Root CA bootstrap'' (fetchAndInstallRootCA L cfg)) (\<lambda>rooted.
     if rooted then bnd (logged ''self-registration (READ-ONLY)'' (RegisterWithMaster L cfg)) (\<lambda>_. ret ())
     else ret ()))"

definition clientPull :: "lib \<Rightarrow> Config \<Rightarrow> unit io" where
  "clientPull L cfg = bnd (logged ''pull (READ-ONLY)'' (pullOnce L cfg)) (\<lambda>_. ret ())"

type_synonym stores = "bool \<times> bool"

definition tryInstall :: "string \<Rightarrow> bool \<Rightarrow> 'a io \<Rightarrow> bool io" where
  "tryInstall msg todo install =
     (if \<not> todo then ret False
      else
      bnd (attempt install) (\<lambda>r.
      case r of Inl _ \<Rightarrow> bnd (logPrint msg) (\<lambda>_. ret True) | Inr _ \<Rightarrow> ret False))"

definition installTrust :: "lib \<Rightarrow> Config \<Rightarrow> stores \<Rightarrow> trustSys \<Rightarrow> stores io" where
  "installTrust L cfg todo sys =
     (if \<not> InstallTrust cfg then ret todo
      else
      bnd (attempt (osReadFile (caCertPath cfg))) (\<lambda>r.
      case r of
        Inl _ \<Rightarrow> ret todo
      | Inr data \<Rightarrow>
         (case parseRootCA L data of
            Inl _ \<Rightarrow> bnd (logPrint ''local Root CA'') (\<lambda>_. ret todo)
          | Inr root \<Rightarrow>
              if \<not> pinAccepts L cfg root then bnd (logPrint ''local Root CA fingerprint mismatch'') (\<lambda>_. ret todo)
              else
              bnd (tryInstall ''OS trust store'' (fst todo) (InstallRootCAIntoOS sys (caCertPath cfg))) (\<lambda>os.
              bnd (tryInstall ''Firefox trust store'' (snd todo) (InstallRootCAIntoFirefox sys (caCertPath cfg))) (\<lambda>ff.
              ret (os, ff))))))"

record clientState =
  ccfg :: Config
  receiverConfig :: Config
  todoStores :: stores
  changes :: "MigrationPacket list"

text \<open>\<^verbatim>\<open>RunClient\<close> up to its event loop; \<open>listens\<close> says whether the port could be opened.\<close>

definition RunClient :: "lib \<Rightarrow> bool \<Rightarrow> bool \<Rightarrow> trustSys \<Rightarrow> Config \<Rightarrow> clientState io" where
  "RunClient L masterOnly listens sys cfg =
     (if masterOnly then throw (Msg ''master-only build: client mode is disabled'')
      else
      bnd (osMkdirAll (DataDir cfg) o700) (\<lambda>_.
      if MasterAddress cfg = '''' then throw (Msg ''master_address is required'')
      else
      bnd (if MasterFingerprint cfg = '''' then
             onErr (\<lambda>_. Msg ''master_fingerprint or local Root CA is required'') (osStat (caCertPath cfg))
           else ret ()) (\<lambda>_.
      bnd (ephemeralSelfSigned L) (\<lambda>_.
      bnd (guardE listens (Msg ''listen'')) (\<lambda>_.
      bnd (clientRegister L cfg) (\<lambda>_.
      bnd (installTrust L cfg (True, True) sys) (\<lambda>todo.
      bnd (clientPull L cfg) (\<lambda>_.
      ret \<lparr>ccfg = cfg, receiverConfig = cfg, todoStores = todo, changes = []\<rparr>))))))))"

definition changesCap :: nat where
  "changesCap = 8"

text \<open>One turn of the event loop for a packet.\<close>

definition takeChange :: "lib \<Rightarrow> clientState \<Rightarrow> MigrationPacket \<Rightarrow> (httpResponse \<times> clientState) io" where
  "takeChange L cs pkt =
     bnd (attempt (applyMigration L (ccfg cs) pkt)) (\<lambda>res.
     case res of
       Inl e \<Rightarrow> ret (migrationReply res, cs)
     | Inr cfg \<Rightarrow>
         bnd (clientRegister L cfg) (\<lambda>_.
         bnd (clientPull L cfg) (\<lambda>_.
         ret (migrationReply res, cs\<lparr>ccfg := cfg\<rparr>))))"

datatype clientEvent =
    Request httpRequest
  | Ping trustSys
  | Pull
  | Change

text \<open>The steps of the daemon, labelled with the packets they accept. A request whose packet finds no room in the
  channel waits; the step is taken when there is room. A request whose sender goes away before that is the step
  \<open>gone\<close>.\<close>

inductive clientStep :: "lib \<Rightarrow> clientState \<Rightarrow> world \<Rightarrow> clientEvent \<Rightarrow> MigrationPacket list \<Rightarrow> clientState \<Rightarrow> world \<Rightarrow> bool"
  for L where
  answered: "migrationHandler L (receiverConfig cs) r w = (Inl x, w') \<Longrightarrow> clientStep L cs w (Request r) [] cs w'"
| queued: "migrationHandler L (receiverConfig cs) r w = (Inr p, w') \<Longrightarrow> length (changes cs) < changesCap \<Longrightarrow>
    clientStep L cs w (Request r) [] (cs\<lparr>changes := changes cs @ [p]\<rparr>) w'"
| gone: "migrationHandler L (receiverConfig cs) r w = (Inr p, w') \<Longrightarrow> clientStep L cs w (Request r) [] cs w'"
| ping: "bnd (clientRegister L (ccfg cs)) (\<lambda>_. installTrust L (ccfg cs) (todoStores cs) sys) w = (Inr todo, w') \<Longrightarrow>
    clientStep L cs w (Ping sys) [] (cs\<lparr>todoStores := todo\<rparr>) w'"
| pull: "clientPull L (ccfg cs) w = (Inr u, w') \<Longrightarrow> clientStep L cs w Pull [] cs w'"
| change: "changes cs = p # ps \<Longrightarrow> takeChange L (cs\<lparr>changes := ps\<rparr>) p w = (Inr (reply, cs'), w') \<Longrightarrow>
    clientStep L cs w Change (if status reply = 200 then [p] else []) cs' w'"

inductive clientRun :: "lib \<Rightarrow> clientState \<Rightarrow> world \<Rightarrow> MigrationPacket list \<Rightarrow> clientState \<Rightarrow> world \<Rightarrow> bool" for L cs w where
  here: "clientRun L cs w [] cs w"
| further: "clientRun L cs w acc cs1 w1 \<Longrightarrow> clientStep L cs1 w1 e new cs2 w2 \<Longrightarrow> clientRun L cs w (acc @ new) cs2 w2"

section \<open>The daemon goes on\<close>

text \<open>Whatever fails, the closures of the daemon return and every event has a step.\<close>

definition alwaysInr :: "('s, 'e, 'a) prog \<Rightarrow> bool" where
  "alwaysInr m \<longleftrightarrow> (\<forall>s. \<exists>x t. m s = (Inr x, t))"

lemma alwaysInrE:
  assumes "alwaysInr m"
  obtains x t where "m s = (Inr x, t)"
  using assms unfolding alwaysInr_def by blast

lemma alwaysInr_bnd:
  assumes "alwaysInr m" "\<And>x. alwaysInr (k x)"
  shows "alwaysInr (bnd m k)"
  unfolding alwaysInr_def
proof
  fix s
  from assms(1) obtain x t where "m s = (Inr x, t)" by (rule alwaysInrE)
  moreover from assms(2) obtain y u where "k x t = (Inr y, u)" by (rule alwaysInrE)
  ultimately show "\<exists>x t. bnd m k s = (Inr x, t)" by auto
qed

lemma alwaysInr_basic:
  "alwaysInr (ret x)" "alwaysInr (attempt m)" "alwaysInr (logPrint msg)"
  by (auto simp: alwaysInr_def run_attempt logPrint_def)

lemma alwaysInr_if: "alwaysInr m \<Longrightarrow> alwaysInr m' \<Longrightarrow> alwaysInr (if b then m else m')"
  by simp

lemma alwaysInr_sum:
  "(\<And>e. alwaysInr (f e)) \<Longrightarrow> (\<And>y. alwaysInr (g y)) \<Longrightarrow> alwaysInr (case x of Inl e \<Rightarrow> f e | Inr y \<Rightarrow> g y)"
  by (cases x) auto

lemmas alwaysInr_intros = alwaysInr_bnd alwaysInr_basic alwaysInr_if alwaysInr_sum

lemma alwaysInr_logged: "alwaysInr (logged msg m)"
  unfolding logged_def by (intro alwaysInr_intros)

lemma alwaysInr_closures:
  "alwaysInr (clientRegister L cfg)" "alwaysInr (clientPull L cfg)" "alwaysInr (installTrust L cfg todo sys)"
  "alwaysInr (takeChange L cs pkt)"
proof -
  show r: "alwaysInr (clientRegister L cfg)" for cfg
    unfolding clientRegister_def by (intro alwaysInr_intros alwaysInr_logged)
  show p: "alwaysInr (clientPull L cfg)" for cfg
    unfolding clientPull_def by (intro alwaysInr_intros alwaysInr_logged)
  show "alwaysInr (installTrust L cfg todo sys)"
    unfolding installTrust_def tryInstall_def by (intro alwaysInr_intros)
  show "alwaysInr (takeChange L cs pkt)"
    unfolding takeChange_def by (intro alwaysInr_intros r p)
qed

lemma clientStep_enabled:
  assumes "e = Change \<longrightarrow> changes cs \<noteq> []"
  shows "\<exists>new cs' w'. clientStep L cs w e new cs' w'"
proof (cases e)
  case (Request r)
  obtain res w' where "migrationHandler L (receiverConfig cs) r w = (res, w')"
    by (cases "migrationHandler L (receiverConfig cs) r w")
  then show ?thesis using Request by (cases res) (auto intro: clientStep.intros)
next
  case (Ping sys)
  have "alwaysInr (bnd (clientRegister L (ccfg cs)) (\<lambda>_. installTrust L (ccfg cs) (todoStores cs) sys))"
    by (intro alwaysInr_intros alwaysInr_closures)
  then obtain todo w' where "bnd (clientRegister L (ccfg cs)) (\<lambda>_. installTrust L (ccfg cs) (todoStores cs) sys) w = (Inr todo, w')"
    by (rule alwaysInrE)
  from clientStep.ping [OF this] Ping show ?thesis by blast
next
  case Pull
  obtain u w' where "clientPull L (ccfg cs) w = (Inr u, w')" by (rule alwaysInrE [OF alwaysInr_closures(2)])
  from clientStep.pull [OF this] Pull show ?thesis by blast
next
  case Change
  with assms obtain p ps where q: "changes cs = p # ps" by (cases "changes cs") auto
  obtain reply cs' w' where "takeChange L (cs\<lparr>changes := ps\<rparr>) p w = (Inr (reply, cs'), w')"
    by (rule alwaysInrE [OF alwaysInr_closures(4), of L "cs\<lparr>changes := ps\<rparr>" p w]) (metis surj_pair)
  from clientStep.change [OF q this] Change show ?thesis by blast
qed

section \<open>What the daemon leaves alone\<close>

text \<open>\<open>keepsNode cfg\<close>: the files of the root, the cache and the revocation list, once there, are as before.\<close>

definition keepsNode :: "Config \<Rightarrow> world \<Rightarrow> world \<Rightarrow> bool" where
  "keepsNode cfg w w' \<longleftrightarrow>
     (\<forall>p \<in> {caCertPath cfg, cachePath cfg, crlPath cfg}. fs w p \<noteq> None \<longrightarrow> fs w' p = fs w p)"

lemma sendBlind_keepsNode [simp]: "sendBlind (keepsNode cfg)"
  unfolding sendBlind_def quiet_def preord_def reflp_def transp_def by (auto simp: keepsNode_def)

lemma quiet_keepsNode [simp]: "quiet (keepsNode cfg)"
  by (rule sendBlindD) simp

lemma keepsNode_untouched:
  assumes "\<And>p. p \<in> {caCertPath cfg, cachePath cfg, crlPath cfg} \<Longrightarrow> guar (untouched p) m"
  shows "guar (keepsNode cfg) m"
proof (rule guarI)
  fix w
  have "fs (snd (m w)) p = fs w p" if "p \<in> {caCertPath cfg, cachePath cfg, crlPath cfg}" for p
    using assms [OF that] by (simp add: guar_def untouched_def)
  then show "keepsNode cfg w (snd (m w))" by (simp add: keepsNode_def)
qed

lemma guar_osMkdirAll_keepsNode [path_intros]: "guar (keepsNode cfg) (osMkdirAll d mode)"
proof (rule guarI)
  fix w
  have "keepsAt p w (snd (osMkdirAll d mode w))" for p using guar_osMkdirAll_keepsAt by (simp add: guar_def)
  then show "keepsNode cfg w (snd (osMkdirAll d mode w))" by (simp add: keepsNode_def keepsAt_def)
qed

lemma identity_paths_neq [simp]:
  "caCertPath c \<noteq> identityKeyPath d" "cachePath c \<noteq> identityKeyPath d" "crlPath c \<noteq> identityKeyPath d"
  "caCertPath c \<noteq> identityCertPath d" "cachePath c \<noteq> identityCertPath d" "crlPath c \<noteq> identityCertPath d"
  "caCertPath c \<noteq> identityKeyPath d @ ''.lock''" "cachePath c \<noteq> identityKeyPath d @ ''.lock''"
  "crlPath c \<noteq> identityKeyPath d @ ''.lock''"
  by (rule path_neq, simp)+

declare identity_paths_neq [THEN not_sym, simp]

lemma guar_keepsNode_writes [path_intros]:
  "guar (keepsNode cfg) (atomicWriteFile (identityKeyPath cfg') b m)"
  "guar (keepsNode cfg) (atomicWriteFile (identityCertPath cfg') b m)"
  "guar (keepsNode cfg) (lockFile (identityKeyPath cfg' @ ''.lock''))"
  "guar (keepsNode cfg) (unlockFile (identityKeyPath cfg' @ ''.lock''))"
  by (rule keepsNode_untouched, auto intro!: path_intros)+

lemma guar_keepsNode_withLock [path_intros]:
  "guar (keepsNode cfg) m \<Longrightarrow> guar (keepsNode cfg) (withLock (identityKeyPath cfg' @ ''.lock'') m)"
  unfolding withLock_def by (auto intro!: guar_intros path_intros)

lemma guar_verifyClientIdentity [guar_intros]: "quiet R \<Longrightarrow> guar R (verifyClientIdentity L cfg cert)"
  unfolding verifyClientIdentity_def Let_def by (auto intro!: guar_intros)

lemma guar_leafOf [guar_intros]: "preord R \<Longrightarrow> guar R (leafOf chain)"
  unfolding leafOf_def by (auto intro!: guar_intros split: list.splits)

lemma guar_identityCurrent [guar_intros]: "quiet R \<Longrightarrow> guar R (identityCurrent L cfg)"
  unfolding identityCurrent_def by (auto intro!: guar_intros)

text \<open>What the daemon's programs need of a relation: it is kept by the requests and by the writes they make.\<close>

definition clientBase :: "lib \<Rightarrow> Config \<Rightarrow> (world \<Rightarrow> world \<Rightarrow> bool) \<Rightarrow> bool" where
  "clientBase L cfg R \<longleftrightarrow> quiet R \<and> (\<forall>req. guar R (masterDo L cfg req)) \<and> (\<forall>d m. guar R (osMkdirAll d m))
     \<and> (\<forall>b m. guar R (atomicWriteFile (identityKeyPath cfg) b m)) \<and> (\<forall>b m. guar R (atomicWriteFile (identityCertPath cfg) b m))
     \<and> (\<forall>m :: unit io. guar R m \<longrightarrow> guar R (withLock (identityKeyPath cfg @ ''.lock'') m))"

lemma clientBase_keepsNode: "clientBase L cfg (keepsNode c)"
  by (auto simp: clientBase_def intro!: path_intros guar_masterDo)

lemma guar_enrol: "clientBase L cfg R \<Longrightarrow> guar R (enrol L cfg)"
  unfolding enrol_def Let_def clientBase_def by (auto intro!: guar_intros)

lemma guar_ensureClientIdentity: "clientBase L cfg R \<Longrightarrow> guar R (ensureClientIdentity L cfg)"
proof -
  assume R: "clientBase L cfg R"
  then have "guar R (enrol L cfg)" by (rule guar_enrol)
  with R have "guar R (bnd (identityCurrent L cfg) (\<lambda>current. if current then ret ()
     else bnd (enrol L cfg) (\<lambda>(kp, certPEM).
       bnd (atomicWriteFile (identityKeyPath cfg) kp o600) (\<lambda>_. atomicWriteFile (identityCertPath cfg) certPEM o644))))"
    unfolding clientBase_def by (auto intro!: guar_intros)
  with R show ?thesis unfolding ensureClientIdentity_def clientBase_def by (intro guar_bnd) auto
qed

lemma guar_RegisterWithMaster: "clientBase L cfg R \<Longrightarrow> guar R (RegisterWithMaster L cfg)"
proof -
  assume R: "clientBase L cfg R"
  then have "guar R (ensureClientIdentity L cfg)" by (rule guar_ensureClientIdentity)
  with R show ?thesis unfolding RegisterWithMaster_def clientBase_def by (auto intro!: guar_intros)
qed

lemma guar_logged [guar_intros]: "quiet R \<Longrightarrow> guar R m \<Longrightarrow> guar R (logged msg m)"
  unfolding logged_def by (auto intro!: guar_intros)

lemma guar_installTrust:
  assumes "quiet R" "\<And>c. guar R (InstallRootCAIntoOS sys c)"
  shows "guar R (installTrust L cfg todo sys)"
  unfolding installTrust_def tryInstall_def using assms by (auto intro!: guar_intros)

lemma guar_installTrust_blind [blind_intros]: "fileBlind R \<Longrightarrow> guar R (installTrust L cfg todo sys)"
  by (rule guar_installTrust) (auto intro!: blind_intros)

lemma guar_installTrust_path [path_intros]: "p \<notin> anchorPaths \<Longrightarrow> guar (untouched p) (installTrust L cfg todo sys)"
  by (rule guar_installTrust) (auto intro!: path_intros)

lemma guar_clientRegister:
  assumes "clientBase L cfg R" "guar R (fetchAndInstallRootCA L cfg)"
  shows "guar R (clientRegister L cfg)"
proof -
  have "quiet R" using assms(1) by (simp add: clientBase_def)
  with assms show ?thesis unfolding clientRegister_def by (auto intro!: guar_intros guar_RegisterWithMaster)
qed

lemma guar_pullOnce:
  assumes "quiet R" "\<And>req. guar R (masterDo L cfg req)" "\<And>d. guar R (acceptCache L cfg d)" "\<And>d. guar R (acceptCRL L cfg d)"
  shows "guar R (clientPull L cfg)"
  unfolding clientPull_def pullOnce_def fetch_def using assms by (auto intro!: guar_intros)

section \<open>The root and the copies of a daemon\<close>

text \<open>\<^verbatim>\<open>Certificate.Raw\<close> is what was parsed.\<close>

definition rawOk :: "lib \<Rightarrow> bool" where
  "rawOk L \<longleftrightarrow> (\<forall>b c. parseCertificate L b = Some c \<longrightarrow> Raw c = b)"

text \<open>The root stays, and the versions of the copies do not go back.\<close>

definition rises :: "int option \<Rightarrow> int option \<Rightarrow> bool" where
  "rises x y \<longleftrightarrow> (case x of None \<Rightarrow> True | Some m \<Rightarrow> (case y of None \<Rightarrow> False | Some n \<Rightarrow> m \<le> n))"

lemma rises_refl [simp]: "rises x x"
  by (simp add: rises_def split: option.splits)

lemma rises_trans: "rises x y \<Longrightarrow> rises y z \<Longrightarrow> rises x z"
  by (auto simp: rises_def split: option.splits)

lemma rises_Some: "rises (Some m) y \<longleftrightarrow> (\<exists>n \<ge> m. y = Some n)"
  by (auto simp: rises_def split: option.splits)

definition steady :: "lib \<Rightarrow> Config \<Rightarrow> world \<Rightarrow> world \<Rightarrow> bool" where
  "steady L cfg w w' \<longleftrightarrow> (rootIn L cfg (fs w) \<noteq> None \<longrightarrow> rootIn L cfg (fs w') = rootIn L cfg (fs w))
     \<and> rises (cacheCopy.copyVersion cfg L (fs w)) (cacheCopy.copyVersion cfg L (fs w'))
     \<and> rises (crlCopy.copyVersion cfg L (fs w)) (crlCopy.copyVersion cfg L (fs w'))"

lemma preord_steady [simp]: "preord (steady L cfg)"
  unfolding preord_def reflp_def transp_def steady_def by (auto intro: rises_trans)

lemma copyVersion_same:
  assumes "rootIn L cfg F' = rootIn L cfg F"
  shows "F' (cachePath cfg) = F (cachePath cfg) \<Longrightarrow> cacheCopy.copyVersion cfg L F' = cacheCopy.copyVersion cfg L F"
    and "F' (crlPath cfg) = F (crlPath cfg) \<Longrightarrow> crlCopy.copyVersion cfg L F' = crlCopy.copyVersion cfg L F"
proof -
  have "cacheVersion L cfg F' = cacheVersion L cfg F" "crlVersion L cfg F' = crlVersion L cfg F"
    using assms by (simp_all add: cacheVersion_def crlVersion_def fun_eq_iff)
  then show "F' (cachePath cfg) = F (cachePath cfg) \<Longrightarrow> cacheCopy.copyVersion cfg L F' = cacheCopy.copyVersion cfg L F"
    "F' (crlPath cfg) = F (crlPath cfg) \<Longrightarrow> crlCopy.copyVersion cfg L F' = crlCopy.copyVersion cfg L F"
    by (simp_all add: cacheCopy.copyVersion_def crlCopy.copyVersion_def fileBytes_def)
qed

lemma copyVersion_root:
  "cacheCopy.copyVersion cfg L F = Some m \<Longrightarrow> rootIn L cfg F \<noteq> None"
  "crlCopy.copyVersion cfg L F = Some m \<Longrightarrow> rootIn L cfg F \<noteq> None"
  by (auto simp: cacheCopy.copyVersion_def crlCopy.copyVersion_def cacheVersion_def crlVersion_def bind_eq_Some_conv
      split: option.splits)

text \<open>An operation that keeps the root may change a copy only by accepting a new one.\<close>

lemma steadyI:
  assumes "rootIn L cfg (fs w) \<noteq> None \<Longrightarrow> rootIn L cfg (fs w') = rootIn L cfg (fs w)"
    and "fs w (cachePath cfg) \<noteq> None \<Longrightarrow> fs w' (cachePath cfg) = fs w (cachePath cfg)
      \<or> rises (cacheCopy.copyVersion cfg L (fs w)) (cacheCopy.copyVersion cfg L (fs w'))"
    and "fs w (crlPath cfg) \<noteq> None \<Longrightarrow> fs w' (crlPath cfg) = fs w (crlPath cfg)
      \<or> rises (crlCopy.copyVersion cfg L (fs w)) (crlCopy.copyVersion cfg L (fs w'))"
  shows "steady L cfg w w'"
proof -
  have "rises (cacheCopy.copyVersion cfg L (fs w)) (cacheCopy.copyVersion cfg L (fs w'))"
  proof (cases "cacheCopy.copyVersion cfg L (fs w)")
    case (Some m)
    then have r: "rootIn L cfg (fs w') = rootIn L cfg (fs w)" by (intro assms(1) copyVersion_root)
    have "fs w (cachePath cfg) \<noteq> None"
      using Some by (auto simp: cacheCopy.copyVersion_def fileBytes_def bind_eq_Some_conv split: option.splits)
    from assms(2) [OF this] show ?thesis using copyVersion_same(1) [OF r] by auto
  qed (simp add: rises_def)
  moreover have "rises (crlCopy.copyVersion cfg L (fs w)) (crlCopy.copyVersion cfg L (fs w'))"
  proof (cases "crlCopy.copyVersion cfg L (fs w)")
    case (Some m)
    then have r: "rootIn L cfg (fs w') = rootIn L cfg (fs w)" by (intro assms(1) copyVersion_root)
    have "fs w (crlPath cfg) \<noteq> None"
      using Some by (auto simp: crlCopy.copyVersion_def fileBytes_def bind_eq_Some_conv split: option.splits)
    from assms(3) [OF this] show ?thesis using copyVersion_same(2) [OF r] by auto
  qed (simp add: rises_def)
  ultimately show ?thesis using assms(1) by (simp add: steady_def)
qed

lemma rootIn_file: "rootIn L cfg F = Some r \<Longrightarrow> F (caCertPath cfg) \<noteq> None"
  by (auto simp: rootIn_def fileBytes_def split: option.splits)

lemma steady_keepsNode:
  assumes "keepsNode cfg w w'"
  shows "steady L cfg w w'"
proof (rule steadyI)
  show "rootIn L cfg (fs w') = rootIn L cfg (fs w)" if "rootIn L cfg (fs w) \<noteq> None"
  proof (rule rootIn_same)
    from that have "fs w (caCertPath cfg) \<noteq> None" by (auto dest: rootIn_file)
    with assms show "fs w' (caCertPath cfg) = fs w (caCertPath cfg)" by (simp add: keepsNode_def)
  qed
qed (use assms in \<open>simp_all add: keepsNode_def\<close>)

lemma guar_steady_keepsNode: "guar (keepsNode cfg) m \<Longrightarrow> guar (steady L cfg) m"
  by (erule guar_mono) (rule steady_keepsNode)

lemma risesI: "(\<And>m. x = Some m \<Longrightarrow> \<exists>n \<ge> m. y = Some n) \<Longrightarrow> rises x y"
  by (cases x) (auto simp: rises_def)

lemma rises_never_back:
  "acceptCache L cfg d w = (r, w') \<Longrightarrow> rises (cacheCopy.copyVersion cfg L (fs w)) (cacheCopy.copyVersion cfg L (fs w'))"
  "acceptCRL L cfg d w = (r, w') \<Longrightarrow> rises (crlCopy.copyVersion cfg L (fs w)) (crlCopy.copyVersion cfg L (fs w'))"
  by (auto intro!: risesI dest: cacheCopy.never_back crlCopy.never_back)

lemma guar_steady_accept: "guar (steady L cfg) (acceptCache L cfg d)" "guar (steady L cfg) (acceptCRL L cfg d)"
proof -
  show "guar (steady L cfg) (acceptCache L cfg d)"
  proof (rule guarI)
    fix w
    obtain r w' where run: "acceptCache L cfg d w = (r, w')" by (cases "acceptCache L cfg d w")
    have "fs w' (crlPath cfg) = fs w (crlPath cfg)"
      using guar_acceptCache_path [of "crlPath cfg" cfg L d, THEN untouched_same] run by (auto dest: guar_sameD)
    then show "steady L cfg w (snd (acceptCache L cfg d w))"
      using acceptCache_root [OF run] rises_never_back(1) [OF run] run by (intro steadyI) simp_all
  qed
  show "guar (steady L cfg) (acceptCRL L cfg d)"
  proof (rule guarI)
    fix w
    obtain r w' where run: "acceptCRL L cfg d w = (r, w')" by (cases "acceptCRL L cfg d w")
    have "fs w' (cachePath cfg) = fs w (cachePath cfg)"
      using guar_crl_path(3) [of "cachePath cfg" cfg L d, THEN untouched_same] run by (auto dest: guar_sameD)
    then show "steady L cfg w (snd (acceptCRL L cfg d w))"
      using acceptCRL_root [OF run] rises_never_back(2) [OF run] run by (intro steadyI) simp_all
  qed
qed

text \<open>Installing a root over the root that is there: refused unless it is the same, provided that the root that is
  there can be read.\<close>

lemma verifyMigrationSig_works:
  assumes "signedBy L cfg (fs w) pkt" "noFaults w"
  shows "\<exists>w'. verifyMigrationSig L cfg pkt w = (Inr (), w')"
proof -
  from assms(1) obtain pem ty b cert pub where s: "fileBytes (fs w) (caCertPath cfg) = Some pem" "pemDecode L pem = Some (ty, b)"
    "parseCertificate L b = Some cert" "PublicKey cert = ECDSAKey pub" "verifyASN1 L pub (migrationDigest L pkt) (mpSignature pkt)"
    by (auto simp: signedBy_def)
  from osReadFile_noFaults [OF assms(2) s(1)] s(2-) show ?thesis
    by (simp add: verifyMigrationSig_def onErr_def bnd_def run_guardE need_def lift_def ret_def)
qed

lemma parseRootCA_same:
  assumes "parseRootCA L d = Inr r" "parseRootCA L d' = Inr r'" "Raw r = Raw r'" "rawOk L"
  shows "r = r'"
proof -
  from assms(1,2) obtain b b' where "parseCertificate L b = Some r" "parseCertificate L b' = Some r'"
    by (auto dest!: parseRootCA_Inr)
  with assms(3,4) show ?thesis by (auto simp: rawOk_def)
qed

definition faultSteady :: "lib \<Rightarrow> Config \<Rightarrow> world \<Rightarrow> world \<Rightarrow> bool" where
  "faultSteady L cfg w w' \<longleftrightarrow> faults w' = faults w \<and> (noFaults w \<longrightarrow> steady L cfg w w')"

lemma preord_faultSteady [simp]: "preord (faultSteady L cfg)"
proof -
  have "reflp (faultSteady L cfg)" by (simp add: reflp_def faultSteady_def preord_refl)
  moreover have "transp (faultSteady L cfg)"
  proof (rule transpI)
    fix u v w assume 1: "faultSteady L cfg u v" and 2: "faultSteady L cfg v w"
    have "steady L cfg u w" if "noFaults u"
    proof -
      have "steady L cfg u v" "steady L cfg v w" using that 1 2 by (simp_all add: faultSteady_def noFaults_def)
      then show ?thesis by (rule preord_trans [OF preord_steady])
    qed
    with 1 2 show "faultSteady L cfg u w" by (simp add: faultSteady_def)
  qed
  ultimately show ?thesis by (simp add: preord_def)
qed

lemma guar_faultSteady: "guar (same faults) m \<Longrightarrow> guar (steady L cfg) m \<Longrightarrow> guar (faultSteady L cfg) m"
  by (simp add: guar_def same_def faultSteady_def)

lemma quiet_faultSteady [simp]: "quiet (faultSteady L cfg)"
  by (simp add: quiet_def) (simp add: faultSteady_def steady_def)

lemma sendBlind_faults [simp]: "sendBlind (same faults)"
  by (simp add: sendBlind_def) (simp add: same_def)

lemma clientBase_faultSteady: "clientBase L cfg (faultSteady L c)"
proof -
  have k: "guar (keepsNode c) m \<Longrightarrow> guar (same faults) m \<Longrightarrow> guar (faultSteady L c) m" for m :: "'a io"
    by (intro guar_faultSteady guar_steady_keepsNode)
  have "guar (faultSteady L c) (withLock (identityKeyPath cfg @ ''.lock'') m)" if "guar (faultSteady L c) m" for m :: "unit io"
    unfolding withLock_def by (intro guar_bnd guar_deferred k that) (auto intro!: path_intros blind_intros)
  moreover have "guar (keepsNode c) (masterDo L cfg req)" "guar (same faults) (masterDo L cfg req)" for req
    by (auto intro!: guar_masterDo)
  moreover have "guar (keepsNode c) (osMkdirAll d m)" "guar (same faults) (osMkdirAll d m)"
    "guar (keepsNode c) (atomicWriteFile (identityKeyPath cfg) b m)" "guar (same faults) (atomicWriteFile p b m)"
    "guar (keepsNode c) (atomicWriteFile (identityCertPath cfg) b m)" for p d b m
    by (auto intro: path_intros blind_intros)
  ultimately show ?thesis unfolding clientBase_def by (auto intro: k)
qed

lemma steady_root:
  assumes "rootIn L cfg (fs w) \<noteq> None \<Longrightarrow> rootIn L cfg (fs w') = rootIn L cfg (fs w)"
    "fs w' (cachePath cfg) = fs w (cachePath cfg)" "fs w' (crlPath cfg) = fs w (crlPath cfg)"
  shows "steady L cfg w w'"
  using assms by (intro steadyI) auto

lemma writeRoot_steady:
  assumes "rawOk L" "parseRootCA L data = Inr root"
    "rootIn L cfg (fs w) = None \<or> (\<exists>old. rootIn L cfg (fs w) = Some old \<and> Raw old = Raw root)"
  shows "steady L cfg w (snd (atomicWriteFile (caCertPath cfg) data o644 w))"
proof -
  obtain r w' where run: "atomicWriteFile (caCertPath cfg) data o644 w = (r, w')"
    by (cases "atomicWriteFile (caCertPath cfg) data o644 w")
  have "fs w' (cachePath cfg) = fs w (cachePath cfg)" "fs w' (crlPath cfg) = fs w (crlPath cfg)"
    using atomicWriteFile_other [OF _ _ run] by simp_all
  moreover have "rootIn L cfg (fs w') = rootIn L cfg (fs w)" if "rootIn L cfg (fs w) \<noteq> None"
  proof (cases r)
    case (Inl e)
    with run show ?thesis by (intro rootIn_same) (auto intro: atomicWriteFile_Inl)
  next
    case (Inr u)
    with run have "fs w' (caCertPath cfg) = Some (File data o644)" by (intro atomicWriteFile_Inr) auto
    with assms(2) have new: "rootIn L cfg (fs w') = Some root" by (simp add: rootIn_def fileBytes_def)
    from assms(3) that obtain old where old: "rootIn L cfg (fs w) = Some old" "Raw old = Raw root" by auto
    then obtain d where "parseRootCA L d = Inr old" by (auto simp: rootIn_def split: option.splits sum.splits)
    from parseRootCA_same [OF this assms(2) old(2) assms(1)] new old(1) show ?thesis by simp
  qed
  ultimately have "steady L cfg w w'" by (intro steady_root)
  with run show ?thesis by simp
qed

lemma guar_same_faults:
  "guar (same faults) (fetchAndInstallRootCA L cfg)" "guar (same faults) (acceptCache L cfg d)"
  "guar (same faults) (acceptCRL L cfg d)" "guar (same faults) (Save L cfg)"
  unfolding fetchAndInstallRootCA_def
  by (auto intro!: guar_intros blind_intros guar_masterDo)

text \<open>The last part of the download, which compares with the root that is there.\<close>

lemma replaceRoot_steady:
  assumes "rawOk L" "parseRootCA L data = Inr root" "noFaults w"
  shows "steady L cfg w (snd (bnd (attempt (osReadFile (caCertPath cfg))) (\<lambda>prev.
     bnd (case prev of
            Inl _ \<Rightarrow> ret ()
          | Inr previous \<Rightarrow>
              bnd (lift (parseRootCA L previous)) (\<lambda>old.
              guardE (Raw old = Raw root) (Msg ''downloaded Root CA differs from local Root CA''))) (\<lambda>_.
     atomicWriteFile (caCertPath cfg) data o644)) w))"
proof -
  obtain r w1 where r: "osReadFile (caCertPath cfg) w = (r, w1)" by (cases "osReadFile (caCertPath cfg) w")
  have f1: "fs w1 = fs w" using guar_osReadFile [of "same fs"] r by (auto dest: guar_sameD)
  have eq: "steady L cfg w v \<longleftrightarrow> steady L cfg w1 v" for v using f1 by (simp add: steady_def)
  have same: "steady L cfg w1 w1" by (simp add: preord_refl)
  note wr = writeRoot_steady [OF assms(1,2), of cfg w1]
  show ?thesis
  proof (cases r)
    case (Inl e)
    then have "rootIn L cfg (fs w) = None"
      using r osReadFile_noFaults [OF assms(3)] by (auto simp: rootIn_def split: option.splits)
    with r Inl wr f1 show ?thesis by (simp add: eq bnd_def run_attempt)
  next
    case (Inr previous)
    then have p: "fileBytes (fs w) (caCertPath cfg) = Some previous" using r by (auto dest: osReadFile_Inr)
    show ?thesis
    proof (cases "parseRootCA L previous")
      case (Inl e)
      then show ?thesis using r Inr same by (simp add: eq bnd_def run_attempt)
    next
      case old: (Inr old)
      then have "rootIn L cfg (fs w) = Some old" using p by (simp add: rootIn_def)
      then show ?thesis using r Inr old same wr f1 by (simp add: eq bnd_def run_attempt run_guardE)
    qed
  qed
qed

lemma fetchRoot_steady:
  assumes "rawOk L"
  shows "guar (faultSteady L cfg) (fetchAndInstallRootCA L cfg)"
proof -
  have m: "guar (faultSteady L cfg) (masterDo L cfg req)" for req
    using clientBase_faultSteady [of L cfg cfg] by (simp add: clientBase_def)
  have rest: "guar (faultSteady L cfg) (bnd (attempt (osReadFile (caCertPath cfg))) (\<lambda>prev.
     bnd (case prev of
            Inl _ \<Rightarrow> ret ()
          | Inr previous \<Rightarrow>
              bnd (lift (parseRootCA L previous)) (\<lambda>old.
              guardE (Raw old = Raw root) (Msg ''downloaded Root CA differs from local Root CA''))) (\<lambda>_.
     atomicWriteFile (caCertPath cfg) data o644)))" (is "guar _ ?m") if "parseRootCA L data = Inr root" for data root
  proof (rule guarI)
    fix w
    have "guar (same faults) ?m" by (auto intro!: guar_intros blind_intros)
    then have "faults (snd (?m w)) = faults w" by (simp add: guar_def same_def)
    with replaceRoot_steady [OF assms that] show "faultSteady L cfg w (snd (?m w))" by (simp add: faultSteady_def)
  qed
  have parsed: "guar (faultSteady L cfg) (bnd (lift (parseRootCA L data)) k)"
    if "\<And>root. parseRootCA L data = Inr root \<Longrightarrow> guar (faultSteady L cfg) (k root)" for data and k :: "certificate \<Rightarrow> unit io"
    by (rule guar_bnd_result) (auto intro!: guar_intros that)
  show ?thesis unfolding fetchAndInstallRootCA_def
    by (auto intro!: guar_intros m parsed rest)
qed

text \<open>The configuration is saved elsewhere.\<close>

definition savesApart :: "Config \<Rightarrow> bool" where
  "savesApart cfg \<longleftrightarrow> baseName (cfgPath cfg) \<notin> {''root-ca.crt'', ''network-cache.enc'', ''root-ca.crl''}"

lemma guar_Save_keepsNode:
  assumes "savesApart cfg'"
  shows "guar (keepsNode cfg) (Save L cfg')"
proof -
  have w: "guar (keepsNode cfg) (atomicWriteFile q b o600)"
    if "baseName q \<notin> {''root-ca.crt'', ''network-cache.enc'', ''root-ca.crl''}" for q b
    using that by (intro keepsNode_untouched) (auto intro!: path_intros)
  have "baseName ''/etc/natssl/config.yaml'' = ''config.yaml''" by (simp add: baseName_def)
  then show ?thesis using assms unfolding Save_def Let_def savesApart_def
    by (auto intro!: guar_intros w path_intros)
qed

lemma guar_applyMigration_keepsNode: "savesApart cfg' \<Longrightarrow> guar (keepsNode cfg) (applyMigration L cfg' pkt)"
  unfolding applyMigration_def by (auto intro!: guar_intros guar_Save_keepsNode simp: savesApart_def)

lemma applyMigration_apart:
  assumes "applyMigration L cfg pkt w = (Inr cfg', w')" "savesApart cfg"
  shows "savesApart cfg'"
proof -
  from assms(1) obtain c w1 where s: "Save L c w1 = (Inr cfg', w')" and c: "cfgPath c = cfgPath cfg"
    by (auto simp: applyMigration_def split: option.splits if_splits) 
  have "baseName ''/etc/natssl/config.yaml'' = ''config.yaml''" by (simp add: baseName_def)
  with Save_Inr [OF s] c assms(2) show ?thesis by (simp add: savesApart_def)
qed

section \<open>Runs of the daemon\<close>

lemma takeChange_cases:
  assumes "takeChange L cs p w = (Inr (reply, cs'), w')"
  obtains (refused) e where "applyMigration L (ccfg cs) p w = (Inl e, w')" "status reply = 403" "cs' = cs"
  | (applied) cfg w1 where "applyMigration L (ccfg cs) p w = (Inr cfg, w1)" "status reply = 200" "cs' = cs\<lparr>ccfg := cfg\<rparr>"
      "bnd (clientRegister L cfg) (\<lambda>_. clientPull L cfg) w1 = (Inr (), w')"
proof -
  from assms obtain r w1 where r: "applyMigration L (ccfg cs) p w = (r, w1)" and
    k: "(case r of
       Inl e \<Rightarrow> ret (migrationReply r, cs)
     | Inr cfg \<Rightarrow> bnd (clientRegister L cfg) (\<lambda>_. bnd (clientPull L cfg) (\<lambda>_.
         ret (migrationReply r, cs\<lparr>ccfg := cfg\<rparr>)))) w1 = (Inr (reply, cs'), w')"
    unfolding takeChange_def by (rule bnd_attemptE)
  show thesis
  proof (cases r)
    case (Inl e)
    with k have "reply = httpError (errText e) 403" "cs' = cs" "w' = w1" by (auto simp: migrationReply_def)
    with r Inl refused [of e] show thesis by (simp add: httpError_def)
  next
    case (Inr cfg)
    with k have "bnd (clientRegister L cfg) (\<lambda>_. clientPull L cfg) w1 = (Inr (), w')"
      "reply = ok [] ''ok''" "cs' = cs\<lparr>ccfg := cfg\<rparr>" by (auto simp: migrationReply_def)
    with r Inr applied [of cfg w1] show thesis by (simp add: ok_def)
  qed
qed

text \<open>A relation is kept by a step when it is kept by the programs under the configurations the step uses.\<close>

lemma clientStep_keeps:
  assumes "clientStep L cs w e new cs' w'" "quiet R" "savesApart (ccfg cs)"
    and reg: "\<And>c. moved (ccfg cs) c \<Longrightarrow> guar R (clientRegister L c)"
    and pul: "\<And>c. moved (ccfg cs) c \<Longrightarrow> guar R (clientPull L c)"
    and app: "\<And>p. guar R (applyMigration L (ccfg cs) p)"
    and trust: "\<And>c todo sys. guar R (installTrust L c todo sys)"
  shows "R w w'"
  using assms(1)
proof cases
  case (answered r x)
  show ?thesis using guar_migrationHandler [OF assms(2)] answered(4) by (rule guarD)
next
  case (queued r p)
  show ?thesis using guar_migrationHandler [OF assms(2)] queued(4) by (rule guarD)
next
  case (gone r p)
  show ?thesis using guar_migrationHandler [OF assms(2)] gone(4) by (rule guarD)
next
  case (ping sys todo)
  have "guar R (bnd (clientRegister L (ccfg cs)) (\<lambda>_. installTrust L (ccfg cs) (todoStores cs) sys))"
    by (intro guar_bnd reg [OF moved_refl] trust) (use assms(2) in simp)
  then show ?thesis using ping(4) by (rule guarD)
next
  case (pull u)
  show ?thesis using pul [OF moved_refl] pull(4) by (rule guarD)
next
  case (change p ps reply)
  have pre: "preord R" using assms(2) by simp
  from change(4) show ?thesis
  proof (cases rule: takeChange_cases)
    case (refused e)
    then show ?thesis using app [of p] by (auto dest: guarD)
  next
    case (applied cfg w1)
    then have m: "moved (ccfg cs) cfg" using applyMigration_moved by fastforce
    have "R w w1" using app [of p] applied(1) by (auto dest: guarD)
    moreover have "guar R (bnd (clientRegister L cfg) (\<lambda>_. clientPull L cfg))"
      using pre reg [OF m] pul [OF m] by (intro guar_bnd)
    then have "R w1 w'" using applied(4) by (rule guarD)
    ultimately show ?thesis by (rule preord_trans [OF pre])
  qed
qed

text \<open>What a step does to the daemon's own state.\<close>

definition clientInv :: "Config \<Rightarrow> clientState \<Rightarrow> bool" where
  "clientInv cfg cs \<longleftrightarrow> moved cfg (ccfg cs) \<and> savesApart (ccfg cs) \<and> receiverConfig cs = cfg
     \<and> length (changes cs) \<le> changesCap"

lemma clientStep_inv:
  assumes "clientStep L cs w e new cs' w'" "clientInv cfg cs"
  shows "clientInv cfg cs'"
  using assms(1)
proof cases
  case (change p ps reply)
  from change(4) show ?thesis
  proof (cases rule: takeChange_cases)
    case (refused e)
    then show ?thesis using assms(2) change(3) by (simp add: clientInv_def)
  next
    case (applied c w1)
    then have "moved (ccfg cs) c" "savesApart c"
      using assms(2) by (auto simp: clientInv_def dest: applyMigration_moved applyMigration_apart)
    then show ?thesis using applied(3) assms(2) change(3) by (auto simp: clientInv_def intro: moved_trans)
  qed
qed (use assms(2) in \<open>simp_all add: clientInv_def\<close>)

lemma clientRun_inv: "clientRun L cs w acc cs' w' \<Longrightarrow> clientInv cfg cs \<Longrightarrow> clientInv cfg cs'"
  by (induction rule: clientRun.induct) (auto intro: clientStep_inv)

lemma clientRun_keeps:
  assumes "clientRun L cs w acc cs' w'" "clientInv cfg cs" "quiet R"
    and "\<And>c. moved cfg c \<Longrightarrow> guar R (clientRegister L c)" "\<And>c. moved cfg c \<Longrightarrow> guar R (clientPull L c)"
    and "\<And>c p. moved cfg c \<Longrightarrow> savesApart c \<Longrightarrow> guar R (applyMigration L c p)"
    and "\<And>c todo sys. guar R (installTrust L c todo sys)"
  shows "R w w'"
  using assms(1)
proof induction
  case here
  show ?case using assms(3) by (simp add: preord_refl)
next
  case (further acc cs1 w1 e new cs2 w2)
  have inv: "moved cfg (ccfg cs1)" "savesApart (ccfg cs1)"
    using clientRun_inv [OF further(1) assms(2)] by (simp_all add: clientInv_def)
  have "R w1 w2"
    by (rule clientStep_keeps [OF further(2) assms(3) inv(2)])
      (use assms(4-7) inv in \<open>auto intro: moved_trans\<close>)
  with further(3) show ?case by (rule preord_trans [OF quietD [OF assms(3)]])
qed

text \<open>The root and the copies.\<close>

lemma steady_moved:
  assumes "moved c c'"
  shows "steady L c' = steady L c"
proof -
  have "rootIn L c' = rootIn L c" by (simp add: fun_eq_iff rootIn_def moved_paths [OF assms])
  then have "cacheVersion L c' = cacheVersion L c" "crlVersion L c' = crlVersion L c" "rootIn L c' = rootIn L c"
    by (simp_all add: fun_eq_iff cacheVersion_def crlVersion_def)
  then show ?thesis by (intro ext) (simp add: steady_def moved_paths [OF assms])
qed

lemma faultSteady_moved: "moved c c' \<Longrightarrow> faultSteady L c' = faultSteady L c"
  by (simp add: fun_eq_iff faultSteady_def steady_moved)

lemma faultSteady_trust: "guar (faultSteady L cfg) (installTrust L c todo sys)"
  by (intro guar_faultSteady guar_steady_keepsNode keepsNode_untouched) (auto intro!: blind_intros path_intros)

lemma faultSteady_programs:
  assumes "rawOk L" "moved cfg c"
  shows "guar (faultSteady L cfg) (clientRegister L c)" "guar (faultSteady L cfg) (clientPull L c)"
    "savesApart c \<Longrightarrow> guar (faultSteady L cfg) (applyMigration L c p)"
proof -
  note m = faultSteady_moved [OF assms(2), symmetric]
  show "guar (faultSteady L cfg) (clientRegister L c)"
    unfolding m by (intro guar_clientRegister clientBase_faultSteady fetchRoot_steady assms(1))
  have "guar (faultSteady L c) (masterDo L c req)" for req
    using clientBase_faultSteady [of L c c] by (simp add: clientBase_def)
  moreover have "guar (faultSteady L c) (acceptCache L c d)" "guar (faultSteady L c) (acceptCRL L c d)" for d
    by (auto intro!: guar_faultSteady guar_same_faults guar_steady_accept)
  ultimately show "guar (faultSteady L cfg) (clientPull L c)"
    unfolding m by (intro guar_pullOnce) simp_all
  have "guar (same faults) (applyMigration L c p)" by (rule blind_intros) simp
  then show "savesApart c \<Longrightarrow> guar (faultSteady L cfg) (applyMigration L c p)"
    unfolding m by (intro guar_faultSteady guar_steady_keepsNode guar_applyMigration_keepsNode)
qed

lemma clientRun_steady:
  assumes "clientRun L cs w acc cs' w'" "clientInv cfg cs" "rawOk L" "noFaults w"
  shows "steady L cfg w w' \<and> noFaults w'"
proof -
  have "faultSteady L cfg w w'"
    using assms(1,2) quiet_faultSteady by (rule clientRun_keeps) (auto intro: faultSteady_programs faultSteady_trust assms(3))
  with assms(4) show ?thesis by (simp add: faultSteady_def noFaults_def)
qed

text \<open>The requests.\<close>

lemma pinnedSend:
  assumes "moved cfg c"
  shows "guar (sendsOnly (\<lambda>req. \<exists>c. moved cfg c \<and> pinnedPeer L c (outPeer req))) (masterDo L c req)"
  by (rule masterDo_sends) (use assms in auto)

lemma clientBase_sends:
  assumes "moved cfg c"
  shows "clientBase L c (sendsOnly (\<lambda>req. \<exists>c. moved cfg c \<and> pinnedPeer L c (outPeer req)))"
  unfolding clientBase_def using pinnedSend [OF assms] by (auto intro!: blind_intros)

lemma clientRun_sends:
  assumes "clientRun L cs w acc cs' w'" "clientInv cfg cs"
  shows "sendsOnly (\<lambda>req. \<exists>c. moved cfg c \<and> pinnedPeer L c (outPeer req)) w w'"
  using assms
proof (rule clientRun_keeps)
  fix c assume m: "moved cfg c"
  let ?R = "sendsOnly (\<lambda>req. \<exists>c. moved cfg c \<and> pinnedPeer L c (outPeer req))"
  have "guar ?R (fetchAndInstallRootCA L c)"
    unfolding fetchAndInstallRootCA_def by (auto intro!: guar_intros blind_intros pinnedSend [OF m])
  with clientBase_sends [OF m] show "guar ?R (clientRegister L c)" by (rule guar_clientRegister)
  show "guar ?R (clientPull L c)" by (rule guar_pullOnce) (auto intro!: pinnedSend [OF m] blind_intros)
qed (auto intro!: blind_intros)

text \<open>The packets a daemon accepts.\<close>

lemma clientStep_packets:
  assumes "clientStep L cs w e new cs' w'"
  obtains "new = []" "ccfg cs' = ccfg cs"
  | p ip where "new = [p]" "signedBy L (ccfg cs) (fs w) p" "ParseIP (NewMasterIP p) = Some ip"
      "LastMigration (ccfg cs) < IssuedAt p" "LastMigration (ccfg cs') = IssuedAt p"
      "MasterAddress (ccfg cs') = ipString ip"
  using assms
proof cases
  case (change p ps reply)
  from change(4) show thesis
  proof (cases rule: takeChange_cases)
    case (refused e)
    with change that(1) show thesis by simp
  next
    case (applied c w1)
    then have "applyMigration L (ccfg cs) p w = (Inr c, w1)" by simp
    then show thesis
      by (rule applyMigration_Inr) (use change applied that(2) in simp)
  qed
qed (use that(1) in simp_all)

lemma strict_last: "sorted_wrt (<) (xs :: int list) \<Longrightarrow> x \<in> set xs \<Longrightarrow> x \<le> last xs"
  by (induction xs rule: rev_induct) (auto simp: sorted_wrt_append)

lemma clientRun_packets:
  assumes "clientRun L cs w acc cs' w'"
  shows "sorted_wrt (<) (LastMigration (ccfg cs) # map IssuedAt acc)
    \<and> LastMigration (ccfg cs') = last (LastMigration (ccfg cs) # map IssuedAt acc)
    \<and> (if acc = [] then ccfg cs' = ccfg cs
       else \<exists>ip. ParseIP (NewMasterIP (last acc)) = Some ip \<and> MasterAddress (ccfg cs') = ipString ip)"
  using assms
proof induction
  case (further acc cs1 w1 e new cs2 w2)
  from further(2) show ?case
  proof (cases rule: clientStep_packets)
    case 1
    with further(3) show ?thesis by simp
  next
    case (2 p ip)
    have srt: "sorted_wrt (<) (LastMigration (ccfg cs) # map IssuedAt acc)"
      and lst: "last (LastMigration (ccfg cs) # map IssuedAt acc) < IssuedAt p"
      using further(3) 2(4) by auto
    have "x \<le> last (LastMigration (ccfg cs) # map IssuedAt acc)"
      if "x \<in> set (LastMigration (ccfg cs) # map IssuedAt acc)" for x
      using srt that by (rule strict_last)
    with lst have "\<forall>x \<in> set (LastMigration (ccfg cs) # map IssuedAt acc). x < IssuedAt p" by fastforce
    with srt have "sorted_wrt (<) ((LastMigration (ccfg cs) # map IssuedAt acc) @ [IssuedAt p])"
      unfolding sorted_wrt_append by simp
    with 2 show ?thesis by auto
  qed
qed simp

lemma signedBy_root:
  assumes "signedBy L c F p" "rootIn L cfg F = Some root" "moved cfg c"
  obtains pub where "PublicKey root = ECDSAKey pub" "verifyASN1 L pub (migrationDigest L p) (mpSignature p)"
proof -
  from assms(1,3) obtain pem ty b cert pub where c: "fileBytes F (caCertPath cfg) = Some pem" "pemDecode L pem = Some (ty, b)"
    "parseCertificate L b = Some cert" "PublicKey cert = ECDSAKey pub"
    "verifyASN1 L pub (migrationDigest L p) (mpSignature p)" by (auto simp: signedBy_def moved_paths)
  from c(1) assms(2) have "parseRootCA L pem = Inr root" by (auto simp: rootIn_def split: sum.splits)
  with c(2,3) have "root = cert" by (auto dest!: parseRootCA_Inr)
  with c(4,5) that show thesis by blast
qed

lemma clientRun_signed:
  assumes "clientRun L cs w acc cs' w'" "clientInv cfg cs" "rawOk L" "noFaults w" "rootIn L cfg (fs w) = Some root"
    "p \<in> set acc"
  shows "\<exists>pub. PublicKey root = ECDSAKey pub \<and> verifyASN1 L pub (migrationDigest L p) (mpSignature p)"
  using assms(1,6)
proof induction
  case (further acc cs1 w1 e new cs2 w2)
  from further(2) show ?case
  proof (cases rule: clientStep_packets)
    case (2 q ip)
    have "rootIn L cfg (fs w1) = Some root"
      using clientRun_steady [OF further(1) assms(2-4)] assms(5) by (simp add: steady_def)
    moreover have "moved cfg (ccfg cs1)" using clientRun_inv [OF further(1) assms(2)] by (simp add: clientInv_def)
    ultimately show ?thesis
      using further 2(1) signedBy_root [OF 2(2)] by (cases "p = q") (auto, metis)
  qed (use further in simp)
qed simp

text \<open>With a pin, the local root carries it at all times, also when reads of the root fail.\<close>

definition rootPinned :: "lib \<Rightarrow> Config \<Rightarrow> world \<Rightarrow> bool" where
  "rootPinned L cfg w \<longleftrightarrow> (\<exists>r. rootIn L cfg (fs w) = Some r \<and> pinAccepts L cfg r)"

lemma rootPinned_keepsNode: "guar (keepsNode cfg) m \<Longrightarrow> guar (keepsP (rootPinned L cfg)) m"
proof (erule guar_mono)
  fix w w' assume "keepsNode cfg w w'"
  then have "steady L cfg w w'" by (rule steady_keepsNode)
  then show "keepsP (rootPinned L cfg) w w'" by (auto simp: keepsP_def rootPinned_def steady_def)
qed

lemma quiet_rootPinned [simp]: "quiet (keepsP (rootPinned L cfg))"
  unfolding quiet_def by (simp add: keepsP_def rootPinned_def)

lemma sendBlind_rootPinned [simp]: "sendBlind (keepsP (rootPinned L cfg))"
  unfolding sendBlind_def by (simp add: keepsP_def rootPinned_def)

lemma writePinned:
  assumes "parseRootCA L data = Inr root" "pinAccepts L cfg root"
  shows "guar (keepsP (rootPinned L cfg)) (atomicWriteFile (caCertPath cfg) data o644)"
proof (rule guarI)
  fix w
  obtain r w' where run: "atomicWriteFile (caCertPath cfg) data o644 w = (r, w')"
    by (cases "atomicWriteFile (caCertPath cfg) data o644 w")
  show "keepsP (rootPinned L cfg) w (snd (atomicWriteFile (caCertPath cfg) data o644 w))"
  proof (cases r)
    case (Inl e)
    with run have "rootIn L cfg (fs w') = rootIn L cfg (fs w)" by (intro rootIn_same) (auto intro: atomicWriteFile_Inl)
    with run show ?thesis by (simp add: keepsP_def rootPinned_def)
  next
    case (Inr u)
    with run have "fs w' (caCertPath cfg) = Some (File data o644)" by (intro atomicWriteFile_Inr) auto
    with assms run show ?thesis by (simp add: keepsP_def rootPinned_def rootIn_def fileBytes_def)
  qed
qed

lemma fetchRoot_pinned: "guar (keepsP (rootPinned L cfg)) (fetchAndInstallRootCA L cfg)"
proof -
  have parsed: "guar (keepsP (rootPinned L cfg)) (bnd (lift (parseRootCA L data)) k)"
    if "\<And>root. parseRootCA L data = Inr root \<Longrightarrow> guar (keepsP (rootPinned L cfg)) (k root)" for data and k :: "certificate \<Rightarrow> unit io"
    by (rule guar_bnd_result) (auto intro!: guar_intros that)
  have "guar (keepsP (rootPinned L cfg)) (masterDo L cfg req)" for req
    by (rule rootPinned_keepsNode) (rule guar_masterDo, simp)
  then show ?thesis unfolding fetchAndInstallRootCA_def by (auto intro!: guar_intros parsed writePinned)
qed

lemma rootPinned_moved: "moved cfg c \<Longrightarrow> rootPinned L c = rootPinned L cfg"
  by (simp add: fun_eq_iff rootPinned_def rootIn_def pinAccepts_def moved_paths)

lemma keepsNode_moved: "moved cfg c \<Longrightarrow> keepsNode c = keepsNode cfg"
  by (simp add: fun_eq_iff keepsNode_def moved_paths)

lemma guar_keepsNode_accept:
  "guar (keepsP (rootPinned L cfg)) (acceptCache L cfg d)" "guar (keepsP (rootPinned L cfg)) (acceptCRL L cfg d)"
  using acceptCache_root [of L cfg d] acceptCRL_root [of L cfg d]
  by (auto simp: guar_def keepsP_def rootPinned_def, metis prod.collapse, metis prod.collapse)

lemma clientRun_pinned:
  assumes "clientRun L cs w acc cs' w'" "clientInv cfg cs" "rootPinned L cfg w"
  shows "rootPinned L cfg w'"
proof -
  have "keepsP (rootPinned L cfg) w w'"
    using assms(1,2)
  proof (rule clientRun_keeps)
    fix c assume m: "moved cfg c"
    note eq = rootPinned_moved [OF m, symmetric]
    have base: "clientBase L c (keepsP (rootPinned L c))"
      unfolding clientBase_def
    proof (intro conjI allI impI)
      fix m :: "unit io" assume "guar (keepsP (rootPinned L c)) m"
      then show "guar (keepsP (rootPinned L c)) (withLock (identityKeyPath c @ ''.lock'') m)"
        unfolding withLock_def
        by (intro guar_bnd guar_deferred) (auto intro!: rootPinned_keepsNode guar_keepsNode_writes)
    qed (auto intro!: rootPinned_keepsNode guar_keepsNode_writes guar_osMkdirAll_keepsNode guar_masterDo)
    from guar_clientRegister [OF this fetchRoot_pinned] show "guar (keepsP (rootPinned L cfg)) (clientRegister L c)"
      by (simp add: eq)
    show "guar (keepsP (rootPinned L cfg)) (clientPull L c)"
      unfolding eq by (rule guar_pullOnce) (use base in \<open>simp_all add: clientBase_def guar_keepsNode_accept\<close>)
    show "guar (keepsP (rootPinned L cfg)) (applyMigration L c p)" if "savesApart c" for p
      by (rule rootPinned_keepsNode) (use guar_applyMigration_keepsNode [OF that] keepsNode_moved [OF m] in simp)
  next
    show "guar (keepsP (rootPinned L cfg)) (installTrust L c todo sys)" for c todo sys
      by (intro rootPinned_keepsNode keepsNode_untouched) (auto intro!: path_intros)
  qed simp
  with assms(3) show ?thesis by (simp add: keepsP_def)
qed

section \<open>The start of the daemon\<close>

lemma guar_ephemeralSelfSigned [guar_intros]: "quiet R \<Longrightarrow> guar R (ephemeralSelfSigned L)"
  unfolding ephemeralSelfSigned_def Let_def x509CreateCertificate_def by (auto intro!: guar_intros)

lemma RunClient_Inr:
  assumes "RunClient L mo listens sys cfg w = (Inr cs, w')"
  shows "\<not> mo \<and> listens \<and> MasterAddress cfg \<noteq> '''' \<and> ccfg cs = cfg \<and> receiverConfig cs = cfg \<and> changes cs = []"
  using assms by (auto simp: RunClient_def split: if_splits)

lemma RunClient_inv: "RunClient L mo listens sys cfg w = (Inr cs, w') \<Longrightarrow> savesApart cfg \<Longrightarrow> clientInv cfg cs"
  by (drule RunClient_Inr) (simp add: clientInv_def moved_refl)

lemma guar_RunClient:
  assumes "clientBase L cfg R" "guar R (clientRegister L cfg)" "guar R (clientPull L cfg)" "guar R (installTrust L cfg (True, True) sys)"
  shows "guar R (RunClient L mo listens sys cfg)"
proof -
  have "quiet R" "\<And>d m. guar R (osMkdirAll d m)" using assms(1) by (simp_all add: clientBase_def)
  with assms(2-4) show ?thesis unfolding RunClient_def by (auto intro!: guar_intros)
qed

lemma RunClient_steady: "rawOk L \<Longrightarrow> guar (faultSteady L cfg) (RunClient L mo listens sys cfg)"
  by (intro guar_RunClient clientBase_faultSteady faultSteady_programs faultSteady_trust moved_refl)

section \<open>The identity on disk\<close>

text \<open>A pair of files that is an enrolment identity: key and certificate belong together, the certificate names a client
  address and chains to the local root, which the pin accepts.\<close>

definition goodIdentity :: "lib \<Rightarrow> Config \<Rightarrow> filesys \<Rightarrow> bytes \<Rightarrow> bytes \<Rightarrow> bool" where
  "goodIdentity L cfg F certPEM keyPEM \<longleftrightarrow> (\<exists>der rest cert root ip now. x509KeyPair L certPEM keyPEM = Some (der # rest)
     \<and> parseCertificate L der = Some cert \<and> \<not> IsCA cert \<and> CommonName (Subject cert) = identityPrefix @ ip
     \<and> ParseIP ip \<noteq> None \<and> rootIn L cfg F = Some root \<and> pinAccepts L cfg root
     \<and> certVerify L cert [root] [] '''' ClientAuth now)"

lemma verifyClientIdentity_Inr:
  assumes "verifyClientIdentity L cfg cert w = (Inr u, w')"
  obtains root ip now where "\<not> IsCA cert" "CommonName (Subject cert) = identityPrefix @ ip" "ParseIP ip \<noteq> None"
    "rootIn L cfg (fs w) = Some root" "pinAccepts L cfg root" "certVerify L cert [root] [] '''' ClientAuth now"
proof -
  from assms obtain data w1 root now where c: "\<not> IsCA cert" "startsWith identityPrefix (CommonName (Subject cert))"
    "ParseIP (TrimPrefix (CommonName (Subject cert)) identityPrefix) \<noteq> None" and
    r: "osReadFile (caCertPath cfg) w = (Inr data, w1)" "parseRootCA L data = Inr root" "pinAccepts L cfg root"
    "certVerify L cert [root] [] '''' ClientAuth now"
    by (auto simp: verifyClientIdentity_def Let_def split: if_splits)
  from c(2) obtain ip where "CommonName (Subject cert) = identityPrefix @ ip" by (auto simp: startsWith_iff)
  moreover from this c(3) have "ParseIP ip \<noteq> None" by (simp add: TrimPrefix_def startsWith_iff)
  moreover have "rootIn L cfg (fs w) = Some root" using r by (auto simp: rootIn_def dest!: osReadFile_Inr)
  ultimately show thesis using c(1) r(3,4) that by blast
qed

lemma leafOf_Inr: "leafOf chain w = (Inr der, w') \<longleftrightarrow> (\<exists>rest. chain = der # rest) \<and> w' = w"
  by (auto simp: leafOf_def split: list.splits)

lemma identityCurrent_Inr:
  assumes "identityCurrent L cfg w = (Inr True, w')"
  shows "\<exists>c k. fileBytes (fs w) (identityCertPath cfg) = Some c \<and> fileBytes (fs w) (identityKeyPath cfg) = Some k
    \<and> goodIdentity L cfg (fs w) c k"
proof -
  from assms obtain c k w1 w2 der rest cert now w3 u v where
    f: "osReadFile (identityCertPath cfg) w = (Inr c, w1)" "osReadFile (identityKeyPath cfg) w1 = (Inr k, w2)" and
    p: "x509KeyPair L c k = Some (der # rest)" "parseCertificate L der = Some cert" and
    t: "(timeNow :: time io) w2 = (Inr now, w3)" and
    v: "verifyClientIdentity L cfg cert w3 = (Inr u, v)"
    by (auto simp: identityCurrent_def LoadX509KeyPair_def leafOf_Inr split: sum.splits option.splits if_splits)
  have fs: "fs w1 = fs w" "fs w2 = fs w" "fileBytes (fs w) (identityCertPath cfg) = Some c"
    "fileBytes (fs w) (identityKeyPath cfg) = Some k" using f by (auto dest!: osReadFile_Inr)
  have "fs w3 = fs w2" using t guar_timeNow [of "same fs"] by (auto dest: guar_sameD)
  with v fs p show ?thesis by (elim verifyClientIdentity_Inr) (auto simp: goodIdentity_def)
qed

lemma enrol_Inr:
  assumes "enrol L cfg w = (Inr (kp, certPEM), w')"
  shows "goodIdentity L cfg (fs w) certPEM kp \<and> fs w' = fs w"
proof -
  from assms obtain der rest cert u v where p: "x509KeyPair L certPEM kp = Some (der # rest)" "parseCertificate L der = Some cert"
    and v: "verifyClientIdentity L cfg cert v = (Inr u, w')"
    by (auto simp: enrol_def Let_def leafOf_Inr split: if_splits)
  have b: "guar (same fs) (enrol L cfg)"
    unfolding enrol_def Let_def by (auto intro!: guar_intros guar_masterDo)
  have "fs w' = fs w" using b assms by (rule guar_sameD)
  moreover have "fs w' = fs v" using guar_verifyClientIdentity [of "same fs"] v by (auto dest: guar_sameD)
  ultimately show ?thesis using v p by (elim verifyClientIdentity_Inr) (auto simp: goodIdentity_def)
qed

lemma goodIdentity_root: "rootIn L cfg F' = rootIn L cfg F \<Longrightarrow> goodIdentity L cfg F' c k = goodIdentity L cfg F c k"
  by (simp add: goodIdentity_def)

lemma ensureClientIdentity_Inr:
  assumes "ensureClientIdentity L cfg w = (Inr u, w')"
  shows "\<exists>c k. fileBytes (fs w') (identityCertPath cfg) = Some c \<and> fileBytes (fs w') (identityKeyPath cfg) = Some k
    \<and> goodIdentity L cfg (fs w') c k"
proof -
  have neq: "identityKeyPath cfg \<noteq> identityCertPath cfg" by (rule path_neq) simp
  from assms obtain w0 where "withLock (identityKeyPath cfg @ ''.lock'') (bnd (identityCurrent L cfg) (\<lambda>current.
     if current then ret () else bnd (enrol L cfg) (\<lambda>(kp, certPEM).
     bnd (atomicWriteFile (identityKeyPath cfg) kp o600) (\<lambda>_. atomicWriteFile (identityCertPath cfg) certPEM o644)))) w0 = (Inr u, w')"
    by (auto simp: ensureClientIdentity_def)
  then show ?thesis
  proof (cases rule: withLock_cases)
    case (ran w1 w2)
    from ran(2) obtain current w3 where cur: "identityCurrent L cfg w1 = (Inr current, w3)" and
      k: "(if current then ret () else bnd (enrol L cfg) (\<lambda>(kp, certPEM).
        bnd (atomicWriteFile (identityKeyPath cfg) kp o600) (\<lambda>_. atomicWriteFile (identityCertPath cfg) certPEM o644))) w3 = (Inr u, w2)"
      by blast
    have f3: "fs w3 = fs w1" using guar_identityCurrent [of "same fs"] cur by (auto dest: guar_sameD)
    show ?thesis
    proof (cases current)
      case True
      with k have "fs w' = fs w1" using ran(3) f3 by simp
      with identityCurrent_Inr cur True show ?thesis by metis
    next
      case False
      with k obtain kp certPEM w4 w5 where e: "enrol L cfg w3 = (Inr (kp, certPEM), w4)" and
        wr: "atomicWriteFile (identityKeyPath cfg) kp o600 w4 = (Inr (), w5)"
          "atomicWriteFile (identityCertPath cfg) certPEM o644 w5 = (Inr u, w2)" by auto
      have "fs w2 (caCertPath cfg) = fs w4 (caCertPath cfg)"
        using atomicWriteFile_other [OF _ _ wr(1)] atomicWriteFile_other [OF _ _ wr(2)] by simp
      then have "goodIdentity L cfg (fs w2) certPEM kp"
        using enrol_Inr [OF e] goodIdentity_root [OF rootIn_same] by metis
      moreover have "fs w2 (identityKeyPath cfg) = Some (File kp o600)"
        using atomicWriteFile_Inr [OF _ wr(1)] atomicWriteFile_other [OF _ neq wr(2)] by simp
      moreover have "fs w2 (identityCertPath cfg) = Some (File certPEM o644)"
        using atomicWriteFile_Inr [OF _ wr(2)] by simp
      ultimately show ?thesis using ran(3) by (simp add: fileBytes_def)
    qed
  qed auto
qed

end
