(* ===== verification/ClientProperties.thy ===== *)
theory ClientProperties
  imports Samples Client
begin

text \<open>
  The properties of the client: whom the daemon talks to and whom it follows, what its copies of the network's state are
  worth, and what it writes. Each property with hypotheses is followed by a concrete case.
\<close>

section \<open>A client\<close>

text \<open>The sample client has the root certificate, and a signed packet that names a new master waits in its channel.\<close>

definition clientConfig :: Config where
  "clientConfig = sampleConfig\<lparr>MasterAddress := ''10.0.0.1''\<rparr>"

definition samplePacket :: MigrationPacket where
  "samplePacket = \<lparr>NewMasterIP = ''10.0.0.2'', IssuedAt = 1000000 * second,
     mpSignature = ''k'' @ migrationDigest SL \<lparr>NewMasterIP = ''10.0.0.2'', IssuedAt = 1000000 * second, mpSignature = []\<rparr>\<rparr>"

definition sampleClient :: clientState where
  "sampleClient = \<lparr>ccfg = clientConfig, receiverConfig = clientConfig, todoStores = (True, True), changes = [samplePacket]\<rparr>"

lemma clientConfig_ops:
  "caCertPath clientConfig = ''/d/root-ca.crt''" "cachePath clientConfig = ''/d/network-cache.enc''" "crlPath clientConfig = ''/d/root-ca.crl''"
  "cfgPath clientConfig = ''/d/config.yaml''" "LastMigration clientConfig = zeroTime" "MasterFingerprint clientConfig = ''''"
  "MasterAddress clientConfig = ''10.0.0.1''" "DataDir clientConfig = ''/d''"
  by (simp_all add: clientConfig_def sampleConfig_def DefaultConfig_def node_path_defs filepathJoin_def filepathClean_def)

lemma sampleClient_inv: "clientInv clientConfig sampleClient"
  by (simp add: clientInv_def sampleClient_def moved_refl savesApart_def clientConfig_ops changesCap_def) (simp add: baseName_def)

lemma SW_root: "rootIn SL clientConfig (fs SW) = Some sampleRoot"
  by (simp add: rootIn_def clientConfig_ops fileBytes_def SW_def sampleWorld_def sampleFs_def parseRootCA_def SL_ops sampleCA_ops sampleCerts_def)

lemma SL_raw [simp]: "rawOk SL"
  by (auto simp: rawOk_def SL_ops)

lemma SW_quiet [simp]: "noFaults SW"
  by (simp add: noFaults_def SW_def sampleWorld_def)

lemma samplePacket_ops:
  "NewMasterIP samplePacket = ''10.0.0.2''" "IssuedAt samplePacket = 1000000 * second"
  "mpSignature samplePacket = ''k'' @ migrationDigest SL samplePacket"
  by (simp_all add: samplePacket_def migrationDigest_def)

lemma sample_moves: "\<exists>c w1. applyMigration SL clientConfig samplePacket SW = (Inr c, w1)"
proof -
  have ip: "ParseIP ''10.0.0.2'' = Some (as16 [10, 0, 0, 2])" "\<not> IsUnspecified (as16 [10, 0, 0, 2])" "\<not> IsMulticast (as16 [10, 0, 0, 2])"
    by code_simp+
  have "isInr (applyMigration SL clientConfig samplePacket SW)"
    by (simp add: run_ops applyMigration_def verifyMigrationSig_def samplePacket_ops clientConfig_ops ip Save_def dirChain_def
        cong: run_blocks del: run_off split del: if_split)
  then show ?thesis by (auto elim: isInrE)
qed

lemma sample_change: "\<exists>cs' w'. clientStep SL sampleClient SW Change [samplePacket] cs' w'"
proof -
  from sample_moves obtain c w1 where mv: "applyMigration SL clientConfig samplePacket SW = (Inr c, w1)" by blast
  obtain u w2 where r: "clientRegister SL c w1 = (Inr u, w2)" using alwaysInr_closures(1) by (rule alwaysInrE)
  obtain u' w3 where p: "clientPull SL c w2 = (Inr u', w3)" using alwaysInr_closures(2) by (rule alwaysInrE)
  have "takeChange SL (sampleClient\<lparr>changes := []\<rparr>) samplePacket SW
    = (Inr (migrationReply (Inr c :: error + Config), sampleClient\<lparr>changes := [], ccfg := c\<rparr>), w3)"
    using mv r p by (simp add: takeChange_def sampleClient_def run_attempt)
  from clientStep.change [OF _ this] show ?thesis by (auto simp: sampleClient_def migrationReply_def ok_def)
qed

lemma sample_run: "\<exists>cs' w'. clientRun SL sampleClient SW [samplePacket] cs' w'"
  using sample_change clientRun.further [OF clientRun.here] by fastforce


text \<open>A network in which the master answers: every request gets the same body.\<close>

definition onlineWorld :: "filesys \<Rightarrow> bytes \<Rightarrow> world" where
  "onlineWorld F body = SW\<lparr>fs := F, net := (\<lambda>_. NetReply [''M''] 200 body)\<rparr>"

lemma online_ops:
  "samplePemDecode ''11111111111|CERTIFICATEI'' = Some (''CERTIFICATE'', ''I'')"
  "pemDecode SL ''11111111111|CERTIFICATEK'' = Some (''CERTIFICATE'', ''K'')"
  "CommonName (Subject masterLeaf) = ''natssl-master-api''" "\<not> IsCA masterLeaf" "ServerAuth \<in> set (ExtKeyUsage masterLeaf)"
  "identityKeyPath clientConfig = ''/d/client-identity.key''" "identityCertPath clientConfig = ''/d/client-identity.crt''"
  "issuedDir clientConfig = ''/d/issued''" "normalizeFingerprint SL '''' = ''''"
  "\<not> IsCA sampleId" "ClientAuth \<in> set (ExtKeyUsage sampleId)" "\<not> IsCA sampleLocal" "ServerAuth \<in> set (ExtKeyUsage sampleLocal)"
  "DNSNames sampleLocal = [''localhost'']" "IPAddresses sampleLocal = []" "EmailAddresses sampleLocal = []" "URIs sampleLocal = []"
  "PublicKey sampleLocal = ECDSAKey [char_of (1 :: nat)]"
proof -
  have d: "samplePemDecode ''11111111111|CERTIFICATEI'' = Some (''CERTIFICATE'', ''I'')"
    "samplePemDecode ''11111111111|CERTIFICATEK'' = Some (''CERTIFICATE'', ''K'')" by code_simp+
  show "samplePemDecode ''11111111111|CERTIFICATEI'' = Some (''CERTIFICATE'', ''I'')" by (rule d)
  show "pemDecode SL ''11111111111|CERTIFICATEK'' = Some (''CERTIFICATE'', ''K'')" using d by (simp add: SL_def sampleLib_def)
  have "removeChar c '''' = ''''" for c by (simp add: removeChar_def)
  then show "normalizeFingerprint SL '''' = ''''" by (simp add: normalizeFingerprint_def ToLower_ascii)
qed (simp_all add: masterLeaf_def sampleLocal_def plainName_def blankCert_def sampleId_def clientConfig_def sampleConfig_def node_path_defs
  filepathJoin_def filepathClean_def)

definition issueFs :: filesys where
  "issueFs = sampleFs(''/d/client-identity.crt'' \<mapsto> File ''11111111111|CERTIFICATEI'' o644, ''/d/client-identity.key'' \<mapsto> File ''i'' o600)"

lemma localhost_ops:
  "isLoopbackTarget L ''localhost''" "loopbackSANs L ''localhost'' = ([''localhost''], [ip4loopback, ip6loopback])"
  "sanitizeName L ''localhost'' = ''localhost''"
proof -
  have "TrimSpace (ToLower u ''localhost'') = ''localhost''" for u by code_simp
  moreover have "ParseIP ''localhost'' = None" by code_simp
  ultimately show "isLoopbackTarget L ''localhost''" "loopbackSANs L ''localhost'' = ([''localhost''], [ip4loopback, ip6loopback])"
    "sanitizeName L ''localhost'' = ''localhost''"
    by (simp_all add: isLoopbackTarget_def loopbackSANs_def sanitizeName_def Let_def badNameChar_def)
qed

lemmas client_ops = onlineWorld_def ensureClientIdentity_def enrol_def ecdsaGenerateKey_def x509CreateRequest_def
  buildRegisterRequest_def identityCurrent_def LoadX509KeyPair_def masterDo_def verifyMasterPin_def netReceive_def sendTo_def
  leafOf_def verifyClientIdentity_def pinAccepts_def certField_def pinnedRoot_def parseRootCA_def newRequest_def clientConfig_ops online_ops
  dirChain_def TrimPrefix_def clientRegister_def RegisterWithMaster_def logged_def RunClientIssue_def issueFs_def
  obtainCertificate_def requestCSRSign_def mtlsClient_def validateIssuedCertificate_def encryptKey_def storeCertificate_def
  clientFile_def localhost_ops saltLen_def scryptKeyLen_def

section \<open>Whom the client follows\<close>

text \<open>C3: A client follows its root only. Along every run of the daemon the packets it accepts carry strictly increasing times,
  later than the last migration it knew, so none is accepted twice; the master it talks to at the end is the one the
  last accepted packet names, and the one it had if none was accepted. In an environment without read failures each of
  them is signed with the key of the root the client had at the beginning.\<close>

theorem client_follows_its_root:
  assumes "clientRun L cs w acc cs' w'" "clientInv cfg cs" "rawOk L" "noFaults w" "rootIn L cfg (fs w) = Some root"
  shows "sorted_wrt (<) (LastMigration (ccfg cs) # map IssuedAt acc)
    \<and> LastMigration (ccfg cs') = last (LastMigration (ccfg cs) # map IssuedAt acc)
    \<and> (if acc = [] then ccfg cs' = ccfg cs
       else \<exists>ip. ParseIP (NewMasterIP (last acc)) = Some ip \<and> MasterAddress (ccfg cs') = ipString ip)
    \<and> (\<forall>p \<in> set acc. \<exists>pub. PublicKey root = ECDSAKey pub \<and> verifyASN1 L pub (migrationDigest L p) (mpSignature p))"
  using clientRun_packets [OF assms(1)] clientRun_signed [OF assms] by blast

theorem client_follows_its_root_witness:
  "\<exists>cs' w'. clientRun SL sampleClient SW [samplePacket] cs' w' \<and> MasterAddress (ccfg cs') = ''10.0.0.2''
     \<and> LastMigration (ccfg cs') = IssuedAt samplePacket"
proof -
  from sample_run obtain cs' w' where run: "clientRun SL sampleClient SW [samplePacket] cs' w'" by blast
  have ip: "ParseIP ''10.0.0.2'' = Some (as16 [10, 0, 0, 2])" "ipString (as16 [10, 0, 0, 2]) = ''10.0.0.2''" by code_simp+
  from client_follows_its_root [OF run sampleClient_inv _ _ SW_root] run ip show ?thesis by (auto simp: samplePacket_ops)
qed



text \<open>C24: The pin holds. If the client's root certificate is one the configured fingerprint accepts, it is so after every run of the
  daemon, whatever fails and whatever is sent.\<close>

theorem root_stays_pinned:
  assumes "clientRun L cs w acc cs' w'" "clientInv cfg cs" "rootIn L cfg (fs w) = Some root" "pinAccepts L cfg root"
  shows "\<exists>root'. rootIn L cfg (fs w') = Some root' \<and> pinAccepts L cfg root'"
  using clientRun_pinned [OF assms(1,2)] assms(3,4) by (auto simp: rootPinned_def)

lemma sample_pin: "pinAccepts SL clientConfig sampleRoot"
proof -
  have "removeChar c '''' = ''''" for c by (simp add: removeChar_def)
  then show ?thesis by (simp add: pinAccepts_def normalizeFingerprint_def clientConfig_ops ToLower_ascii)
qed

theorem root_stays_pinned_witness:
  "\<exists>cs' w' root'. clientRun SL sampleClient SW [samplePacket] cs' w' \<and> rootIn SL clientConfig (fs w') = Some root'
     \<and> pinAccepts SL clientConfig root'"
proof -
  from sample_run obtain cs' w' where run: "clientRun SL sampleClient SW [samplePacket] cs' w'" by blast
  with root_stays_pinned [OF run sampleClient_inv SW_root sample_pin] show ?thesis by auto
qed



text \<open>A system of the RHEL family on which the tools work, with a Firefox profile.\<close>

definition sampleSys :: trustSys where
  "sampleSys = \<lparr>Geteuid = 0, LookCertutil = True, runCmd = (\<lambda>_. True),
     ReadDir = [''/root/.mozilla/firefox'' \<mapsto> [(''profiles.ini'', False), (''x.default'', True)]]\<rparr>"

lemma sample_ping: "\<exists>cs' w'. clientRun SL sampleClient (onlineWorld sampleFs ''C'') [] cs' w' \<and> sent w' \<noteq> []"
proof -
  let ?w = "onlineWorld sampleFs ''C''"
  obtain u w1 where r: "clientRegister SL clientConfig ?w = (Inr u, w1)" using alwaysInr_closures(1) by (rule alwaysInrE)
  obtain todo w2 where t: "installTrust SL clientConfig (True, True) sampleSys w1 = (Inr todo, w2)"
    using alwaysInr_closures(3) by (rule alwaysInrE)
  have "sent (snd (clientRegister SL clientConfig ?w)) \<noteq> []"
    by (simp add: run_ops client_ops cong: run_blocks del: run_off split del: if_split)
  moreover have "guar (same sent) (installTrust SL clientConfig (True, True) sampleSys)"
    by (rule guar_installTrust_blind) (simp add: fileBlind_def quiet_def same_def preord_def reflp_def transp_def)
  ultimately have "sent w2 \<noteq> []" using guar_sameD [of sent _ w1] t r by fastforce
  moreover have "clientStep SL sampleClient ?w (Ping sampleSys) [] (sampleClient\<lparr>todoStores := todo\<rparr>) w2"
    by (rule clientStep.ping) (use r t in \<open>simp add: sampleClient_def\<close>)
  ultimately show ?thesis using clientRun.further [OF clientRun.here] by fastforce
qed


section \<open>The daemon goes on\<close>



text \<open>C26: Offers are taken or refused whole. Whatever is offered as a cache or as a revocation list: if it is refused, the file is
  as it was; if it is accepted, the local root verifies it, its number is not below the number of the copy, and the
  copy then has its number.\<close>

theorem offers_are_taken_or_refused:
  "(case acceptCache L cfg d w of
      (Inl _, w') \<Rightarrow> fs w' (cachePath cfg) = fs w (cachePath cfg)
    | (Inr _, w') \<Rightarrow> \<exists>n. cacheVersion L cfg (fs w) d = Some n \<and> cacheCopy.copyVersion cfg L (fs w') = Some n
        \<and> (case cacheCopy.copyVersion cfg L (fs w) of None \<Rightarrow> True | Some m \<Rightarrow> m \<le> n))
   \<and> (case acceptCRL L cfg d w of
      (Inl _, w') \<Rightarrow> fs w' (crlPath cfg) = fs w (crlPath cfg)
    | (Inr _, w') \<Rightarrow> \<exists>n. crlVersion L cfg (fs w) d = Some n \<and> crlCopy.copyVersion cfg L (fs w') = Some n
        \<and> (case crlCopy.copyVersion cfg L (fs w) of None \<Rightarrow> True | Some m \<Rightarrow> m \<le> n))"
proof -
  obtain r w1 where a: "acceptCache L cfg d w = (r, w1)" by (cases "acceptCache L cfg d w")
  obtain q w2 where b: "acceptCRL L cfg d w = (q, w2)" by (cases "acceptCRL L cfg d w")
  have 1: "\<exists>n. cacheVersion L cfg (fs w) d = Some n \<and> cacheCopy.copyVersion cfg L (fs w1) = Some n
        \<and> (case cacheCopy.copyVersion cfg L (fs w) of None \<Rightarrow> True | Some m \<Rightarrow> m \<le> n)" if "r = Inr u" for u
    by (rule cacheCopy.accepted_version [OF a [unfolded that]]) (auto split: option.splits)
  have 2: "\<exists>n. crlVersion L cfg (fs w) d = Some n \<and> crlCopy.copyVersion cfg L (fs w2) = Some n
        \<and> (case crlCopy.copyVersion cfg L (fs w) of None \<Rightarrow> True | Some m \<Rightarrow> m \<le> n)" if "q = Inr u" for u
    by (rule crlCopy.accepted_version [OF b [unfolded that]]) (auto split: option.splits)
  show ?thesis unfolding a b using 1 2 acceptCache_Inl [of L cfg d w _ w1] acceptCRL_Inl [of L cfg d w _ w2] a b
    by (auto split: sum.splits)
qed


section \<open>What the client writes\<close>

text \<open>C27: After a successful enrolment the client has an identity. The files of the identity are a key pair whose certificate is no CA,
  names an address under the identity prefix and is verified for client authentication by the local root, which the
  pin accepts; whether the identity was there before or came from the master.\<close>

theorem enrolment_gives_an_identity:
  assumes "ensureClientIdentity L cfg w = (Inr u, w')"
  shows "\<exists>c k der rest cert root ip now. fileBytes (fs w') (identityCertPath cfg) = Some c
    \<and> fileBytes (fs w') (identityKeyPath cfg) = Some k \<and> x509KeyPair L c k = Some (der # rest)
    \<and> parseCertificate L der = Some cert \<and> \<not> IsCA cert \<and> CommonName (Subject cert) = identityPrefix @ ip \<and> ParseIP ip \<noteq> None
    \<and> rootIn L cfg (fs w') = Some root \<and> pinAccepts L cfg root \<and> certVerify L cert [root] [] '''' ClientAuth now"
  using ensureClientIdentity_Inr [OF assms] unfolding goodIdentity_def by metis

theorem enrolment_gives_an_identity_witness:
  "\<exists>u w' c. ensureClientIdentity SL clientConfig (onlineWorld sampleFs ''C'') = (Inr u, w')
     \<and> fileBytes (fs w') ''/d/client-identity.crt'' = Some c"
proof -
  have "isInr (ensureClientIdentity SL clientConfig (onlineWorld sampleFs ''C''))"
    by (simp add: run_ops client_ops cong: run_blocks del: run_off split del: if_split)
  then obtain u w' where run: "ensureClientIdentity SL clientConfig (onlineWorld sampleFs ''C'') = (Inr u, w')" by (rule isInrE)
  from enrolment_gives_an_identity [OF run] run show ?thesis by (auto simp: online_ops)
qed

text \<open>C28: A certificate a client gets is worth having. When the issue command of a client succeeds, the subject is a loopback
  target, the certificate file holds a certificate the local root verifies for it, no CA and with loopback names
  only, whatever the master sent; and the encrypted file opens with the typed password to the key of this certificate.\<close>

theorem client_issue_command:
  assumes "RunClientIssue L mo typed again cfg subject w = (Inr u, w')" "gcmOk L" "randomOk L" "pkcs8Ok L"
  shows "\<exists>password key pem ty b cert root now blob keyDER. isLoopbackTarget L subject \<and> typed = Inr password \<and> password \<noteq> ''''
    \<and> fs w' (clientFile L cfg subject ''.crt'') = Some (File pem o644)
    \<and> fs w' (clientFile L cfg subject ''.key.enc'') = Some (File blob o600)
    \<and> pemDecode L pem = Some (ty, b) \<and> parseCertificate L b = Some cert \<and> PublicKey cert = ECDSAKey (publicOf L key)
    \<and> rootIn L cfg (fs w) = Some root \<and> certVerify L cert [root] [] subject ServerAuth now \<and> \<not> IsCA cert
    \<and> EmailAddresses cert = [] \<and> URIs cert = [] \<and> set (DNSNames cert) \<subseteq> {''localhost''}
    \<and> list_all IsLoopback (IPAddresses cert)
    \<and> decryptKey L blob password = Inr keyDER \<and> parsePKCS8 L keyDER = Some (ECDSAPriv key)"
  using assms by (rule RunClientIssue_Inr) (unfold list_all_iff, blast)

theorem client_issue_command_witness:
  "\<exists>u w' pem blob keyDER. RunClientIssue SL False (Inr ''pw'') (Inr ''pw'') clientConfig ''localhost'' (onlineWorld issueFs ''L'') = (Inr u, w')
     \<and> fs w' (clientFile SL clientConfig ''localhost'' ''.crt'') = Some (File pem o644)
     \<and> fs w' (clientFile SL clientConfig ''localhost'' ''.key.enc'') = Some (File blob o600) \<and> decryptKey SL blob ''pw'' = Inr keyDER"
proof -
  have "isInr (RunClientIssue SL False (Inr ''pw'') (Inr ''pw'') clientConfig ''localhost'' (onlineWorld issueFs ''L''))"
    by (simp add: run_ops client_ops cong: run_blocks del: run_off split del: if_split)
  then obtain u w' where run: "RunClientIssue SL False (Inr ''pw'') (Inr ''pw'') clientConfig ''localhost'' (onlineWorld issueFs ''L'') = (Inr u, w')"
    by (rule isInrE)
  from client_issue_command [OF run] run show ?thesis by auto
qed

text \<open>C34: The password opens the key. What \<^verbatim>\<open>encryptKey\<close> writes is 44 bytes longer than the key, and the same password gives the
  key back; a file shorter than 44 bytes is refused whatever the password.\<close>

theorem password_opens_the_key:
  assumes "encryptKey L plain password w = (Inr blob, w')" "gcmOk L" "randomOk L" "length bad < 44"
  shows "decryptKey L blob password = Inr plain \<and> length blob = length plain + 44 \<and> (\<exists>e. decryptKey L bad password = Inl e)"
  using encryptKey_Inr [OF assms(1-3)] decryptKey_short [OF assms(4)] by simp

theorem password_opens_the_key_witness:
  "\<exists>blob w'. encryptKey SL ''key'' ''pw'' SW = (Inr blob, w') \<and> decryptKey SL blob ''pw'' = Inr ''key'' \<and> length blob = 47"
proof -
  have "isInr (encryptKey SL ''key'' ''pw'' SW)"
    by (simp add: run_ops client_ops cong: run_blocks del: run_off split del: if_split)
  then obtain blob w' where run: "encryptKey SL ''key'' ''pw'' SW = (Inr blob, w')" by (rule isInrE)
  from password_opens_the_key [OF run, of "''''"] run show ?thesis by simp
qed

text \<open>C36: A migration packet survives its journey: with an ASCII address it is read back from its JSON text as it was, the
  signature included, so that it verifies at the client if it did at the sender.\<close>

theorem packet_survives_json:
  assumes "base64Ok L" "timeTextOk L" "jsonOk L" "isASCII (NewMasterIP p)"
  shows "jsonUnmarshal L zeroPacket (packetOfJSON L) (jsonPrint L (packetJSON L p)) = Some p"
  by (rule packet_roundtrip [OF assms])

theorem packet_survives_json_witness:
  "jsonUnmarshal SL zeroPacket (packetOfJSON SL) (jsonPrint SL (packetJSON SL samplePacket)) = Some samplePacket"
  by (rule packet_survives_json) (simp_all add: samplePacket_ops)

section \<open>The trust stores\<close>


definition rhelFs :: filesys where
  "rhelFs = sampleFs(''/etc/pki/ca-trust/source/anchors'' \<mapsto> Dir o755, ''/root/.mozilla/firefox/x.default/cert9.db'' \<mapsto> File '''' o600)"


end
