(* ===== verification/NetCheck.thy ===== *)
theory NetCheck
  imports World
begin

text \<open>
  \<^verbatim>\<open>netcheck.go\<close>: what a node finds out about the network before it promotes itself. What the operating system answers
  is the record \<open>probes\<close>: whether a connection can be made, the resolver, the \<^verbatim>\<open>ping\<close> program, the bytes of the ARP table
  and the network interfaces. The functions read those answers the way the code does, with \<^verbatim>\<open>bufio.Scanner\<close> and
  \<^verbatim>\<open>strings.Fields\<close> for the ARP table.

  The lemmas: on a table of rows, \<open>arpKnown\<close> finds exactly the resolved entries of the address, and \<open>localIPv4s\<close> gives
  exactly the addresses of the interfaces that are up, each in the spelling that parses back to it.
\<close>

section \<open>Lines and fields\<close>

text \<open>One call of \<^verbatim>\<open>Scan\<close> on the bytes that are left: a line without its end, or a line that does not fit the
  scanner's buffer of 64 KiB, or nothing.\<close>

datatype scanned = NoToken | TooLong | Token string string

definition maxToken :: nat where
  "maxToken = 2 ^ 16"

definition dropCR :: "string \<Rightarrow> string" where
  "dropCR s = (if s \<noteq> [] \<and> last s = CHR 0x0D then butlast s else s)"

definition scanLine :: "string \<Rightarrow> scanned" where
  "scanLine s =
     (if s = [] then NoToken
      else let line = takeWhile (\<lambda>c. c \<noteq> CHR 0x0A) s in
      if length line \<ge> maxToken then TooLong
      else Token (dropCR line) (drop (Suc (length line)) s))"

lemma scanLine_shorter: "scanLine s = Token t rest \<Longrightarrow> length rest < length s"
  by (auto simp: scanLine_def Let_def split: if_splits)

function scanAll :: "string \<Rightarrow> string list" where
  "scanAll s = (case scanLine s of Token t rest \<Rightarrow> t # scanAll rest | _ \<Rightarrow> [])"
  by pat_completeness auto
termination
  by (relation "measure length") (auto simp: scanLine_shorter)

declare scanAll.simps [simp del]

text \<open>\<^verbatim>\<open>strings.Fields\<close>: the stretches between white space.\<close>

definition flush :: "string \<Rightarrow> string list" where
  "flush cur = (if cur = [] then [] else [cur])"

function fieldsFrom :: "string \<Rightarrow> string \<Rightarrow> string list" where
  "fieldsFrom cur s =
     (case chopOne space_encodings s of
        Some t \<Rightarrow> flush cur @ fieldsFrom [] t
      | None \<Rightarrow> (case s of [] \<Rightarrow> flush cur | c # t \<Rightarrow> fieldsFrom (cur @ [c]) t))"
  by pat_completeness auto
termination
  by (relation "measure (\<lambda>(cur, s). length s)") (auto simp: chopOne_shorter)

declare fieldsFrom.simps [simp del]

definition Fields :: "string \<Rightarrow> string list" where
  "Fields s = fieldsFrom [] s"

section \<open>The probes\<close>

datatype cmdResult = CmdOk | CmdExit int | CmdError error

datatype ifAddr = IPNetAddr ip | IPAddrAddr ip | OtherAddr

record netInterface =
  Flags :: "64 word"
  Addrs :: "error + ifAddr list"

record probes =
  dialTCP :: "string \<Rightarrow> bool"
  LookupIP :: "string \<Rightarrow> error + ip list"
  LookPing :: "error + unit"
  runPing :: "string \<Rightarrow> cmdResult"
  arpTable :: "string option"
  Interfaces :: "error + netInterface list"

definition probeICMP :: "probes \<Rightarrow> string \<Rightarrow> error + bool" where
  "probeICMP P ip =
     (case LookPing P of
        Inl e \<Rightarrow> Inl (Wrap ''ping is required for promotion safety checks'' e)
      | Inr _ \<Rightarrow>
         (case runPing P ip of
            CmdOk \<Rightarrow> Inr True
          | CmdExit n \<Rightarrow> if n = 1 then Inr False else Inl (Msg ''ICMP probe could not complete reliably'')
          | CmdError e \<Rightarrow> Inl (Wrap ''ICMP probe could not complete reliably'' e)))"

definition icmpAlive :: "probes \<Rightarrow> string \<Rightarrow> bool" where
  "icmpAlive P ip = (case probeICMP P ip of Inr alive \<Rightarrow> alive | Inl _ \<Rightarrow> False)"

text \<open>One line of the table: a resolved entry of the address.\<close>

definition arpEntry :: "string \<Rightarrow> string \<Rightarrow> bool" where
  "arpEntry ip line =
     (let fields = Fields line in
      \<not> length fields < 4 \<and> fields ! 0 = ip \<and> fields ! 3 \<noteq> '''' \<and> fields ! 3 \<noteq> ''00:00:00:00:00:00'')"

text \<open>The header is skipped without a look at the result of \<^verbatim>\<open>Scan\<close>. When it does not fit the buffer, the next \<^verbatim>\<open>Scan\<close>
  gives what is in the buffer as the last token; a later line that does not fit ends the loop.\<close>

definition arpKnown :: "probes \<Rightarrow> string \<Rightarrow> bool" where
  "arpKnown P ip =
     (case arpTable P of
        None \<Rightarrow> False
      | Some s \<Rightarrow>
         (case scanLine s of
            NoToken \<Rightarrow> False
          | TooLong \<Rightarrow> arpEntry ip (dropCR (take maxToken s))
          | Token _ rest \<Rightarrow> list_ex (arpEntry ip) (scanAll rest)))"

definition FlagUp :: "64 word" where
  "FlagUp = 1"

definition FlagLoopback :: "64 word" where
  "FlagLoopback = 4"

fun addrIP :: "ifAddr \<Rightarrow> ip" where
  "addrIP (IPNetAddr ip) = ip"
| "addrIP (IPAddrAddr ip) = ip"
| "addrIP OtherAddr = []"

definition addrIPv4 :: "ifAddr \<Rightarrow> string list" where
  "addrIPv4 a =
     (let ip = addrIP a in
      if ip = [] \<or> IsLoopback ip then []
      else case To4 ip of Some v4 \<Rightarrow> [ipString v4] | None \<Rightarrow> [])"

definition ifaceIPv4s :: "netInterface \<Rightarrow> string list" where
  "ifaceIPv4s i =
     (if Flags i AND FlagUp = 0 \<or> Flags i AND FlagLoopback \<noteq> 0 then []
      else case Addrs i of Inl _ \<Rightarrow> [] | Inr addrs \<Rightarrow> concat (map addrIPv4 addrs))"

definition localIPv4s :: "probes \<Rightarrow> error + string list" where
  "localIPv4s P =
     (case Interfaces P of
        Inl e \<Rightarrow> Inl e
      | Inr ifaces \<Rightarrow> Inr (concat (map ifaceIPv4s ifaces)))"

section \<open>Reading a table\<close>

lemma chopOne_Nil [simp]: "chopOne encs [] = None"
  using chopOne_shorter [of encs "[]"] by (cases "chopOne encs []") auto

lemma chopOne_blank [simp]: "chopOne space_encodings (CHR '' '' # s) = Some s"
  by (simp add: chopOne_def space_encodings_def)

lemma fieldsFrom_Nil [simp]: "fieldsFrom cur [] = flush cur"
  by (subst fieldsFrom.simps) simp

lemma fieldsFrom_blank [simp]: "fieldsFrom cur (CHR '' '' # s) = flush cur @ fieldsFrom [] s"
  by (subst fieldsFrom.simps) simp

lemma fieldsFrom_blanks: "fieldsFrom cur (replicate (Suc n) CHR '' '' @ s) = flush cur @ fieldsFrom [] s"
  by (induction n arbitrary: cur) (simp_all add: flush_def)

lemma fieldsFrom_word: "list_all plainChar w \<Longrightarrow> fieldsFrom cur (w @ s) = fieldsFrom (cur @ w) s"
proof (induction w arbitrary: cur)
  case (Cons c w)
  then have "fieldsFrom cur ((c # w) @ s) = fieldsFrom (cur @ [c]) (w @ s)"
    by (subst fieldsFrom.simps) (simp add: chopOne_plain)
  with Cons show ?case by simp
qed simp

text \<open>A row of the table: words, each followed by blanks.\<close>

type_synonym arpRow = "(string \<times> nat) list"

definition rowText :: "arpRow \<Rightarrow> string" where
  "rowText row = concat (map (\<lambda>(word, n). word @ replicate (Suc n) CHR '' '') row)"

definition plainRow :: "arpRow \<Rightarrow> bool" where
  "plainRow row \<longleftrightarrow> list_all (\<lambda>(word, n). word \<noteq> [] \<and> list_all plainChar word) row \<and> length (rowText row) < maxToken"

lemma Fields_rowText:
  assumes "list_all (\<lambda>(word, n). word \<noteq> [] \<and> list_all plainChar word) row"
  shows "Fields (rowText row) = map fst row"
  using assms unfolding Fields_def
proof (induction row)
  case (Cons x row)
  obtain word n where x: "x = (word, n)" by (cases x)
  have "fieldsFrom [] (word @ replicate (Suc n) CHR '' '' @ rowText row) = word # fieldsFrom [] (rowText row)"
    using Cons.prems x fieldsFrom_blanks [of word n "rowText row"]
    by (simp add: fieldsFrom_word flush_def del: replicate_Suc)
  with Cons x show ?case by (simp add: rowText_def)
qed (simp add: rowText_def flush_def)

text \<open>Lines the scanner gives back as they are.\<close>

definition fitsScanner :: "string \<Rightarrow> bool" where
  "fitsScanner l \<longleftrightarrow> length l < maxToken \<and> CHR 0x0A \<notin> set l \<and> (l = [] \<or> last l \<noteq> CHR 0x0D)"

lemma scanLine_line:
  assumes "fitsScanner l"
  shows "scanLine (l @ CHR 0x0A # s) = Token l s"
proof -
  have "takeWhile (\<lambda>c. c \<noteq> CHR 0x0A) (l @ CHR 0x0A # s) = l"
    using assms by (subst takeWhile_append2) (auto simp: fitsScanner_def)
  with assms show ?thesis by (auto simp: scanLine_def Let_def fitsScanner_def dropCR_def)
qed

lemma scanAll_lines: "list_all fitsScanner ls \<Longrightarrow> scanAll (concat (map (\<lambda>l. l @ [CHR 0x0A]) ls)) = ls"
proof (induction ls)
  case Nil
  show ?case by (simp add: scanAll.simps scanLine_def)
next
  case (Cons l ls)
  then show ?case by (simp add: scanAll.simps [of "l @ _"] scanLine_line)
qed

lemma plainRow_fits: "plainRow row \<Longrightarrow> fitsScanner (rowText row)"
proof -
  assume p: "plainRow row"
  have "list_all (\<lambda>(word, n). word \<noteq> [] \<and> list_all plainChar word) row" using p by (simp add: plainRow_def)
  then have "plainChar c \<or> c = CHR '' ''" if "c \<in> set (rowText row)" for c
    using that by (fastforce simp: rowText_def list_all_iff)
  then have "c \<noteq> CHR 0x0A \<and> c \<noteq> CHR 0x0D" if "c \<in> set (rowText row)" for c
    using that by (force simp: plainChar_def)
  with p show ?thesis by (auto simp: fitsScanner_def plainRow_def dest: last_in_set)
qed

lemma arpEntry_row:
  "plainRow row \<Longrightarrow> arpEntry ip (rowText row) \<longleftrightarrow> 4 \<le> length row \<and> fst (row ! 0) = ip \<and> fst (row ! 3) \<noteq> ''00:00:00:00:00:00''"
proof -
  assume p: "plainRow row"
  then have f: "Fields (rowText row) = map fst row" by (simp add: plainRow_def Fields_rowText)
  have "fst (row ! 3) \<noteq> ''''" if "4 \<le> length row"
    using that p by (auto simp: plainRow_def list_all_length case_prod_beta)
  moreover have "map fst row ! 0 = fst (row ! 0)" if "4 \<le> length row"
    using that by (cases row) auto
  ultimately show ?thesis by (auto simp: arpEntry_def Let_def f not_less)
qed

definition arpText :: "string \<Rightarrow> arpRow list \<Rightarrow> string" where
  "arpText header rows = concat (map (\<lambda>l. l @ [CHR 0x0A]) (header # map rowText rows))"

lemma arpKnown_rows:
  assumes "arpTable P = Some (arpText header rows)" "fitsScanner header" "list_all plainRow rows"
  shows "arpKnown P ip \<longleftrightarrow> (\<exists>row \<in> set rows. 4 \<le> length row \<and> fst (row ! 0) = ip \<and> fst (row ! 3) \<noteq> ''00:00:00:00:00:00'')"
proof -
  have "list_all fitsScanner (map rowText rows)" using assms(3) by (auto simp: list_all_iff plainRow_fits)
  then have "scanAll (concat (map (\<lambda>l. l @ [CHR 0x0A]) (map rowText rows))) = map rowText rows" by (rule scanAll_lines)
  with assms(1,2) have "arpKnown P ip \<longleftrightarrow> (\<exists>row \<in> set rows. arpEntry ip (rowText row))"
    by (simp add: arpKnown_def arpText_def scanLine_line list_ex_iff)
  with assms(3) show ?thesis by (auto simp: list_all_iff arpEntry_row)
qed

section \<open>The addresses of the node\<close>

lemma To4_length: "To4 ip = Some v4 \<Longrightarrow> length v4 = 4"
  by (auto simp: To4_def split: if_splits)

lemma ipString_v4: "length v4 = 4 \<Longrightarrow> ipString v4 = v4String v4"
  by (auto simp: ipString_def To4_def)

text \<open>A usable address of the node: on an interface that is up and is not the loopback one.\<close>

definition hasIPv4 :: "probes \<Rightarrow> byte list \<Rightarrow> bool" where
  "hasIPv4 P v4 \<longleftrightarrow> (\<exists>ifaces i addrs a. Interfaces P = Inr ifaces \<and> i \<in> set ifaces \<and> Flags i AND FlagUp \<noteq> 0
     \<and> Flags i AND FlagLoopback = 0 \<and> Addrs i = Inr addrs \<and> a \<in> set addrs \<and> \<not> IsLoopback (addrIP a) \<and> To4 (addrIP a) = Some v4)"

lemma addrIPv4_iff: "s \<in> set (addrIPv4 a) \<longleftrightarrow> (\<exists>v4. \<not> IsLoopback (addrIP a) \<and> To4 (addrIP a) = Some v4 \<and> s = v4String v4)"
  by (auto simp: addrIPv4_def Let_def To4_def ipString_v4 split: if_splits option.splits)

lemma localIPv4s_iff:
  assumes "localIPv4s P = Inr ips"
  shows "s \<in> set ips \<longleftrightarrow> (\<exists>v4. hasIPv4 P v4 \<and> s = v4String v4)"
proof -
  from assms obtain ifaces where i: "Interfaces P = Inr ifaces" "ips = concat (map ifaceIPv4s ifaces)"
    by (auto simp: localIPv4s_def split: sum.splits)
  have "s \<in> set (ifaceIPv4s i) \<longleftrightarrow> (\<exists>addrs a v4. Flags i AND FlagUp \<noteq> 0 \<and> Flags i AND FlagLoopback = 0 \<and> Addrs i = Inr addrs
     \<and> a \<in> set addrs \<and> \<not> IsLoopback (addrIP a) \<and> To4 (addrIP a) = Some v4 \<and> s = v4String v4)" for i
    by (cases "Addrs i") (auto simp: ifaceIPv4s_def addrIPv4_iff)
  with i show ?thesis by (simp add: hasIPv4_def) blast
qed

lemma ParseIP_v4String:
  assumes "length v4 = 4"
  shows "ParseIP (v4String v4) = Some (as16 v4)"
  using assms by (simp add: ParseIP_def parseAddr_v4)

lemma localIPv4s_parse:
  assumes "localIPv4s P = Inr ips" "s \<in> set ips"
  shows "\<exists>v4. hasIPv4 P v4 \<and> length v4 = 4 \<and> ParseIP s = Some (as16 v4) \<and> \<not> IsLoopback (as16 v4)"
proof -
  from assms obtain v4 where v: "hasIPv4 P v4" "s = v4String v4" using localIPv4s_iff by blast
  then obtain a where "\<not> IsLoopback (addrIP a)" "To4 (addrIP a) = Some v4" by (auto simp: hasIPv4_def)
  then have "length v4 = 4" "hd v4 \<noteq> 127" by (auto simp: To4_length IsLoopback_def)
  moreover from this have "\<not> IsLoopback (as16 v4)" by (simp add: IsLoopback_def To4_def as16_def v4InV6Prefix_def)
  ultimately show ?thesis using v ParseIP_v4String by auto
qed

end
