(* ===== verification/Promote.thy ===== *)
theory Promote
  imports Migrate Admin NetCheck
begin

text \<open>
  \<^verbatim>\<open>promote.go\<close>: a client becomes the master. The checks that the old master is gone (\<open>promotionChecks\<close>), the
  recovery of the root key and of the database from the encrypted cache and the recovery words
  (\<open>restoreMasterState\<close>), and the announcement to the clients (\<open>broadcastMigration\<close>). What the network and the
  system answer is the parameter \<open>probes\<close> of \<^verbatim>\<open>netcheck.go\<close>.

  The lemmas: any sign of the old master stops the promotion before anything changes; an existing root key is never
  overwritten; what comes out of a recovery is the authority and the tables the cache was made of.
\<close>

section \<open>The checks\<close>


text \<open>The address of the old master: \<^verbatim>\<open>masterURL\<close> without its scheme.\<close>

definition masterAddr :: "Config \<Rightarrow> bool \<Rightarrow> string" where
  "masterAddr cfg control = TrimPrefix (masterURL cfg control '''') ''https://''"

fun checkReachable :: "probes \<Rightarrow> ip list \<Rightarrow> error + unit" where
  "checkReachable P [] = Inr ()"
| "checkReachable P (ip # ips) =
     (case probeICMP P (ipString ip) of
        Inl e \<Rightarrow> Inl e
      | Inr alive \<Rightarrow>
          if alive \<or> arpKnown P (ipString ip) then Inl (Msg ''old master is reachable'')
          else checkReachable P ips)"

definition sameAddress :: "ip \<Rightarrow> string \<Rightarrow> bool" where
  "sameAddress old s = (case ParseIP s of None \<Rightarrow> ipEqual old [] | Some ip \<Rightarrow> ipEqual old ip)"

fun checkConflict :: "string list \<Rightarrow> ip list \<Rightarrow> error + unit" where
  "checkConflict mine [] = Inr ()"
| "checkConflict mine (old # olds) =
     (if IsLoopback old then Inl (Msg ''old master resolves to loopback'')
      else if list_ex (sameAddress old) mine then Inl (Msg ''local IP conflicts with old master'')
      else checkConflict mine olds)"

text \<open>All checks: the address of the new master, or what stopped the promotion.\<close>

definition promotionChecks :: "probes \<Rightarrow> Config \<Rightarrow> error + string" where
  "promotionChecks P cfg =
     (let oldIP = host (MasterAddress cfg) in
      if oldIP = '''' then Inl (Msg ''no old master address in config'')
      else if list_ex (\<lambda>control. dialTCP P (masterAddr cfg control)) [False, True] then Inl (Msg ''OLD MASTER IS ALIVE'')
      else case LookupIP P oldIP of
        Inl _ \<Rightarrow> Inl (Msg ''cannot resolve old master for safety checks'')
      | Inr oldIPs \<Rightarrow>
          if oldIPs = [] then Inl (Msg ''cannot resolve old master for safety checks'')
          else case checkReachable P oldIPs of
            Inl e \<Rightarrow> Inl e
          | Inr _ \<Rightarrow>
             (case localIPv4s P of
                Inl e \<Rightarrow> Inl e
              | Inr myIPs \<Rightarrow>
                 (case checkConflict myIPs oldIPs of
                    Inl e \<Rightarrow> Inl e
                  | Inr _ \<Rightarrow>
                      (case myIPs of
                         [] \<Rightarrow> Inl (Msg ''no non-loopback IPv4 address available for the new master'')
                       | ip # _ \<Rightarrow> Inr ip))))"

section \<open>The recovery\<close>

text \<open>The cache the recovery starts from: the recovery key, the envelope and the local root, all checked, and the
  snapshot in the envelope.\<close>

definition openCache :: "lib \<Rightarrow> Config \<Rightarrow> string \<Rightarrow> (EncryptedCache \<times> certificate \<times> Snapshot) io" where
  "openCache L cfg mnemonic =
     bnd (lift (RecoveryFromMnemonic L (TrimSpace mnemonic))) (\<lambda>rk.
     bnd (onErr (Wrap ''config has no recovery public key'') (lift (RecoveryPublicFromBase64 L (RecoveryPublicKey cfg)))) (\<lambda>cfgPub.
     if Public rk \<noteq> cfgPub then throw (Msg ''seed phrase does not match the network's recovery public key'')
     else
     bnd (onErr (Wrap ''no local network cache to recover from'') (ReadEncryptedCache L (cachePath cfg))) (\<lambda>ec.
     bnd (osReadFile (caCertPath cfg)) (\<lambda>rootData.
     bnd (lift (parseRootCA L rootData)) (\<lambda>root.
     if \<not> pinAccepts L cfg root then throw (Msg ''local Root CA does not match configured pin'')
     else case Verify L ec root of
       Some e \<Rightarrow> throw (Wrap ''cannot recover unauthenticated cache'' e)
     | None \<Rightarrow>
       bnd (lift (DecryptCache L ec rk)) (\<lambda>plain.
       bnd (need (Msg ''json'') (jsonUnmarshal L zeroSnapshot (snapshotOfJSON L) plain)) (\<lambda>snap.
       ret (ec, root, snap))))))))"

text \<open>The configuration of the new master.\<close>

definition promotedConfig :: "Config \<Rightarrow> Snapshot \<Rightarrow> string \<Rightarrow> Config" where
  "promotedConfig cfg snap newIP =
     cfg\<lparr>Mode := ''master'', MasterAddress := newIP, Clients := [], MasterMgmtAddress := '''',
       EnrollmentToken := (if snEnrollmentToken snap \<noteq> '''' then snEnrollmentToken snap else EnrollmentToken cfg),
       ClientNetworks := snClientNetworks snap\<rparr>"

text \<open>What is written once the authority is known: the key pair, the tables, the revocation list, the
  configuration and the cache.\<close>

definition installMaster :: "lib \<Rightarrow> Config \<Rightarrow> CA \<Rightarrow> Snapshot \<Rightarrow> string \<Rightarrow> Config io" where
  "installMaster L cfg ca snap newIP =
     bnd (SaveToFiles L ca (caCertPath cfg) (caKeyPath cfg)) (\<lambda>_.
     bnd (OpenStore (dbPath cfg)) (\<lambda>st.
     bnd (onErr (Wrap ''restore snapshot into DB'') (RestoreSnapshot st snap)) (\<lambda>_.
     bnd (onErr (Wrap ''regenerate CRL after promotion'') (WriteCRL L cfg ca st)) (\<lambda>_.
     bnd (Save L (promotedConfig cfg snap newIP)) (\<lambda>cfg.
     bnd (onErr (Wrap ''rebuild cache after promotion'') (RebuildEncryptedCache L cfg ca st)) (\<lambda>_.
     ret cfg))))))"

text \<open>The authority and the snapshot, once all that the recovery relies on is checked.\<close>

definition checkedSnapshot :: "lib \<Rightarrow> Config \<Rightarrow> string \<Rightarrow> (CA \<times> Snapshot) io" where
  "checkedSnapshot L cfg mnemonic =
     bnd (openCache L cfg mnemonic) (\<lambda>(ec, root, snap).
     bnd (osMkdirAll (DataDir cfg) o755) (\<lambda>_.
     bnd (lift (LoadCAFromPEM L (snCACertPEM snap) (snCAKeyPEM snap))) (\<lambda>ca.
     if snVersion snap \<noteq> 1 \<or> snSequence snap \<noteq> ecSequence ec \<or> snFingerprint snap \<noteq> Fingerprint L ca
        \<or> Raw (Cert ca) \<noteq> Raw root
     then throw (Msg ''snapshot Root CA, fingerprint or sequence mismatch'')
     else ret (ca, snap))))"

definition restoreMasterState :: "lib \<Rightarrow> Config \<Rightarrow> string \<Rightarrow> string \<Rightarrow> (CA \<times> string list \<times> Config) io" where
  "restoreMasterState L cfg mnemonic newIP =
     withLock (caKeyPath cfg @ ''.promotion.lock'') (
     bnd (checkedSnapshot L cfg mnemonic) (\<lambda>(ca, snap).
     bnd (attempt (osStat (caKeyPath cfg))) (\<lambda>s.
     case s of
       Inr _ \<Rightarrow> throw (Msg ''local CA key already exists; refusing to overwrite'')
     | Inl e \<Rightarrow>
         if e \<noteq> NotExist then throw e
         else bnd (installMaster L cfg ca snap newIP) (\<lambda>cfg'.
         ret (ca, snClients snap, cfg')))))"

section \<open>The announcement\<close>

text \<open>One delivery over the client that does not check the server: the receiver checks the packet.\<close>

definition deliver :: "lib \<Rightarrow> string \<Rightarrow> MigrationPacket \<Rightarrow> unit io" where
  "deliver L url pkt =
     (if \<not> urlParses L url then throw Panic
      else
      bnd netReceive (\<lambda>reply.
      case reply of
        NetFail \<Rightarrow> logPrint ''migration delivery failed''
      | NetReply chain code body \<Rightarrow>
          bnd (sendTo chain (newRequest ''POST'' url (jsonPrint L (packetJSON L pkt)))) (\<lambda>_.
          if code = 200 then logPrint ''migration packet delivered'' else logPrint ''migration rejected'')))"

fun broadcastTo :: "lib \<Rightarrow> CA \<Rightarrow> string \<Rightarrow> string list \<Rightarrow> unit io" where
  "broadcastTo L ca newIP [] = ret ()"
| "broadcastTo L ca newIP (c # cs) =
     (if host c = newIP then broadcastTo L ca newIP cs
      else
      let url = ''https://'' @ JoinHostPort (host c) ''8443'' @ ''/migrate'' in
      bnd timeNow (\<lambda>now.
      let pkt = \<lparr>NewMasterIP = newIP, IssuedAt = now, mpSignature = []\<rparr> in
      bnd random (\<lambda>r.
      case signASN1 L r (Key ca) (migrationDigest L pkt) of
        None \<Rightarrow> logPrint ''sign migration''
      | Some sig \<Rightarrow> bnd (deliver L url (pkt\<lparr>mpSignature := sig\<rparr>)) (\<lambda>_. broadcastTo L ca newIP cs))))"

definition broadcastMigration :: "lib \<Rightarrow> CA \<Rightarrow> string \<Rightarrow> string list \<Rightarrow> unit io" where
  "broadcastMigration L ca newIP clients = bnd timeNow (\<lambda>_. broadcastTo L ca newIP clients)"

text \<open>\<^verbatim>\<open>RunPromote\<close>. The announcement runs beside the master; it only sends and logs, so it is placed before the
  start of the master here. A panic in it ends the process.\<close>

definition RunPromote :: "lib \<Rightarrow> bool \<Rightarrow> probes \<Rightarrow> (error + string) \<Rightarrow> Config \<Rightarrow> string \<Rightarrow> (handler \<times> handler \<times> bytes list) io" where
  "RunPromote L masterOnly P hostname cfg mnemonic =
     (if masterOnly then throw (Msg ''master-only build: client promotion is disabled'')
      else
      bnd (lift (promotionChecks P cfg)) (\<lambda>newIP.
      bnd (restoreMasterState L cfg mnemonic newIP) (\<lambda>(ca, clients, cfg').
      bnd (broadcastMigration L ca newIP clients) (\<lambda>_.
      RunMaster L hostname (localIPv4s P) cfg'))))"

section \<open>The checks: lemmas\<close>

lemma checkReachable_Inr:
  "checkReachable P ips = Inr u \<Longrightarrow> ip \<in> set ips \<Longrightarrow> probeICMP P (ipString ip) = Inr False \<and> \<not> arpKnown P (ipString ip)"
  by (induction P ips rule: checkReachable.induct) (auto split: sum.splits if_splits)

lemma checkConflict_Inr:
  "checkConflict mine olds = Inr u \<Longrightarrow> old \<in> set olds \<Longrightarrow> \<not> IsLoopback old \<and> (\<forall>s \<in> set mine. \<not> sameAddress old s)"
  by (induction mine olds rule: checkConflict.induct) (auto simp: list_ex_iff split: if_splits)

text \<open>A promotion that goes on saw no sign of the old master.\<close>

definition oldMasterGone :: "probes \<Rightarrow> Config \<Rightarrow> string \<Rightarrow> bool" where
  "oldMasterGone P cfg newIP \<longleftrightarrow> \<not> dialTCP P (masterAddr cfg False) \<and> \<not> dialTCP P (masterAddr cfg True)
     \<and> (\<exists>olds mine. LookupIP P (host (MasterAddress cfg)) = Inr olds \<and> olds \<noteq> [] \<and> localIPv4s P = Inr (newIP # mine)
        \<and> (\<forall>ip \<in> set olds. probeICMP P (ipString ip) = Inr False \<and> \<not> arpKnown P (ipString ip) \<and> \<not> IsLoopback ip
             \<and> (\<forall>s \<in> set (newIP # mine). \<not> sameAddress ip s)))"

lemma promotionChecks_Inr:
  assumes "promotionChecks P cfg = Inr newIP"
  shows "oldMasterGone P cfg newIP"
proof -
  from assms obtain olds mine u v where "\<not> dialTCP P (masterAddr cfg False)" "\<not> dialTCP P (masterAddr cfg True)"
    "LookupIP P (host (MasterAddress cfg)) = Inr olds" "olds \<noteq> []" "localIPv4s P = Inr (newIP # mine)" and
    c: "checkReachable P olds = Inr u" "checkConflict (newIP # mine) olds = Inr v"
    by (auto simp: promotionChecks_def Let_def split: if_splits sum.splits list.splits)
  with checkReachable_Inr [OF c(1)] checkConflict_Inr [OF c(2)] show ?thesis
    unfolding oldMasterGone_def by blast
qed

section \<open>An existing root key\<close>

lemma guar_lock_keepsAt [path_intros]: "guar (keepsAt p) (lockFile q)" "guar (keepsAt p) (unlockFile q)"
proof -
  show "guar (keepsAt p) (unlockFile q)" by (simp add: guar_def keepsAt_def unlockFile_def)
  show "guar (keepsAt p) (lockFile q)"
  proof (rule guarI)
    fix w
    show "keepsAt p w (snd (lockFile q w))"
      by (auto simp: lockFile_def keepsAt_def mayFail_def run_guardE tick_def setFs_def bnd_def
          split: if_splits sum.splits prod.splits)
  qed
qed

lemma guar_openCache [guar_intros]: "quiet R \<Longrightarrow> guar R (openCache L cfg words)"
  unfolding openCache_def by (auto intro!: guar_intros)

text \<open>Everything before the key is known to be missing: it changes no file that is there and no database.\<close>

lemma osStat_exists: "fs w p \<noteq> None \<Longrightarrow> osStat p w = (r, w') \<Longrightarrow> r \<noteq> Inl NotExist"
  by (auto simp: osStat_def mayFail_def run_guardE tick_def bnd_def split: if_splits sum.splits prod.splits)

lemma osStat_quiet: "osStat p w = (r, w') \<Longrightarrow> fs w' = fs w \<and> dbs w' = dbs w"
  using guar_osStat [of "same fs" p] guar_osStat [of "same dbs" p] by (auto dest: guar_sameD)

lemma checkedSnapshot_quiet:
  "guar (keepsAt p) (checkedSnapshot L cfg words)" "guar (same dbs) (checkedSnapshot L cfg words)"
  unfolding checkedSnapshot_def by (auto intro!: guar_intros path_intros blind_intros)

lemma keepsAtD: "keepsAt p w w' \<Longrightarrow> fs w p \<noteq> None \<Longrightarrow> fs w' p = fs w p"
  by (simp add: keepsAt_def)

lemma restore_refused:
  assumes key: "fs w (caKeyPath cfg) \<noteq> None" and run: "restoreMasterState L cfg words newIP w = (r, w')"
  shows "(\<exists>e. r = Inl e) \<and> dbs w' = dbs w \<and> (\<forall>p. fs w p \<noteq> None \<longrightarrow> fs w' p = fs w p)"
proof -
  let ?lock = "caKeyPath cfg @ ''.promotion.lock''"
  let ?rest = "\<lambda>(ca, snap). bnd (attempt (osStat (caKeyPath cfg))) (\<lambda>s.
     case s of
       Inr _ \<Rightarrow> throw (Msg ''local CA key already exists; refusing to overwrite'')
     | Inl e \<Rightarrow>
         if e \<noteq> NotExist then throw e
         else bnd (installMaster L cfg ca snap newIP) (\<lambda>cfg'. ret (ca, snClients snap, cfg')))"
  from run [unfolded restoreMasterState_def] show ?thesis
  proof (cases rule: withLock_cases)
    case (locked_out e)
    have "keepsAt p w w'" for p using guar_lock_keepsAt(1) locked_out(2) by (rule guarD)
    with locked_out lockFile_dbs show ?thesis by (auto simp: keepsAt_def)
  next
    case (ran w1 w2)
    have k1: "keepsAt p w w1" "dbs w1 = dbs w" for p
      using guarD [OF guar_lock_keepsAt(1) ran(1)] lockFile_dbs [OF ran(1)] by auto
    obtain x w3 where u: "checkedSnapshot L cfg words w1 = (x, w3)" by (cases "checkedSnapshot L cfg words w1")
    have k3: "keepsAt p w1 w3" "dbs w3 = dbs w1" for p
      using guarD [OF checkedSnapshot_quiet(1) u] guar_sameD [OF checkedSnapshot_quiet(2) u] by auto
    have kk: "keepsAt p w w3" for p using k1(1) k3(1) by (rule preord_trans [rotated]) simp
    have "(\<exists>e. r = Inl e) \<and> fs w2 = fs w3 \<and> dbs w2 = dbs w3"
    proof (cases x)
      case (Inl e)
      with ran(2) u show ?thesis by auto
    next
      case (Inr y)
      obtain ca snap where y: "y = (ca, snap)" by (cases y)
      obtain s w4 where s: "osStat (caKeyPath cfg) w3 = (s, w4)" by (cases "osStat (caKeyPath cfg) w3")
      have "fs w3 (caKeyPath cfg) \<noteq> None" using keepsAtD [OF kk] key by simp
      with s have "s \<noteq> Inl NotExist" by (rule osStat_exists [rotated])
      with ran(2) u Inr y s have "(\<exists>e. r = Inl e) \<and> w2 = w4"
        by (cases s) (auto simp: bnd_def run_attempt split: if_splits)
      with osStat_quiet [OF s] show ?thesis by simp
    qed
    with ran(3) kk k1(2) k3(2) show ?thesis by (auto dest: keepsAtD)
  qed
qed

section \<open>What a recovery recovers\<close>

lemma openCache_Inr:
  assumes "openCache L cfg words w = (Inr (ec, root, snap), w')"
  obtains rk b plain where "RecoveryFromMnemonic L (TrimSpace words) = Inr rk"
    "RecoveryPublicFromBase64 L (RecoveryPublicKey cfg) = Inr (Public rk)"
    "fileBytes (fs w) (cachePath cfg) = Some b" "jsonUnmarshal L zeroCache (cacheOfJSON L) b = Some ec"
    "rootIn L cfg (fs w) = Some root" "pinAccepts L cfg root" "Verify L ec root = None" "DecryptCache L ec rk = Inr plain"
    "jsonUnmarshal L zeroSnapshot (snapshotOfJSON L) plain = Some snap"
proof -
  from assms obtain rk w1 data w2 plain where k: "RecoveryFromMnemonic L (TrimSpace words) = Inr rk"
    "RecoveryPublicFromBase64 L (RecoveryPublicKey cfg) = Inr (Public rk)" and
    r: "ReadEncryptedCache L (cachePath cfg) w = (Inr ec, w1)" "osReadFile (caCertPath cfg) w1 = (Inr data, w2)"
    "parseRootCA L data = Inr root" and
    v: "pinAccepts L cfg root" "Verify L ec root = None" "DecryptCache L ec rk = Inr plain"
    "jsonUnmarshal L zeroSnapshot (snapshotOfJSON L) plain = Some snap"
    by (auto simp: openCache_def split: if_splits option.splits)
  from ReadEncryptedCache_Inr [OF r(1)] obtain b where b: "fs w1 = fs w" "fileBytes (fs w) (cachePath cfg) = Some b"
    "jsonUnmarshal L zeroCache (cacheOfJSON L) b = Some ec" by blast
  have "rootIn L cfg (fs w) = Some root" using r(2,3) b(1) by (auto simp: rootIn_def dest!: osReadFile_Inr)
  with k v b that show thesis by blast
qed

lemma guar_RestoreSnapshot_path: "guar (untouched p) (RestoreSnapshot st snap)"
  unfolding RestoreSnapshot_def restoreTables_def sqlExec_def sqlUint_def orNow_def
  by (auto intro!: guar_intros db_intros)

lemma SaveToFiles_Inr:
  assumes "SaveToFiles L ca c k w = (Inr u, w')" "\<not> isTempName c" "\<not> isTempName k" "c \<noteq> k"
  obtains kd where "marshalPKCS8 L (Key ca) = Some kd" "fs w' c = Some (File (pemEncode L ''CERTIFICATE'' (CertDER ca)) o644)"
    "fs w' k = Some (File (pemEncode L ''PRIVATE KEY'' kd) o600)"
proof -
  from assms(1) obtain kd w1 where kd: "marshalPKCS8 L (Key ca) = Some kd" and
    wr: "atomicWriteFile c (pemEncode L ''CERTIFICATE'' (CertDER ca)) o644 w = (Inr (), w1)"
      "atomicWriteFile k (pemEncode L ''PRIVATE KEY'' kd) o600 w1 = (Inr u, w')"
    by (auto simp: SaveToFiles_def Let_def)
  from atomicWriteFile_Inr [OF assms(2) wr(1)] atomicWriteFile_other [OF assms(2,4) wr(2)] atomicWriteFile_Inr [OF assms(3) wr(2)]
  show thesis by (intro that [OF kd]) simp_all
qed

text \<open>The configuration is saved elsewhere than the key pair.\<close>

definition configApart :: "Config \<Rightarrow> bool" where
  "configApart cfg \<longleftrightarrow> baseName (cfgPath cfg) \<notin> {''root-ca.crt'', ''root-ca.key''}"

lemma guar_Save_apart:
  assumes "configApart cfg"
  shows "guar (keepsAt (caCertPath c)) (Save L cfg)" "guar (keepsAt (caKeyPath c)) (Save L cfg)"
proof -
  have k: "guar (keepsAt p) (atomicWriteFile q b o600)" if "\<not> isTempName p" "p \<noteq> q" for p q b
    using guar_atomicWriteFile_other [OF that, of b o600] by (auto simp: guar_def keepsAt_def untouched_def)
  have d: "baseName ''/etc/natssl/config.yaml'' = ''config.yaml''" by (simp add: baseName_def)
  have b: "baseName (cfgPath cfg) \<noteq> ''root-ca.crt''" "baseName (cfgPath cfg) \<noteq> ''root-ca.key''"
    using assms by (simp_all add: configApart_def)
  have n: "caCertPath c \<noteq> cfgPath cfg" "caKeyPath c \<noteq> cfgPath cfg" "caCertPath c \<noteq> ''/etc/natssl/config.yaml''"
    "caKeyPath c \<noteq> ''/etc/natssl/config.yaml''"
    by (rule path_neq, simp add: d b [symmetric] b [THEN not_sym])+
  show "guar (keepsAt (caCertPath c)) (Save L cfg)" "guar (keepsAt (caKeyPath c)) (Save L cfg)"
    unfolding Save_def Let_def using n by (auto intro!: guar_intros path_intros k)
qed

lemma lock_ca_neq [simp]:
  "caCertPath c \<noteq> crlPath d" "caKeyPath c \<noteq> crlPath d" "caCertPath c \<noteq> cachePath d" "caKeyPath c \<noteq> cachePath d"
  by (rule path_neq, simp)+

lemma installMaster_Inr:
  assumes run: "installMaster L cfg ca snap newIP w = (Inr cfg', w')" and apart: "configApart cfg"
  obtains kd s0 s' s1 w1 w2 where "marshalPKCS8 L (Key ca) = Some kd"
    "fs w' (caCertPath cfg) = Some (File (pemEncode L ''CERTIFICATE'' (CertDER ca)) o644)"
    "fs w' (caKeyPath cfg) = Some (File (pemEncode L ''PRIVATE KEY'' kd) o600)"
    "RestoreSnapshot (dbPath cfg) snap w1 = (Inr (), w2)" "dbs w1 (dbPath cfg) = Some s0"
    "dbs w2 (dbPath cfg) = Some s1" "dbs w' (dbPath cfg) = Some s'" "sameTables s1 s'"
proof -
  from run obtain u1 st u2 u3 u4 where
    sv: "SaveToFiles L ca (caCertPath cfg) (caKeyPath cfg) w = (Inr (), u1)" and
    op: "OpenStore (dbPath cfg) u1 = (Inr st, u2)" and rs: "RestoreSnapshot st snap u2 = (Inr (), u3)" and
    crl: "WriteCRL L cfg ca st u3 = (Inr (), u4)" and
    rest: "bnd (Save L (promotedConfig cfg snap newIP)) (\<lambda>cfg. bnd (RebuildEncryptedCache L cfg ca st) (\<lambda>_. ret cfg)) u4 = (Inr cfg', w')"
    by (auto simp: installMaster_def)
  from opened_db [OF op] obtain s0 where st: "st = dbPath cfg" and s0: "dbs u2 (dbPath cfg) = Some s0" by blast
  from RestoreSnapshot_Inr [OF rs s0 [folded st]] obtain s1 where s1: "dbs u3 (dbPath cfg) = Some s1" using st by blast
  have tab: "guar (storeRel sameTables) (bnd (Save L (promotedConfig cfg snap newIP)) (\<lambda>cfg. bnd (RebuildEncryptedCache L cfg ca st) (\<lambda>_. ret cfg)))"
    by (auto intro!: guar_intros blind_intros rel_intros)
  have "storeRel sameTables u3 w'"
    using guarD [OF guar_crl_sameTables(1) crl] guarD [OF tab rest] by (rule preord_trans [rotated 1]) (simp add: storeRel_preord)
  with s1 obtain s' where s': "dbs w' (dbPath cfg) = Some s'" "sameTables s1 s'" by (auto simp: storeRel_def)
  obtain kd where kd: "marshalPKCS8 L (Key ca) = Some kd"
    "fs u1 (caCertPath cfg) = Some (File (pemEncode L ''CERTIFICATE'' (CertDER ca)) o644)"
    "fs u1 (caKeyPath cfg) = Some (File (pemEncode L ''PRIVATE KEY'' kd) o600)"
    by (rule SaveToFiles_Inr [OF sv]) simp_all
  have keep: "keepsAt p u1 w'" if p: "p = caCertPath cfg \<or> p = caKeyPath cfg" for p
  proof -
    have "guar (untouched p) (OpenStore (dbPath cfg))" "guar (untouched p) (RestoreSnapshot st snap)"
      "guar (untouched p) (WriteCRL L cfg ca st)" "guar (untouched p) (RebuildEncryptedCache L c ca st)" for c
      using p by (auto intro!: guar_intros path_intros db_intros guar_RestoreSnapshot_path)
    then have k: "guar (keepsAt p) (OpenStore (dbPath cfg))" "guar (keepsAt p) (RestoreSnapshot st snap)"
      "guar (keepsAt p) (WriteCRL L cfg ca st)" "guar (keepsAt p) (RebuildEncryptedCache L c ca st)" for c
      by (auto simp: guar_def keepsAt_def untouched_def)
    have "configApart (promotedConfig cfg snap newIP)" using apart by (simp add: configApart_def promotedConfig_def)
    then have "guar (keepsAt p) (Save L (promotedConfig cfg snap newIP))" using p guar_Save_apart by auto
    then have "guar (keepsAt p) (bnd (OpenStore (dbPath cfg)) (\<lambda>_. bnd (RestoreSnapshot st snap) (\<lambda>_. bnd (WriteCRL L cfg ca st) (\<lambda>_.
       bnd (Save L (promotedConfig cfg snap newIP)) (\<lambda>cfg. bnd (RebuildEncryptedCache L cfg ca st) (\<lambda>_. ret cfg))))))"
      using k by (auto intro!: guar_intros)
    moreover have "bnd (OpenStore (dbPath cfg)) (\<lambda>_. bnd (RestoreSnapshot st snap) (\<lambda>_. bnd (WriteCRL L cfg ca st) (\<lambda>_.
       bnd (Save L (promotedConfig cfg snap newIP)) (\<lambda>cfg. bnd (RebuildEncryptedCache L cfg ca st) (\<lambda>_. ret cfg))))) u1 = (Inr cfg', w')"
      using op rs crl rest by simp
    ultimately show ?thesis by (rule guarD)
  qed
  show thesis
    by (rule that [OF kd(1) _ _ rs [unfolded st] s0 s1 s']) (use kd keep in \<open>auto simp: keepsAt_def\<close>)
qed

lemma Fingerprint_ASCII: "isASCII (Fingerprint L ca)"
proof -
  have d: "(of_char (if k < 10 then char_of (48 + k) else char_of (55 + k)) :: nat) < 128" if "k < 16" for k :: nat
    using that by simp
  have "isASCII (hexUpper c)" for c
  proof -
    have "(of_char c :: nat) < 16 * 16" using nat_of_char_less_256 [of c] by simp
    then have "(of_char c :: nat) div 16 < 16" "(of_char c :: nat) mod 16 < 16" by (auto intro: less_mult_imp_div_less)
    then show ?thesis unfolding hexUpper_def Let_def by (simp only: isASCII_simps d)
  qed
  then show ?thesis
    using set_joinWith [of "'':''" "map hexUpper (sha256 L (CertDER ca))"]
    by (fastforce simp: Fingerprint_def isASCII_def)
qed

text \<open>A database that survives the JSON form: ASCII text, trimmed addresses and numbers of 64 bits.\<close>

definition portable :: "lib \<Rightarrow> Config \<Rightarrow> CA \<Rightarrow> store \<Rightarrow> bool" where
  "portable L cfg ca s \<longleftrightarrow> isASCII (EnrollmentToken cfg) \<and> list_all isASCII (ClientNetworks cfg)
     \<and> (\<forall>c k. caPEM L ca = Inr (c, k) \<longrightarrow> isASCII c \<and> isASCII k)
     \<and> list_all (\<lambda>c. isASCII (ciIP c) \<and> TrimSpace (ciIP c) = ciIP c) (clientsTab s) \<and> list_all asciiCert (certsTab s)
     \<and> list_all (\<lambda>r. isASCII (rvSerialHex r) \<and> isASCII (rvSubject r) \<and> - (2 ^ 63) \<le> Reason r \<and> Reason r < 2 ^ 63) (revokedTab s)
     \<and> list_all (\<lambda>b. isASCII (bIP b) \<and> isASCII (bReason b) \<and> TrimSpace (bIP b) = bIP b) (blacklistTab s)
     \<and> (\<forall>v. stateGet ''crl_number'' s = Some v \<longrightarrow> - (2 ^ 63) \<le> v)"

lemma portable_snapshot:
  assumes "portable L cfg ca s" "snapshotOfStore L ca s snap"
  shows "asciiSnapshot (publishedSnapshot cfg snap seq)" "snapshotFits (publishedSnapshot cfg snap seq)"
proof -
  have pem: "isASCII (snCACertPEM snap)" "isASCII (snCAKeyPEM snap)" and
    n: "- (2 ^ 63) \<le> snCRLNumber snap" "snCRLNumber snap < 2 ^ 63"
    using assms by (auto simp: portable_def snapshotOfStore_def maxInteger_def split: option.splits)
  show "asciiSnapshot (publishedSnapshot cfg snap seq)"
    using assms pem Fingerprint_ASCII [of L ca]
    by (simp add: asciiSnapshot_def publishedSnapshot_def portable_def snapshotOfStore_def list_all_iff)
  show "snapshotFits (publishedSnapshot cfg snap seq)"
    using assms n by (simp add: snapshotFits_def publishedSnapshot_def portable_def snapshotOfStore_def list_all_iff)
qed

text \<open>What the new master has of the old one.\<close>

definition recovered :: "store \<Rightarrow> store \<Rightarrow> bool" where
  "recovered s s' \<longleftrightarrow> clientKeys s' = clientKeys s \<and> set (certsTab s') = set (certsTab s)
     \<and> revokedKeys s' = revokedKeys s \<and> blockedKeys s' = blockedKeys s"

lemma recovered_tables:
  assumes "RestoreSnapshot st snap w = (Inr u, w')" "dbs w st = Some s0" "dbs w' st = Some s1"
    "snapshotOfStore L ca s snap0" "snap = publishedSnapshot cfg snap0 seq" "portable L cfg ca s" "wf_store s"
  shows "recovered s s1"
proof -
  have of_s: "snClients snap = sort_key id (map ciIP (clientsTab s))" "snCerts snap = sort_key NotBefore (certsTab s)"
    "snRevoked snap = sort_key RevokedAt (revokedTab s)" "snBlacklist snap = sort_key bIP (blacklistTab s)"
    using assms(4,5) by (simp_all add: snapshotOfStore_def publishedSnapshot_def)
  from RestoreSnapshot_keys [OF assms(1,2)] assms(3) have
    k: "clientKeys s1 = TrimSpace ` set (snClients snap)" "revokedKeys s1 = rvSerialHex ` set (snRevoked snap)"
      "blockedKeys s1 = (TrimSpace \<circ> bIP) ` set (snBlacklist snap)" by (metis option.inject)+
  from RestoreSnapshot_Inr [OF assms(1,2)] assms(3) have "certsTab s1 = fold (insReplace ID) (snCerts snap) []"
    by (metis option.inject)
  moreover have "keyed ID (snCerts snap)" using assms(7) of_s(2) by (simp add: wf_store_def keyed_sort)
  ultimately have "certsTab s1 = snCerts snap" using fold_insReplace_distinct [of ID "[]" "snCerts snap"] by (simp add: keyed_def)
  moreover have "TrimSpace ` ciIP ` set (clientsTab s) = ciIP ` set (clientsTab s)"
    "(TrimSpace \<circ> bIP) ` set (blacklistTab s) = bIP ` set (blacklistTab s)"
    using assms(6) by (auto simp: portable_def list_all_iff image_image intro!: image_cong)
  ultimately show ?thesis
    using k of_s by (simp add: recovered_def clientKeys_def revokedKeys_def blockedKeys_def)
qed

text \<open>The whole way: the cache a master published, opened on a client with the recovery words.\<close>

lemma recovery_works:
  assumes pub: "RebuildEncryptedCache L mcfg ca st m = (Inr u, m')" and db: "dbs m st = Some s" "seqOk s" "wf_store s"
    and ca: "validCA L ca" and port: "portable L mcfg ca s"
    and words: "RecoveryFromMnemonic L (TrimSpace words) = Inr rk"
      "RecoveryPublicFromBase64 L (RecoveryPublicKey mcfg) = Inr (Public rk)"
    and copy: "fileBytes (fs w) (cachePath cfg) = fileBytes (fs m') (cachePath mcfg)"
    and run: "restoreMasterState L cfg words newIP w = (Inr (ca', clients, cfg'), w')" and apart: "configApart cfg"
    and lib: "boxOk L" "gcmOk L" "randomOk L" "ecdsaOk L" "jsonOk L" "timeTextOk L" "base64Ok L" "pemOk L" "pkcs8Ok L"
  shows "ca' = ca \<and> set clients = clientKeys s \<and> LoadCAFromPEM L (the (fileBytes (fs w') (caCertPath cfg)))
       (the (fileBytes (fs w') (caKeyPath cfg))) = Inr ca
    \<and> (\<exists>s'. dbs w' (dbPath cfg) = Some s' \<and> recovered s s')"
proof -
  have rk: "recoveryPair L rk" using words(1) by (auto simp: RecoveryFromMnemonic_def split: option.splits dest: recoveryFromEntropy_pair)
  from Rebuild_Inr [OF pub db(1,2) ca rk words(2) lib(1-4)] obtain snap0 ec v where
    f: "fs m' (cachePath mcfg) = Some (File (jsonPrint L (cacheJSON L ec)) o600)" and
    dec: "DecryptCache L ec rk = Inr (jsonPrint L (snapshotJSON L (publishedSnapshot mcfg snap0 (ecSequence ec))))" and
    ofs: "snapshotOfStore L ca s snap0" and ver: "ecVersion ec = 1" by blast
  from run [unfolded restoreMasterState_def] show ?thesis
  proof (cases rule: withLock_cases)
    case (ran w1 w2)
    from ran(2) obtain snap w3 e w4 where
      ck: "checkedSnapshot L cfg words w1 = (Inr (ca', snap), w3)" and
      st: "osStat (caKeyPath cfg) w3 = (Inl e, w4)" and
      ins: "installMaster L cfg ca' snap newIP w4 = (Inr cfg', w2)" and cl: "clients = snClients snap"
      by (auto split: sum.splits if_splits)
    from ck obtain ec' root w5 where op: "openCache L cfg words w1 = (Inr (ec', root, snap), w5)" and
      ld: "LoadCAFromPEM L (snCACertPEM snap) (snCAKeyPEM snap) = Inr ca'"
      by (auto simp: checkedSnapshot_def split: if_splits)
    have "fs w1 (cachePath cfg) = fs w (cachePath cfg)"
      by (rule lockFile_other [OF _ ran(1)]) (rule path_neq, simp)
    with copy f have cb: "fileBytes (fs w1) (cachePath cfg) = Some (jsonPrint L (cacheJSON L ec))" by (simp add: fileBytes_def)
    from openCache_Inr [OF op] words(1) cb cache_roundtrip [OF lib(5,7) ver]
    have "ec' = ec" and "jsonUnmarshal L zeroSnapshot (snapshotOfJSON L) (jsonPrint L (snapshotJSON L (publishedSnapshot mcfg snap0 (ecSequence ec)))) = Some snap"
      using dec by (metis option.inject sum.inject(2))+
    with snapshot_roundtrip [OF lib(5,6) portable_snapshot(2,1) [OF port ofs]]
    have sn: "snap = publishedSnapshot mcfg snap0 (ecSequence ec)" by simp
    obtain kd where kd: "marshalPKCS8 L (Key ca) = Some kd" "snCACertPEM snap = pemEncode L ''CERTIFICATE'' (CertDER ca)"
      "snCAKeyPEM snap = pemEncode L ''PRIVATE KEY'' kd"
      using ofs sn by (auto simp: snapshotOfStore_def publishedSnapshot_def caPEM_def split: option.splits)
    have ca': "ca' = ca" using ld LoadCAFromPEM_iff [OF lib(8,9) kd(1)] ca kd by simp
    from installMaster_Inr [OF ins [unfolded ca'] apart] obtain kd' s0 s' s1 u1 u2 where
      files: "marshalPKCS8 L (Key ca) = Some kd'" "fs w2 (caCertPath cfg) = Some (File (pemEncode L ''CERTIFICATE'' (CertDER ca)) o644)"
        "fs w2 (caKeyPath cfg) = Some (File (pemEncode L ''PRIVATE KEY'' kd') o600)" and
      tabs: "RestoreSnapshot (dbPath cfg) snap u1 = (Inr (), u2)" "dbs u1 (dbPath cfg) = Some s0"
        "dbs u2 (dbPath cfg) = Some s1" "dbs w2 (dbPath cfg) = Some s'" "sameTables s1 s'" .
    have "recovered s s1" using recovered_tables [OF tabs(1-3) ofs sn port db(3)] .
    then have "recovered s s'" using sameTablesD [OF tabs(5)] by (simp add: recovered_def)
    moreover have "set clients = clientKeys s"
      using ofs sn cl by (simp add: snapshotOfStore_def publishedSnapshot_def clientKeys_def)
    moreover have "LoadCAFromPEM L (the (fileBytes (fs w') (caCertPath cfg))) (the (fileBytes (fs w') (caKeyPath cfg))) = Inr ca"
      using files ran(3) LoadCAFromPEM_iff [OF lib(8,9) files(1)] ca by (simp add: fileBytes_def)
    ultimately show ?thesis using ca' ran(3) tabs(4) by auto
  qed auto
qed

section \<open>The announcement: lemmas\<close>

text \<open>What the announcement sends: packets for the new address whose signature verifies with the root's key.\<close>

definition announces :: "lib \<Rightarrow> CA \<Rightarrow> string \<Rightarrow> outRequest \<Rightarrow> bool" where
  "announces L ca newIP req \<longleftrightarrow> (\<exists>pkt. outBody req = jsonPrint L (packetJSON L pkt) \<and> NewMasterIP pkt = newIP
     \<and> outToken req = '''' \<and> verifyASN1 L (publicOf L (Key ca)) (migrationDigest L pkt) (mpSignature pkt))"

lemma deliver_sends:
  assumes "NewMasterIP pkt = newIP" "verifyASN1 L (publicOf L (Key ca)) (migrationDigest L pkt) (mpSignature pkt)"
  shows "guar (sendsOnly (announces L ca newIP)) (deliver L url pkt)"
proof -
  have "announces L ca newIP ((newRequest ''POST'' url (jsonPrint L (packetJSON L pkt)))\<lparr>outPeer := chain\<rparr>)" for chain
    using assms by (auto simp: announces_def newRequest_def)
  then have "guar (sendsOnly (announces L ca newIP)) (sendTo chain (newRequest ''POST'' url (jsonPrint L (packetJSON L pkt))))" for chain
    by (auto simp: guar_def sendTo_def sendsOnly_def)
  then show ?thesis unfolding deliver_def
    by (intro guar_if guar_throw guar_bnd guar_netReceive guar_case_netReply guar_logPrint) simp_all
qed

lemma migrationDigest_unsigned [simp]: "migrationDigest L (pkt\<lparr>mpSignature := s\<rparr>) = migrationDigest L pkt"
  by (simp add: migrationDigest_def)

lemma broadcastTo_sends:
  assumes "ecdsaOk L"
  shows "guar (sendsOnly (announces L ca newIP)) (broadcastTo L ca newIP cs)"
proof (induction cs)
  case (Cons c cs)
  have "guar (sendsOnly (announces L ca newIP)) (deliver L url (\<lparr>NewMasterIP = newIP, IssuedAt = now, mpSignature = []\<rparr>\<lparr>mpSignature := sig\<rparr>))"
    if "signASN1 L r (Key ca) (migrationDigest L \<lparr>NewMasterIP = newIP, IssuedAt = now, mpSignature = []\<rparr>) = Some sig" for url now r sig
    using that assms by (intro deliver_sends) (simp_all only: migrationDigest_unsigned, auto simp: ecdsaOk_def)
  with Cons show ?case by (auto simp: Let_def intro!: guar_intros)
next
  case Nil
  show ?case unfolding broadcastTo.simps by (rule guar_ret) simp
qed

lemma broadcast_sends: "ecdsaOk L \<Longrightarrow> guar (sendsOnly (announces L ca newIP)) (broadcastMigration L ca newIP clients)"
  unfolding broadcastMigration_def by (auto intro!: guar_intros broadcastTo_sends)

text \<open>A client whose root is that authority verifies such a packet.\<close>

lemma announced_signed:
  assumes "verifyASN1 L (publicOf L (Key ca)) (migrationDigest L pkt) (mpSignature pkt)" "rootIn L cfg F = Some (Cert ca)"
    "validCA L ca"
  shows "signedBy L cfg F pkt"
proof -
  from assms(2) obtain pem b where "fileBytes F (caCertPath cfg) = Some pem" "pemDecode L pem = Some (''CERTIFICATE'', b)"
    "parseCertificate L b = Some (Cert ca)"
    by (auto simp: rootIn_def split: option.splits sum.splits dest!: parseRootCA_Inr)
  with assms(1,3) show ?thesis unfolding signedBy_def validCA_def by blast
qed

lemma guar_broadcast [guar_intros]: "sendBlind R \<Longrightarrow> guar R (broadcastMigration L ca newIP clients)"
proof -
  assume R: "sendBlind R"
  then have "guar R (deliver L url pkt)" for url pkt unfolding deliver_def by (auto intro!: guar_intros)
  then have "guar R (broadcastTo L ca newIP cs)" for cs
  proof (induction cs)
    case Nil
    show ?case unfolding broadcastTo.simps using R by (intro guar_ret) simp
  qed (use R in \<open>auto simp: Let_def intro!: guar_intros\<close>)
  with R show ?thesis unfolding broadcastMigration_def by (auto intro!: guar_intros)
qed

section \<open>Promotion: lemmas\<close>

lemma RunPromote_gone:
  assumes "RunPromote L mo P name cfg words w = (r, w')" "w' \<noteq> w \<or> (\<exists>x. r = Inr x)"
  obtains newIP where "\<not> mo" "promotionChecks P cfg = Inr newIP" "oldMasterGone P cfg newIP"
proof (cases "mo \<or> (\<exists>e. promotionChecks P cfg = Inl e)")
  case True
  then have "w' = w \<and> (\<exists>e. r = Inl e)" using assms(1) by (auto simp: RunPromote_def bnd_def lift_def ret_def throw_def split: if_splits)
  with assms(2) show thesis by auto
next
  case False
  then obtain newIP where "promotionChecks P cfg = Inr newIP" by (cases "promotionChecks P cfg") auto
  with False that promotionChecks_Inr show thesis by blast
qed

text \<open>With a root key in place, nothing of a promotion is done.\<close>

lemma RunPromote_refused:
  assumes "fs w (caKeyPath cfg) \<noteq> None" "RunPromote L mo P name cfg words w = (r, w')"
  shows "(\<exists>e. r = Inl e) \<and> dbs w' = dbs w \<and> (\<forall>p. fs w p \<noteq> None \<longrightarrow> fs w' p = fs w p)"
proof (cases "mo \<or> (\<exists>e. promotionChecks P cfg = Inl e)")
  case True
  then show ?thesis using assms(2) by (auto simp: RunPromote_def bnd_def lift_def ret_def throw_def split: if_splits)
next
  case False
  then obtain newIP where c: "promotionChecks P cfg = Inr newIP" by (cases "promotionChecks P cfg") auto
  obtain x w1 where run: "restoreMasterState L cfg words newIP w = (x, w1)" by (cases "restoreMasterState L cfg words newIP w")
  from restore_refused [OF assms(1) run] obtain e where e: "x = Inl e" by blast
  with False c run assms(2) have "r = Inl e" "w' = w1" by (auto simp: RunPromote_def)
  with restore_refused [OF assms(1) run] show ?thesis by simp
qed

end
