(* ===== verification/RecoverySample.thy ===== *)
theory RecoverySample
  imports MasterProperties ClientProperties Promote
begin

text \<open>
  A recovery that runs. The sample master publishes its cache and is lost; a client that has the root certificate and that
  cache restores the master's state from the recovery words. The run is evaluated in three stretches: up to the
  restored tables, the revocation list, and the configuration with the new cache.
\<close>

section \<open>The client that recovers\<close>

definition lostFs :: "bytes \<Rightarrow> filesys" where
  "lostFs cache = [''/d'' \<mapsto> Dir o700, ''/d/root-ca.crt'' \<mapsto> File (pemEncode SL ''CERTIFICATE'' ''R'') o644,
     ''/d/network-cache.enc'' \<mapsto> File cache o600]"

lemma words_ops: "TrimSpace recoveryKeyBytes = recoveryKeyBytes"
  "RecoveryFromMnemonic SL recoveryKeyBytes = Inr \<lparr>Private = recoveryKeyBytes, Public = recoveryKeyBytes\<rparr>"
  "RecoveryPublicFromBase64 SL (RecoveryPublicKey clientConfig) = Inr recoveryKeyBytes"
proof -
  have "plainChar CHR ''r''" by code_simp
  then show "TrimSpace recoveryKeyBytes = recoveryKeyBytes" by (intro TrimSpace_plain) (auto simp: recoveryKeyBytes_def)
  show "RecoveryFromMnemonic SL recoveryKeyBytes = Inr \<lparr>Private = recoveryKeyBytes, Public = recoveryKeyBytes\<rparr>"
    by (simp add: RecoveryFromMnemonic_def recoveryFromEntropy_def SL_ops recoveryKeyBytes_def)
  show "RecoveryPublicFromBase64 SL (RecoveryPublicKey clientConfig) = Inr recoveryKeyBytes"
    using sample_recovery(2) by (simp add: clientConfig_def)
qed

lemma level5: "dbLevel ''cache_sequence'' ''/d/natssl.db'' (snd (RebuildEncryptedCache SL sampleConfig sampleCA ''/d/natssl.db'' SW)) = 5"
  by (simp add: run_ops dbLevel_def counterLevel_def cong: run_blocks del: run_off split del: if_split)


section \<open>The stretches\<close>

text \<open>A world on the way, with the promotion lock held.\<close>

definition midWorld :: "filesys \<Rightarrow> store option \<Rightarrow> nat \<Rightarrow> filesys list \<Rightarrow> world" where
  "midWorld F s n t = SW\<lparr>fs := F, fsTrace := t, dbs := Map.empty(''/d/natssl.db'' := s), held := [''/d/root-ca.key.promotion.lock''], step := n\<rparr>"

definition keysFs :: "bytes \<Rightarrow> filesys" where
  "keysFs cache = [''/d'' \<mapsto> Dir o700, ''/d/network-cache.enc'' \<mapsto> File cache o600, ''/d/root-ca.key.promotion.lock'' \<mapsto> File [] o600,
     ''/d/root-ca.crt'' \<mapsto> File (pemEncode SL ''CERTIFICATE'' ''R'') o644, ''/d/root-ca.key'' \<mapsto> File (pemEncode SL ''PRIVATE KEY'' ''k'') o600]"

definition newStore :: "int \<Rightarrow> store" where
  "newStore n = sampleStore\<lparr>stateTab := [(''cache_sequence'', 5), (''crl_number'', n)], clientsTab := [\<lparr>ciIP = ''10.0.0.7'', ciAddedAt = 1000029 * second\<rparr>]\<rparr>"

text \<open>The first stretch of \<open>restoreMasterState\<close>, with what it has found.\<close>

definition firstStretch :: "(CA \<times> Snapshot \<times> (error + unit) \<times> string) io" where
  "firstStretch = bnd (lockFile (caKeyPath clientConfig @ ''.promotion.lock'')) (\<lambda>_.
     bnd (checkedSnapshot SL clientConfig recoveryKeyBytes) (\<lambda>(ca, snap).
     bnd (attempt (osStat (caKeyPath clientConfig))) (\<lambda>s.
     bnd (SaveToFiles SL ca (caCertPath clientConfig) (caKeyPath clientConfig)) (\<lambda>_.
     bnd (OpenStore (dbPath clientConfig)) (\<lambda>st.
     bnd (onErr (Wrap ''restore snapshot into DB'') (RestoreSnapshot st snap)) (\<lambda>_.
     ret (ca, snap, s, st)))))))"

lemmas restore_ops = firstStretch_def run_ops admin_ops client_ops words_ops midWorld_def lostFs_def keysFs_def newStore_def emptyStore_def insReplace_def checkedSnapshot_def
  openCache_def sqlUint_def orNow_def Save_def RestoreSnapshot_def restoreTables_def SaveToFiles_def

lemma lostConfig_ops:
  "dbPath clientConfig = ''/d/natssl.db''" "caKeyPath clientConfig = ''/d/root-ca.key''"
  "TrimSpace ''10.0.0.9'' = ''10.0.0.9''"
  "LoadCAFromPEM SL (pemEncode SL ''CERTIFICATE'' ''R'') (pemEncode SL ''PRIVATE KEY'' ''k'') = Inr sampleCA"
proof -
  show "TrimSpace ''10.0.0.9'' = ''10.0.0.9''" by code_simp
  show "LoadCAFromPEM SL (pemEncode SL ''CERTIFICATE'' ''R'') (pemEncode SL ''PRIVATE KEY'' ''k'') = Inr sampleCA"
    by (simp add: LoadCAFromPEM_def run_ops sampleCA_def)
qed (simp_all add: clientConfig_def sampleConfig_def node_path_defs filepathJoin_def filepathClean_def)

text \<open>What the run needs of the cache and of the snapshot in it.\<close>

definition recoverable :: "EncryptedCache \<Rightarrow> Snapshot \<Rightarrow> bool" where
  "recoverable ec S \<longleftrightarrow> ecVersion ec = 1
     \<and> Verify SL ec sampleRoot = None
     \<and> ecSequence ec = 5
     \<and> DecryptCache SL ec \<lparr>Private = recoveryKeyBytes, Public = recoveryKeyBytes\<rparr> = Inr (jsonPrint SL (snapshotJSON SL S))
     \<and> jsonUnmarshal SL zeroSnapshot (snapshotOfJSON SL) (encode (snapshotJSON SL S)) = Some S
     \<and> snVersion S = 1
     \<and> snSequence S = 5
     \<and> snFingerprint S = Fingerprint SL sampleCA
     \<and> snCACertPEM S = pemEncode SL ''CERTIFICATE'' ''R''
     \<and> snCAKeyPEM S = pemEncode SL ''PRIVATE KEY'' ''k''
     \<and> snClients S = [''10.0.0.7'']
     \<and> snCerts S = certsTab sampleStore
     \<and> snRevoked S = revokedTab sampleStore
     \<and> snBlacklist S = blacklistTab sampleStore
     \<and> snCRLNumber S = 0
     \<and> snEnrollmentToken S = ''secret''
     \<and> snClientNetworks S = [''10.0.0.0/8'']"

lemma restore_1:
  assumes rec: "recoverable ec S"
  shows "\<exists>t. firstStretch (SW\<lparr>fs := lostFs (jsonPrint SL (cacheJSON SL ec)), dbs := Map.empty\<rparr>)
     = (Inr (sampleCA, S, Inl NotExist, ''/d/natssl.db''), midWorld (keysFs (jsonPrint SL (cacheJSON SL ec))) (Some (newStore 0)) 40 t)"
proof -
  have c: "jsonUnmarshal SL zeroCache (cacheOfJSON SL) (encode (cacheJSON SL ec)) = Some ec"
    using cache_roundtrip [of SL ec] rec by (simp add: recoverable_def SL_ops)
  show ?thesis
    using rec [unfolded recoverable_def]
    by (simp add: restore_ops lostConfig_ops c cong: run_blocks
      del: run_off jsonUnmarshal_def RecoveryPublicFromBase64_def recoveryKeyBytes_def LoadCAFromPEM_def split del: if_split)
qed

lemma restore_2:
  "\<exists>t' F. WriteCRL SL clientConfig sampleCA ''/d/natssl.db'' (midWorld (keysFs cache) (Some (newStore 0)) 40 t)
     = (Inr (), midWorld ((keysFs cache)(''/d/root-ca.crl.lock'' \<mapsto> File [] o600, ''/d/root-ca.crl'' \<mapsto> F)) (Some (newStore (1000043 * second))) 55 t')"
  apply (simp add: restore_ops lostConfig_ops cong: run_blocks
      del: run_off jsonUnmarshal_def RecoveryPublicFromBase64_def recoveryKeyBytes_def LoadCAFromPEM_def split del: if_split)
  by blast

lemma restore_3:
  assumes "ecVersion ec = 1" "Verify SL ec sampleRoot = None" "ecSequence ec = 5"
    shows "isInr (bnd (Save SL (promotedConfig clientConfig S ''10.0.0.8'')) (\<lambda>cfg. RebuildEncryptedCache SL cfg sampleCA ''/d/natssl.db'')
  (midWorld ((keysFs (jsonPrint SL (cacheJSON SL ec)))(''/d/root-ca.crl.lock'' \<mapsto> File [] o600, ''/d/root-ca.crl'' \<mapsto> F)) (Some (newStore (1000043 * second))) 55 t))"
proof -
  have c: "jsonUnmarshal SL zeroCache (cacheOfJSON SL) (encode (cacheJSON SL ec)) = Some ec"
    using cache_roundtrip [of SL ec] assms(1) by (simp add: SL_ops)
  let ?cfg = "promotedConfig clientConfig S ''10.0.0.8''"
  have pc: "cfgPath ?cfg = ''/d/config.yaml''" "cachePath ?cfg = ''/d/network-cache.enc''" "RecoveryPublicKey ?cfg = RecoveryPublicKey clientConfig" "DataDir ?cfg = ''/d''"
     by (simp_all add: promotedConfig_def clientConfig_def sampleConfig_def node_path_defs filepathJoin_def filepathClean_def)
  show ?thesis
    by (simp add: restore_ops lostConfig_ops c pc assms cong: run_blocks
      del: run_off jsonUnmarshal_def RecoveryPublicFromBase64_def recoveryKeyBytes_def LoadCAFromPEM_def split del: if_split)
qed

section \<open>The whole run\<close>

lemma sample_restore:
  assumes rec: "recoverable ec S"
  shows "\<exists>x w'. restoreMasterState SL clientConfig recoveryKeyBytes ''10.0.0.8''
    (SW\<lparr>fs := lostFs (jsonPrint SL (cacheJSON SL ec)), dbs := Map.empty\<rparr>) = (Inr x, w')"
proof -
  from restore_1 [OF rec] obtain t where r1: "firstStretch (SW\<lparr>fs := lostFs (jsonPrint SL (cacheJSON SL ec)), dbs := Map.empty\<rparr>)
     = (Inr (sampleCA, S, Inl NotExist, ''/d/natssl.db''), midWorld (keysFs (jsonPrint SL (cacheJSON SL ec))) (Some (newStore 0)) 40 t)"
    by blast
  from restore_2 obtain t' F where r2: "WriteCRL SL clientConfig sampleCA ''/d/natssl.db''
      (midWorld (keysFs (jsonPrint SL (cacheJSON SL ec))) (Some (newStore 0)) 40 t)
    = (Inr (), midWorld ((keysFs (jsonPrint SL (cacheJSON SL ec)))(''/d/root-ca.crl.lock'' \<mapsto> File [] o600, ''/d/root-ca.crl'' \<mapsto> F))
        (Some (newStore (1000043 * second))) 55 t')" by blast
  have "ecVersion ec = 1" "Verify SL ec sampleRoot = None" "ecSequence ec = 5" using rec by (simp_all add: recoverable_def)
  from restore_3 [OF this] obtain u v where r3: "bnd (Save SL (promotedConfig clientConfig S ''10.0.0.8'')) (\<lambda>cfg. RebuildEncryptedCache SL cfg sampleCA ''/d/natssl.db'')
      (midWorld ((keysFs (jsonPrint SL (cacheJSON SL ec)))(''/d/root-ca.crl.lock'' \<mapsto> File [] o600, ''/d/root-ca.crl'' \<mapsto> F))
        (Some (newStore (1000043 * second))) 55 t') = (Inr u, v)" by (rule isInrE)
  show ?thesis
    using r1 r2 r3 by (auto simp: firstStretch_def restoreMasterState_def installMaster_def withLock_def)
qed

lemma portable_sample: "portable SL sampleConfig sampleCA sampleStore"
proof -
  have a: "isASCII (pemEncode SL ''CERTIFICATE'' ''R'')" "isASCII (pemEncode SL ''PRIVATE KEY'' ''k'')"
    "isASCII (pemEncode SL ''CERTIFICATE'' ''I'')" by code_simp+
  show ?thesis by (simp add: portable_def a sampleStore_def sampleConfig_ops caPEM_def SL_ops sampleCA_ops asciiCert_def certRecord_def lostConfig_ops sample_texts ipsToStr_def Let_def stateGet_def getKey_def)
qed

lemma sample_recovers:
  obtains u m' w x w' where "RebuildEncryptedCache SL sampleConfig sampleCA ''/d/natssl.db'' SW = (Inr u, m')"
    "fileBytes (fs w) (cachePath clientConfig) = fileBytes (fs m') (cachePath sampleConfig)"
    "restoreMasterState SL clientConfig recoveryKeyBytes ''10.0.0.8'' w = (Inr x, w')"
proof -
  let ?rk = "\<lparr>Private = recoveryKeyBytes, Public = recoveryKeyBytes\<rparr>"
  have "isInr (RebuildEncryptedCache SL sampleConfig sampleCA ''/d/natssl.db'' SW)"
    by (simp add: run_ops cong: run_blocks del: run_off split del: if_split)
  then obtain u m' where run: "RebuildEncryptedCache SL sampleConfig sampleCA ''/d/natssl.db'' SW = (Inr u, m')" by (rule isInrE)
  have db: "dbs SW ''/d/natssl.db'' = Some sampleStore" by (simp add: SW_def sampleWorld_def)
  have pub: "RecoveryPublicFromBase64 SL (RecoveryPublicKey sampleConfig) = Inr (Public ?rk)" using sample_recovery(2) by simp
  obtain snap ec where *: "fs m' (cachePath sampleConfig) = Some (File (jsonPrint SL (cacheJSON SL ec)) o600)"
    "ecVersion ec = 1" "Verify SL ec (Cert sampleCA) = None"
    "DecryptCache SL ec ?rk = Inr (jsonPrint SL (snapshotJSON SL (publishedSnapshot sampleConfig snap (ecSequence ec))))"
    "snapshotOfStore SL sampleCA sampleStore snap" "dbLevel ''cache_sequence'' ''/d/natssl.db'' m' = uint (ecSequence ec)"
    by (rule Rebuild_Inr [OF run db sampleStore_ok(3) sample_validCA sample_recovery(1) pub]) simp_all
  have "uint (ecSequence ec) = uint (5 :: 64 word)" using *(6) level5 run by simp
  then have seq: "ecSequence ec = 5" by (rule unsigned_word_eqI)
  let ?S = "publishedSnapshot sampleConfig snap 5"
  have rt: "jsonUnmarshal SL zeroSnapshot (snapshotOfJSON SL) (encode (snapshotJSON SL ?S)) = Some ?S"
    using snapshot_roundtrip [OF _ _ portable_snapshot(2,1) [OF portable_sample *(5)], of SL 5] by (simp add: SL_ops)
  have "recoverable ec ?S"
    using *(2-5) seq rt by (simp add: recoverable_def publishedSnapshot_def snapshotOfStore_def sampleStore_def caPEM_def SL_ops sampleCA_ops
        sampleConfig_ops stateGet_def getKey_def)
  from sample_restore [OF this] obtain x w' where
    "restoreMasterState SL clientConfig recoveryKeyBytes ''10.0.0.8'' (SW\<lparr>fs := lostFs (jsonPrint SL (cacheJSON SL ec)), dbs := Map.empty\<rparr>) = (Inr x, w')"
    by blast
  moreover have "fileBytes (lostFs (jsonPrint SL (cacheJSON SL ec))) (cachePath clientConfig) = fileBytes (fs m') (cachePath sampleConfig)"
    using *(1) by (simp add: fileBytes_def lostFs_def clientConfig_ops)
  ultimately show thesis using run by (intro that) auto
qed

end
