(* ===== verification/MainCli.thy ===== *)
theory MainCli
  imports MasterLife Client Promote
begin

text \<open>
  \<^verbatim>\<open>main.go\<close>: the command line. The flags after parsing are a record, what the machine around the process answers
  (host name, probes, trust stores, typed passwords, the port, the build's \<^verbatim>\<open>masterOnly\<close>) is another. \<open>runMain\<close> is
  \<^verbatim>\<open>main\<close>: the configuration, the mode, and the one command that is run; a fatal error is the failure of the program.

  The lemmas: a build for masters runs no code of a client and sends nothing, and no command of the master loses a
  revocation or lowers a counter.
\<close>

record flags =
  fMode :: string
  fBootstrap :: bool
  fPromote :: bool
  fToken :: string
  fConfig :: string
  fIssue :: string
  fReissue :: string
  fRevoke :: string
  fLocalhost :: bool
  fDecryptKey :: string
  fListCerts :: bool
  fListRevoked :: bool
  fListClients :: bool
  fListBlocked :: bool
  fDeregister :: string
  fBlock :: string
  fBlockReason :: string
  fUnblock :: string
  fVersion :: bool

record machine =
  masterOnly :: bool
  hostname :: "error + string"
  probing :: probes
  portFree :: bool
  trustStores :: trustSys
  typed :: "error + string"
  typedAgain :: "error + string"

text \<open>How \<^verbatim>\<open>main\<close> ends or what it goes on with.\<close>

datatype outcome =
    VersionPrinted
  | UsagePrinted
  | Finished
  | KeyPrinted bytes
  | MasterServes "handler \<times> handler \<times> bytes list"
  | ClientServes clientState

definition finish :: "string \<Rightarrow> 'a io \<Rightarrow> outcome io" where
  "finish msg m = bnd (onErr (Wrap msg) m) (\<lambda>_. ret Finished)"

definition masterMain :: "lib \<Rightarrow> machine \<Rightarrow> flags \<Rightarrow> Config \<Rightarrow> outcome io" where
  "masterMain L M f cfg =
     (if fBootstrap f then finish ''bootstrap failed'' (RunBootstrap L cfg)
      else if fIssue f \<noteq> '''' then finish ''issue failed'' (RunIssueCLI L cfg (fIssue f) (fLocalhost f))
      else if fReissue f \<noteq> '''' then finish ''reissue failed'' (RunReissueCert L cfg (fReissue f) (fLocalhost f))
      else if fRevoke f \<noteq> '''' then finish ''revoke failed'' (RunRevokeCert L cfg (fRevoke f))
      else if fListCerts f then finish ''list-certs failed'' (RunListCerts cfg)
      else if fListRevoked f then finish ''list-revoked failed'' (RunListRevoked cfg)
      else if fListClients f then finish ''list-clients failed'' (RunListClients cfg)
      else if fListBlocked f then finish ''list-blocked failed'' (RunListBlocked cfg)
      else if fDeregister f \<noteq> '''' then finish ''deregister failed'' (RunDeregisterClient L cfg (fDeregister f))
      else if fBlock f \<noteq> '''' then finish ''block failed'' (RunBlockClient L cfg (fBlock f) (fBlockReason f))
      else if fUnblock f \<noteq> '''' then finish ''unblock failed'' (RunUnblockClient L cfg (fUnblock f))
      else bnd (onErr (Wrap ''master failed'') (RunMaster L (hostname M) (localIPv4s (probing M)) cfg)) (\<lambda>m.
        ret (MasterServes m)))"

definition clientMain :: "lib \<Rightarrow> machine \<Rightarrow> flags \<Rightarrow> Config \<Rightarrow> outcome io" where
  "clientMain L M f cfg =
     (if fPromote f then
        (if fToken f = '''' then throw (Msg ''--promote-to-master requires --token'')
         else bnd (onErr (Wrap ''PROMOTE BLOCKED'') (RunPromote L (masterOnly M) (probing M) (hostname M) cfg (fToken f))) (\<lambda>m.
           ret (MasterServes m)))
      else if fDecryptKey f \<noteq> '''' then
        bnd (onErr (Wrap ''decrypt failed'') (RunDecryptKey L (typed M) (fDecryptKey f))) (\<lambda>k. ret (KeyPrinted k))
      else if fIssue f \<noteq> '''' then
        finish ''issue failed'' (RunClientIssue L (masterOnly M) (typed M) (typedAgain M) cfg (fIssue f))
      else bnd (onErr (Wrap ''client failed'') (RunClient L (masterOnly M) (portFree M) (trustStores M) cfg)) (\<lambda>cs.
        ret (ClientServes cs)))"

text \<open>The configuration: a missing file is replaced by the defaults when a network is created.\<close>

definition mainConfig :: "lib \<Rightarrow> flags \<Rightarrow> Config io" where
  "mainConfig L f =
     bnd (attempt (LoadConfig L (fConfig f))) (\<lambda>r.
     case r of
       Inr cfg \<Rightarrow> ret cfg
     | Inl e \<Rightarrow>
         if \<not> fBootstrap f \<or> e \<noteq> NotExist then throw (Wrap ''config'' e)
         else ret (DefaultConfig\<lparr>cfgPath := fConfig f\<rparr>))"

definition runMain :: "lib \<Rightarrow> machine \<Rightarrow> flags \<Rightarrow> outcome io" where
  "runMain L M f =
     (if masterOnly M \<and> ((fMode f \<noteq> '''' \<and> fMode f \<noteq> ''master'') \<or> fPromote f \<or> fDecryptKey f \<noteq> '''') then
        throw (Msg ''master-only build: client mode, promotion and client key decryption are disabled'')
      else if fVersion f then ret VersionPrinted
      else
      bnd (mainConfig L f) (\<lambda>cfg.
      if masterOnly M \<and> Mode cfg \<noteq> ''master'' then throw (Msg ''master-only build: config mode must be master'')
      else
      let mode = (if fMode f = '''' then Mode cfg else fMode f) in
      if mode = ''master'' then masterMain L M f cfg
      else if mode = ''client'' then clientMain L M f cfg
      else ret UsagePrinted))"

section \<open>Lemmas\<close>

lemma guar_finish [guar_intros]: "preord R \<Longrightarrow> guar R m \<Longrightarrow> guar R (finish msg m)"
  unfolding finish_def by (auto intro!: guar_intros)

lemma guar_LoadConfig [guar_intros]: "quiet R \<Longrightarrow> guar R (LoadConfig L p)"
  unfolding LoadConfig_def Let_def by (auto intro!: guar_intros)

lemma guar_mainConfig [guar_intros]: "quiet R \<Longrightarrow> guar R (mainConfig L f)"
  unfolding mainConfig_def by (auto intro!: guar_intros)

text \<open>A relation the commands of the master keep is kept by \<open>masterMain\<close>.\<close>

definition bootRel :: "lib \<Rightarrow> (world \<Rightarrow> world \<Rightarrow> bool) \<Rightarrow> bool" where
  "bootRel L R \<longleftrightarrow> (\<forall>cfg. adminRel L cfg R) \<and> (\<forall>cfg. guar R (RunBootstrap L cfg))"

lemma guar_masterMain:
  assumes "bootRel L R"
  shows "guar R (masterMain L M f cfg)"
proof -
  have a: "adminRel L cfg R" and b: "guar R (RunBootstrap L cfg)" using assms by (simp_all add: bootRel_def)
  have u: "guar R (UnblockIP (dbPath cfg) ip)" for ip using a by (simp add: adminRel_def)
  have p: "preord R" using adminRelD [OF a] by (auto simp: adminBase_def)
  note run = guar_admin [OF adminRelD [OF a]] guar_RunMaster [OF adminRelD [OF a]]
  show ?thesis unfolding masterMain_def
    by (intro guar_if guar_finish guar_bnd guar_onErr guar_ret run u b p)
qed

text \<open>A build for masters is a master.\<close>

lemma masterOnly_runs:
  assumes "masterOnly M"
  shows "runMain L M f = throw (Msg ''master-only build: client mode, promotion and client key decryption are disabled'')
    \<or> runMain L M f = ret VersionPrinted
    \<or> runMain L M f = bnd (mainConfig L f) (\<lambda>cfg.
        if Mode cfg \<noteq> ''master'' then throw (Msg ''master-only build: config mode must be master'')
        else masterMain L M f cfg)"
  using assms by (auto simp: runMain_def Let_def intro!: arg_cong [of _ _ "bnd _"])

lemma guar_RunBootstrap:
  assumes "fileBlind R" "\<And>p. guar R (OpenStore p)" "\<And>st c. guar R (AddClient st c)" "\<And>cfg ca st. guar R (WriteCRL L cfg ca st)"
    "\<And>cfg ca st. guar R (RebuildEncryptedCache L cfg ca st)"
  shows "guar R (RunBootstrap L cfg)"
proof -
  have q: "quiet R" "preord R" using assms(1) by simp_all
  show ?thesis unfolding RunBootstrap_def createNetwork_def using assms q by (auto intro!: guar_intros blind_intros)
qed

lemma bootRel_grows: "bootRel L (storeRel grows)"
  by (auto simp: bootRel_def adminRel_grows intro!: guar_RunBootstrap rel_intros)

lemma bootRel_wf: "bootRel L (keepsP (dbInv wf_store))"
  by (auto simp: bootRel_def adminRel_wf intro!: guar_RunBootstrap inv_intros)

lemma blind_sent [simp]: "fileBlind (same sent)" "dbBlind (same sent)"
  by (simp_all add: fileBlind_def dbBlind_def quiet_def same_def preord_def reflp_def transp_def)

lemma bootRel_sent: "bootRel L (same sent)"
proof -
  have n: "guar (same sent) (nextCacheSequence st)" "guar (same sent) (nextCRLNumber st k)" "guar (same sent) (raiseSequence L ca st prev)"
    "guar (same sent) (BuildSnapshot L st ca)" for st k ca prev
    by (auto simp: raiseSequence_def sqlExec_def BuildSnapshot_def intro!: guar_intros db_intros)
  have p: "guar (same sent) (RebuildEncryptedCache L cfg ca st)" "guar (same sent) (WriteCRL L cfg ca st)" for cfg ca st
    unfolding RebuildEncryptedCache_def Let_def WriteFile_def by (auto intro!: guar_intros blind_intros n guar_WriteCRL)
  have "adminRel L cfg (same sent)" for cfg
    by (auto simp: adminRel_def adminBase_def masterRel_def p replaceCertificate_def sqlExec_def Let_def
        intro!: db_intros guar_intros guar_refreshCRL n)
  then show ?thesis by (auto simp: bootRel_def intro!: guar_RunBootstrap db_intros p)
qed

lemma masterMain_outcome:
  "masterMain L M f cfg w = (Inr x, w') \<Longrightarrow> x = Finished \<or> (\<exists>m. x = MasterServes m)"
  by (auto simp: masterMain_def finish_def split: if_splits)

text \<open>A network is created only where there is no root key.\<close>

lemma bootstrap_refused:
  assumes key: "fs w (caKeyPath cfg) \<noteq> None" and run: "RunBootstrap L cfg w = (r, w')"
  shows "(\<exists>e. r = Inl e) \<and> dbs w' = dbs w \<and> (\<forall>p. fs w p \<noteq> None \<longrightarrow> fs w' p = fs w p)"
proof -
  obtain x w0 where mk: "osMkdirAll (DataDir cfg) o700 w = (x, w0)" by (cases "osMkdirAll (DataDir cfg) o700 w")
  have k0: "keepsAt p w w0" for p using guar_osMkdirAll_keepsAt mk by (rule guarD)
  have "guar (same dbs) (osMkdirAll (DataDir cfg) o700)" by (auto intro!: blind_intros)
  then have d0: "dbs w0 = dbs w" using mk by (rule guar_sameD)
  show ?thesis
  proof (cases x)
    case (Inl e)
    with run mk have "r = Inl e" "w' = w0" by (auto simp: RunBootstrap_def)
    with k0 d0 show ?thesis by (auto simp: keepsAt_def)
  next
    case (Inr u)
    from run [unfolded RunBootstrap_def] Inr
    have "withLock (caKeyPath cfg @ ''.bootstrap.lock'') (
     bnd (attempt (osStat (caKeyPath cfg))) (\<lambda>k.
     case k of
       Inr _ \<Rightarrow> throw (Msg ''Root CA key already exists'')
     | Inl e \<Rightarrow> if e \<noteq> NotExist then throw e else bnd (attempt (osStat (caCertPath cfg))) (\<lambda>c.
         case c of Inr _ \<Rightarrow> throw (Msg ''Root CA already exists'') | Inl _ \<Rightarrow> createNetwork L cfg))) w0 = (r, w')"
      using mk by (simp only: run_bnd_Inr)
    then show ?thesis
    proof (cases rule: withLock_cases)
      case (locked_out e)
      have "keepsAt p w0 w'" for p using guar_lock_keepsAt(1) locked_out(2) by (rule guarD)
      with k0 d0 locked_out lockFile_dbs show ?thesis by (auto simp: keepsAt_def)
    next
      case (ran w1 w2)
      have k1: "keepsAt p w0 w1" for p using guar_lock_keepsAt(1) ran(1) by (rule guarD)
      obtain s w3 where s: "osStat (caKeyPath cfg) w1 = (s, w3)" by (cases "osStat (caKeyPath cfg) w1")
      have "fs w1 (caKeyPath cfg) \<noteq> None" using k0 k1 key by (auto simp: keepsAt_def)
      then have "s \<noteq> Inl NotExist" using s by (rule osStat_exists)
      with ran(2) s have "(\<exists>e. r = Inl e) \<and> w2 = w3"
        by (cases s) (auto simp: bnd_def run_attempt split: if_splits)
      with osStat_quiet [OF s] ran(3) k0 k1 d0 lockFile_dbs [OF ran(1)] show ?thesis by (auto simp: keepsAt_def)
    qed
  qed
qed

end
