(* ===== verification/Spec2Isabelle.thy ===== *)
theory Spec2Isabelle
  imports RecoverySample MainCli
begin

text \<open>
  NATSSL is a private certificate authority for the loopback names and the addresses of a closed network. One node is the
  master: it holds the root key, enrols clients, signs their requests, revokes, and publishes an encrypted copy of its
  state. The other nodes are clients: they keep the root certificate, the encrypted copy and the revocation list, ask for
  certificates for their own loopback names, and one of them can become the master with the 24 recovery words when the
  master is lost. This development models the program and proves what makes it correct. Names of definitions are the names
  of the source wherever Isabelle allows it.

  \<^bold>\<open>How code becomes a definition.\<close> A Go function that fails or acts on its node is a program (theory \<open>Prelude\<close>): a function
  from a \<open>world\<close> to a result, \<open>Inl\<close> an error or \<open>Inr\<close> a value, and the next \<open>world\<close>. Early returns, deferred calls and ignored
  errors are \<open>bnd\<close>, \<open>deferred\<close> and \<open>attempt\<close>; a Go panic is the error \<open>Panic\<close>. The \<open>world\<close> (theory \<open>World\<close>) has the files with a
  record of every state they went through, the databases, the held locks, the log, the requests sent, and what the
  environment will do: \<open>faults\<close> decides for every call of the system whether it fails, \<open>clock\<close>, \<open>rnd\<close> and \<open>net\<close> are the answers
  of the clock, the random source and the network by position. Every theorem is about all of these unless it says that
  nothing fails (\<open>noFaults\<close>). Code that is not in the repository (ciphers, signatures, X.509, PEM, YAML and JSON texts, the word
  list) is the record \<open>golib\<close> of theory \<open>GoLib\<close>, an argument \<open>L\<close> of the definitions; what a theorem needs of it is a named
  hypothesis that states documented behaviour (\<open>pemOk\<close>, \<open>jsonOk\<close>, \<open>gcmOk\<close>, \<open>boxOk\<close>, \<open>ecdsaOk\<close>, \<open>x509Ok\<close>, \<open>crlOk\<close>, \<open>bip39Ok\<close>, \<open>base64Ok\<close>,
  \<open>pkcs8Ok\<close>, \<open>timeTextOk\<close>, \<open>randomOk\<close>, \<open>rawOk\<close>). Theory \<open>Samples\<close> has an instance that satisfies all of them, on which the concrete cases
  after the theorems are evaluated. There is no fuel: all recursion is structural or has a termination proof, and the daemon,
  which runs for ever, is a step relation.

  \<^bold>\<open>The parts, their theories and what is shown.\<close>

  \<^item> \<open>GoStrings\<close>, \<open>NetAddr\<close>: what the program uses of \<^verbatim>\<open>strings\<close>, \<^verbatim>\<open>math/big\<close>, \<^verbatim>\<open>path/filepath\<close> and \<^verbatim>\<open>net\<close> (addresses, networks, their
    parsing and printing at the level of bytes). Printing and parsing addresses are inverse; a network contains an address
    exactly when the prefixes of the bits agree.

  \<^item> \<open>World\<close>: \<^verbatim>\<open>files.go\<close> (\<open>atomicWriteFile\<close>, \<open>lockFile\<close>, \<open>readBounded\<close>) and the calls of the operating system. A file is replaced in one
    step on every path through the failures.

  \<^item> \<open>Config\<close>: \<^verbatim>\<open>config.go\<close>. Defaults, validation, the paths of a node and that they differ, client networks.

  \<^item> \<open>Tables\<close>, \<open>Store\<close>: \<^verbatim>\<open>store.go\<close>. The five tables as lists of rows with the effect of every SQL statement (locale \<open>keyed_table\<close>,
    interpreted for four tables), the methods with transactions and rollback, snapshots, their JSON form and restoring
    them. Well-formedness is kept by every method; counters only grow (locale \<open>counter\<close>, interpreted for the cache sequence
    and the number of the revocation list, at the widths of the code).

  \<^item> \<open>CertAuthority\<close>: \<^verbatim>\<open>ca.go\<close>. Key pair, issuance, signing of requests, names, the files of an issued pair.

  \<^item> \<open>Recovery\<close>: \<^verbatim>\<open>recovery.go\<close>. The words, the key pair, sealing.

  \<^item> \<open>NetTrust\<close>: \<^verbatim>\<open>netutil.go\<close>. Root certificates, fingerprints, the pin, the check of the master's chain.

  \<^item> \<open>Cache\<close>, \<open>Crl\<close>: \<^verbatim>\<open>cache.go\<close>, \<^verbatim>\<open>crl.go\<close> and \<open>RebuildEncryptedCache\<close> of \<^verbatim>\<open>server.go\<close>. Publishing and accepting the encrypted cache and the
    revocation list; the clients' copies are two instances of the locale \<open>acceptor\<close>: an offer is refused with the copy untouched or
    installed with a version that is not lower.

  \<^item> \<open>Server\<close>: \<^verbatim>\<open>server.go\<close>. All HTTP handlers of both listeners, the gate of the control plane, bootstrap, and the start of the master up to
    its listeners.

  \<^item> \<open>Admin\<close>: \<^verbatim>\<open>admin.go\<close> and the issue command of \<^verbatim>\<open>ca.go\<close>. Every command of the administrator; addresses and serials have one spelling (locale
    \<open>canonical\<close>, interpreted for both).

  \<^item> \<open>MasterLife\<close>, \<open>AccessSpec\<close>: the life of a master as a sequence of requests, commands and restarts, and the abstract specification it refines:
    who is registered, blocked, revoked and named by certificates, and which event may change it.

  \<^item> \<open>ClientIssue\<close>: \<^verbatim>\<open>client_issue.go\<close>. Certificates for the client's own loopback names and the encryption of their keys.

  \<^item> \<open>Migrate\<close>: \<^verbatim>\<open>migrate.go\<close>. Signed packets that name a new master, their receiver and their application.

  \<^item> \<open>Install\<close>: \<^verbatim>\<open>install.go\<close>. The root certificate in the trust stores of the system and of Firefox.

  \<^item> \<open>Client\<close>: \<^verbatim>\<open>client.go\<close>, \<^verbatim>\<open>register.go\<close>, \<^verbatim>\<open>identity.go\<close>. Enrolment, registration, pulls and the event loop with the channel of waiting packets, as
    the step relation \<open>clientStep\<close>.

  \<^item> \<open>NetCheck\<close>, \<open>Promote\<close>: \<^verbatim>\<open>netcheck.go\<close>, \<^verbatim>\<open>promote.go\<close>. The probes of the old master, recovery of the master's state from the encrypted cache,
    the announcement.

  \<^item> \<open>MainCli\<close>: \<^verbatim>\<open>main.go\<close> with \<^verbatim>\<open>build_full.go\<close> and \<^verbatim>\<open>build_master.go\<close>. From the flags to the command, for both builds.

  \<^item> \<open>MasterProperties\<close>, \<open>ClientProperties\<close> and this theory: the properties, each with a concrete case; \<open>RecoverySample\<close> evaluates a whole
    recovery for one of them.

  \<^bold>\<open>What the properties say.\<close> Of the master: who passes the gate, that enrolment gives exactly that, that a revocation is for ever and a
  blocked client stays out, that every life refines the access specification, that what it publishes can be recovered, is complete
  and is newer than all before, and what each command does. Of the client: that it follows only packets of its root, in order, talks only
  to pinned masters, never goes back and never gets stuck. Across both, in this theory: that recovery gives back the authority and
  the tables, that promotion needs a silent old master, that no existing root key is overwritten, that the announcements of
  a new master are believed by the clients, and that a build for masters is only that.

  \<^bold>\<open>Bounds.\<close> Sequence numbers are 64-bit words and SQLite integers are bounded by \<open>maxInteger\<close>; the code's conversions between them fail
  or wrap as in the source (\<open>sqlUint\<close>, \<open>scanUint\<close>, \<open>int64\<close>). Bodies are bounded by \<open>maxBody\<close> (1 MiB), waiting packets by \<open>changesCap\<close> (8), a line of
  the ARP table by \<open>maxToken\<close> (64 KiB).

  \<^bold>\<open>Not modelled.\<close> The TLS and HTTP transport (sockets, handshakes, time-outs, redirects, listeners after their start): a request is a record
  with the verified chain, an answer of the network is given by the environment. Interleaving inside a request: operations of the
  master are whole steps of a life. What external tools do to the system's own stores; the terminal; the text of usage messages, logs and
  errors beyond what the code inspects; the layout of printed tables. The functions \<^verbatim>\<open>tcpHealthy\<close> and \<^verbatim>\<open>shorten\<close> of \<^verbatim>\<open>netutil.go\<close>
  and \<^verbatim>\<open>StartRegistrationLoop\<close> of \<^verbatim>\<open>register.go\<close>, which nothing calls. The tests, the container and Ansible files and the packaging scripts of
  the repository.
\<close>

section \<open>Recovery\<close>

text \<open>C5: Recovery. A master published its cache from a well-formed database; a client that has this file restores the master's state
  with the recovery words. When that succeeds, the authority is the old one, its key pair on the client's disk loads as
  such, the clients to be told are the registered ones, and the new database has the old clients, certificates,
  revocations and blocked addresses. The database is one whose texts survive the JSON form (\<open>portable\<close>).\<close>

theorem recovery_end_to_end:
  assumes "RebuildEncryptedCache L mcfg ca st m = (Inr u, m')" "dbs m st = Some s" "seqOk s" "wf_store s"
    "validCA L ca" "portable L mcfg ca s"
    "RecoveryFromMnemonic L (TrimSpace words) = Inr rk" "RecoveryPublicFromBase64 L (RecoveryPublicKey mcfg) = Inr (Public rk)"
    "fileBytes (fs w) (cachePath cfg) = fileBytes (fs m') (cachePath mcfg)"
    "restoreMasterState L cfg words newIP w = (Inr (ca', clients, cfg'), w')" "configApart cfg"
    "boxOk L" "gcmOk L" "randomOk L" "ecdsaOk L" "jsonOk L" "timeTextOk L" "base64Ok L" "pemOk L" "pkcs8Ok L"
  shows "ca' = ca \<and> set clients = clientKeys s
    \<and> LoadCAFromPEM L (the (fileBytes (fs w') (caCertPath cfg))) (the (fileBytes (fs w') (caKeyPath cfg))) = Inr ca
    \<and> (\<exists>s'. dbs w' (dbPath cfg) = Some s' \<and> recovered s s')"
  by (rule recovery_works [OF assms])

theorem recovery_end_to_end_witness:
  "\<exists>w clients cfg' w' s'. restoreMasterState SL clientConfig recoveryKeyBytes ''10.0.0.8'' w = (Inr (sampleCA, clients, cfg'), w')
     \<and> set clients = {''10.0.0.7''} \<and> dbs w' ''/d/natssl.db'' = Some s' \<and> revokedKeys s' = {''cd''} \<and> blockedKeys s' = {''10.0.0.9''}"
proof -
  obtain u m' w x w' where run: "RebuildEncryptedCache SL sampleConfig sampleCA ''/d/natssl.db'' SW = (Inr u, m')"
    "fileBytes (fs w) (cachePath clientConfig) = fileBytes (fs m') (cachePath sampleConfig)"
    "restoreMasterState SL clientConfig recoveryKeyBytes ''10.0.0.8'' w = (Inr x, w')" by (rule sample_recovers)
  obtain ca' clients cfg' where x: "x = (ca', clients, cfg')" by (cases x)
  have db: "dbs SW ''/d/natssl.db'' = Some sampleStore" by (simp add: SW_def sampleWorld_def)
  have rk: "RecoveryFromMnemonic SL (TrimSpace recoveryKeyBytes) = Inr \<lparr>Private = recoveryKeyBytes, Public = recoveryKeyBytes\<rparr>"
    "RecoveryPublicFromBase64 SL (RecoveryPublicKey sampleConfig) = Inr (Public \<lparr>Private = recoveryKeyBytes, Public = recoveryKeyBytes\<rparr>)"
    using words_ops sample_recovery(2) by simp_all
  have apart: "configApart clientConfig" by (simp add: configApart_def clientConfig_ops) code_simp
  from recovery_end_to_end [OF run(1) db sampleStore_ok(3,1) sample_validCA portable_sample rk run(2) run(3) [unfolded x] apart]
  have "ca' = sampleCA \<and> set clients = clientKeys sampleStore \<and> (\<exists>s'. dbs w' (dbPath clientConfig) = Some s' \<and> recovered sampleStore s')"
    by simp
  then obtain s' where "ca' = sampleCA" "set clients = {''10.0.0.7''}" "dbs w' ''/d/natssl.db'' = Some s'"
    "revokedKeys s' = {''cd''}" "blockedKeys s' = {''10.0.0.9''}"
    by (auto simp: recovered_def sampleStore_keys lostConfig_ops)
  with run(3) x show ?thesis by blast
qed

section \<open>Promotion\<close>

text \<open>C6: Promotion needs a silent master. Unless every probe came back negative (no connection to either port, the name
  resolves, no address of it answers a ping or has a resolved ARP entry, none is a loopback address or one of this
  node's), and this is no build for masters, a promotion fails without having changed anything. The address of the new master is then the
  canonical spelling of an IPv4 address of an interface that is up.\<close>

theorem promotion_only_without_a_master:
  assumes "RunPromote L mo P name cfg words w = (r, w')" "w' \<noteq> w \<or> (\<exists>x. r = Inr x)"
  shows "\<not> mo \<and> (\<exists>newIP v4. promotionChecks P cfg = Inr newIP \<and> oldMasterGone P cfg newIP \<and> hasIPv4 P v4
    \<and> ParseIP newIP = Some (as16 v4) \<and> \<not> IsLoopback (as16 v4))"
proof -
  from assms obtain newIP where n: "\<not> mo" "promotionChecks P cfg = Inr newIP" "oldMasterGone P cfg newIP" by (rule RunPromote_gone)
  then obtain mine where "localIPv4s P = Inr (newIP # mine)" by (auto simp: oldMasterGone_def)
  from localIPv4s_parse [OF this, of newIP] n show ?thesis by auto
qed

definition sampleProbes :: probes where
  "sampleProbes = \<lparr>dialTCP = (\<lambda>_. False), LookupIP = (\<lambda>_. Inr [as16 [10, 0, 0, 1]]), LookPing = Inr (), runPing = (\<lambda>_. CmdExit 1),
     arpTable = None, Interfaces = Inr [\<lparr>Flags = 5, Addrs = Inr [IPNetAddr [127, 0, 0, 1]]\<rparr>,
       \<lparr>Flags = 1, Addrs = Inr [IPNetAddr [10, 0, 0, 8]]\<rparr>]\<rparr>"

lemma sample_checks: "promotionChecks sampleProbes clientConfig = Inr ''10.0.0.8''"
proof -
  have a: "host ''10.0.0.1'' = ''10.0.0.1''" "ParseIP ''10.0.0.8'' = Some (as16 [10, 0, 0, 8])"
    "\<not> ipEqual (as16 [10, 0, 0, 1]) (as16 [10, 0, 0, 8])" "\<not> IsLoopback (as16 [10, 0, 0, 1])"
    "localIPv4s sampleProbes = Inr [''10.0.0.8'']"
    by code_simp+
  have p: "\<not> dialTCP sampleProbes x" "LookupIP sampleProbes x = Inr [as16 [10, 0, 0, 1]]" "probeICMP sampleProbes x = Inr False"
    "\<not> arpKnown sampleProbes x" for x
    by (simp_all add: sampleProbes_def probeICMP_def arpKnown_def)
  show ?thesis by (simp add: promotionChecks_def a p clientConfig_ops sameAddress_def)
qed

theorem promotion_only_without_a_master_witness:
  "\<exists>r w'. RunPromote SL False sampleProbes (Inr ''h'') clientConfig recoveryKeyBytes SW = (r, w') \<and> w' \<noteq> SW
     \<and> oldMasterGone sampleProbes clientConfig ''10.0.0.8''"
proof -
  obtain r w' where run: "RunPromote SL False sampleProbes (Inr ''h'') clientConfig recoveryKeyBytes SW = (r, w')"
    by (cases "RunPromote SL False sampleProbes (Inr ''h'') clientConfig recoveryKeyBytes SW")
  have "step (snd (RunPromote SL False sampleProbes (Inr ''h'') clientConfig recoveryKeyBytes SW)) \<noteq> step SW"
    by (simp add: RunPromote_def sample_checks restoreMasterState_def checkedSnapshot_def openCache_def words_ops lostConfig_ops
       run_ops client_ops cong: run_blocks del: run_off RecoveryPublicFromBase64_def recoveryKeyBytes_def LoadCAFromPEM_def split del: if_split)
  with run have "w' \<noteq> SW" by auto
  with promotion_only_without_a_master [OF run] run sample_checks show ?thesis by auto
qed



text \<open>C19: An existing root key is kept. Where the key file is there, creating a network and promoting the node both fail, every file
  that was there is as before and so are the databases, whatever else fails.\<close>

theorem existing_root_key_is_kept:
  assumes "fs w (caKeyPath cfg) \<noteq> None" "RunBootstrap L cfg w = (r, w')" "RunPromote L mo P name cfg words w = (x, v)"
  shows "(\<exists>e. r = Inl e) \<and> dbs w' = dbs w \<and> (\<forall>p. fs w p \<noteq> None \<longrightarrow> fs w' p = fs w p)
    \<and> (\<exists>e. x = Inl e) \<and> dbs v = dbs w \<and> (\<forall>p. fs w p \<noteq> None \<longrightarrow> fs v p = fs w p)"
  using bootstrap_refused [OF assms(1,2)] RunPromote_refused [OF assms(1,3)] by blast

theorem existing_root_key_is_kept_witness:
  "\<exists>e w' e' v. RunBootstrap SL sampleConfig SW = (Inl e, w') \<and> fs w' ''/d/root-ca.key'' = fs SW ''/d/root-ca.key'' \<and> dbs w' = dbs SW
     \<and> RunPromote SL False sampleProbes (Inr ''h'') sampleConfig recoveryKeyBytes SW = (Inl e', v) \<and> fs v ''/d/root-ca.key'' = fs SW ''/d/root-ca.key''"
proof -
  obtain r w' where run: "RunBootstrap SL sampleConfig SW = (r, w')" by (cases "RunBootstrap SL sampleConfig SW")
  obtain x v where run': "RunPromote SL False sampleProbes (Inr ''h'') sampleConfig recoveryKeyBytes SW = (x, v)"
    by (cases "RunPromote SL False sampleProbes (Inr ''h'') sampleConfig recoveryKeyBytes SW")
  have key: "fs SW (caKeyPath sampleConfig) \<noteq> None" by (simp add: SW_def sampleWorld_def sampleFs_def sampleConfig_ops)
  from existing_root_key_is_kept [OF key run run'] key run run' show ?thesis by (auto simp: sampleConfig_ops)
qed

text \<open>C20: Announcements are believed. Every request the new master sends carries a packet that names its address, and every client whose
  root is the network's accepts the packet's signature.\<close>

theorem announcements_are_believed:
  assumes "broadcastMigration L ca newIP clients w = (r, w')" "validCA L ca" "isASCII newIP"
    "ecdsaOk L" "jsonOk L" "timeTextOk L" "base64Ok L"
  shows "\<exists>new. sent w' = sent w @ new \<and> (\<forall>req \<in> set new. \<exists>pkt.
     jsonUnmarshal L zeroPacket (packetOfJSON L) (outBody req) = Some pkt \<and> NewMasterIP pkt = newIP
     \<and> (\<forall>cfg v. noFaults v \<and> rootIn L cfg (fs v) = Some (Cert ca) \<longrightarrow> (\<exists>v'. verifyMigrationSig L cfg pkt v = (Inr (), v'))))"
proof -
  have "sendsOnly (announces L ca newIP) w w'" using broadcast_sends [OF assms(4)] assms(1) by (rule guarD)
  then obtain new where new: "sent w' = sent w @ new" "list_all (announces L ca newIP) new" by (auto simp: sendsOnly_def)
  have "\<exists>pkt. jsonUnmarshal L zeroPacket (packetOfJSON L) (outBody req) = Some pkt \<and> NewMasterIP pkt = newIP
     \<and> (\<forall>cfg v. noFaults v \<and> rootIn L cfg (fs v) = Some (Cert ca) \<longrightarrow> (\<exists>v'. verifyMigrationSig L cfg pkt v = (Inr (), v')))"
    if "req \<in> set new" for req
  proof -
    from that new(2) obtain pkt where p: "outBody req = jsonPrint L (packetJSON L pkt)" "NewMasterIP pkt = newIP"
      "verifyASN1 L (publicOf L (Key ca)) (migrationDigest L pkt) (mpSignature pkt)" by (auto simp: list_all_iff announces_def)
    from p packet_roundtrip [OF assms(7,6,5), of pkt] assms(3) verifyMigrationSig_works [OF announced_signed [OF p(3) _ assms(2)]]
    show ?thesis by (auto intro!: exI [of _ pkt])
  qed
  with new(1) show ?thesis by blast
qed

theorem announcements_are_believed_witness:
  "\<exists>r w' req pkt v'. broadcastMigration SL sampleCA ''10.0.0.8'' [''10.0.0.7''] (onlineWorld sampleFs ''ok'') = (r, w') \<and> sent w' = [req]
     \<and> jsonUnmarshal SL zeroPacket (packetOfJSON SL) (outBody req) = Some pkt \<and> verifyMigrationSig SL clientConfig pkt SW = (Inr (), v')"
proof -
  let ?run = "broadcastMigration SL sampleCA ''10.0.0.8'' [''10.0.0.7''] (onlineWorld sampleFs ''ok'')"
  obtain r w' where run: "?run = (r, w')" by (cases ?run)
  have "host ''10.0.0.7'' = ''10.0.0.7''" by code_simp
  then have "length (sent (snd ?run)) = 1" "sent (onlineWorld sampleFs ''ok'') = []"
    by (simp_all add: broadcastMigration_def deliver_def netReceive_def sendTo_def onlineWorld_def run_ops cong: run_blocks del: run_off split del: if_split)
  with run have one: "length (sent w') = 1" and none: "sent (onlineWorld sampleFs ''ok'') = []" by auto
  have "isASCII ''10.0.0.8''" by code_simp
  with announcements_are_believed [OF run sample_validCA] none have
    "\<forall>req \<in> set (sent w'). \<exists>pkt. jsonUnmarshal SL zeroPacket (packetOfJSON SL) (outBody req) = Some pkt
      \<and> (\<forall>cfg v. noFaults v \<and> rootIn SL cfg (fs v) = Some sampleRoot \<longrightarrow> (\<exists>v'. verifyMigrationSig SL cfg pkt v = (Inr (), v')))"
    by (auto simp: sampleCA_ops)
  with one run SW_root show ?thesis by (fastforce simp: length_Suc_conv)
qed

section \<open>The build for masters\<close>

text \<open>C21: A build for masters is a master. Whatever its flags and its configuration, it sends no request, does not become a client, prints no
  client key, keeps the databases well-formed and loses no revocation and no progress of a counter.\<close>

theorem master_only_build:
  assumes "masterOnly M" "runMain L M f w = (r, w')"
  shows "sent w' = sent w \<and> storeRel grows w w' \<and> (dbInv wf_store w \<longrightarrow> dbInv wf_store w')
     \<and> (\<forall>cs. r \<noteq> Inr (ClientServes cs)) \<and> (\<forall>k. r \<noteq> Inr (KeyPrinted k))"
proof -
  have g: "guar R (runMain L M f)" if "bootRel L R" "quiet R" for R
    using masterOnly_runs [OF assms(1), of L f] guar_masterMain [OF that(1), of M f] that(2)
    by (auto intro!: guar_intros)
  have "r \<noteq> Inr (ClientServes cs)" "r \<noteq> Inr (KeyPrinted k)" for cs k
    using masterOnly_runs [OF assms(1), of L f] assms(2) masterMain_outcome [of L M f]
    by (fastforce split: if_splits)+
  moreover have "sent w' = sent w" using g [OF bootRel_sent] assms(2) by (auto dest: guar_sameD)
  moreover have "storeRel grows w w'" using g [OF bootRel_grows] assms(2) by (auto dest: guarD)
  moreover have "dbInv wf_store w \<longrightarrow> dbInv wf_store w'" using g [OF bootRel_wf] assms(2) by (auto simp: keepsP_def dest: guarD)
  ultimately show ?thesis by blast
qed

definition sampleMachine :: machine where
  "sampleMachine = \<lparr>masterOnly = True, hostname = Inr ''h'', probing = sampleProbes, portFree = True, trustStores = sampleSys,
     typed = Inr [], typedAgain = Inr []\<rparr>"

definition listFlags :: flags where
  "listFlags = \<lparr>fMode = [], fBootstrap = False, fPromote = False, fToken = [], fConfig = ''/d/config.yaml'', fIssue = [], fReissue = [],
     fRevoke = [], fLocalhost = False, fDecryptKey = [], fListCerts = False, fListRevoked = False, fListClients = True,
     fListBlocked = False, fDeregister = [], fBlock = [], fBlockReason = [], fUnblock = [], fVersion = False\<rparr>"

theorem master_only_build_witness:
  "\<exists>w'. runMain SL sampleMachine listFlags
       (SW\<lparr>fs := sampleFs(''/d/config.yaml'' \<mapsto> File ''y'' o600), dbs := [''/var/lib/natssl/natssl.db'' \<mapsto> sampleStore]\<rparr>) = (Inr Finished, w')
     \<and> sent w' = []"
proof -
  let ?w = "SW\<lparr>fs := sampleFs(''/d/config.yaml'' \<mapsto> File ''y'' o600), dbs := [''/var/lib/natssl/natssl.db'' \<mapsto> sampleStore]\<rparr>"
  have "case fst (runMain SL sampleMachine listFlags ?w) of Inl e \<Rightarrow> False | Inr x \<Rightarrow> x = Finished"
    by (simp add: runMain_def sampleMachine_def listFlags_def mainConfig_def LoadConfig_def masterMain_def fillDefaults_def DefaultConfig_def
      RunListClients_def finish_def run_ops cong: run_blocks del: run_off split del: if_split)
  then obtain w' where run: "runMain SL sampleMachine listFlags ?w = (Inr Finished, w')"
    by (cases "runMain SL sampleMachine listFlags ?w") (auto split: sum.splits)
  have "masterOnly sampleMachine" by (simp add: sampleMachine_def)
  from master_only_build [OF this run] run show ?thesis by (auto simp: SW_def sampleWorld_def)
qed

end
